(* ===== verification/Prelude.thy ===== *)
theory Prelude
  imports Main "HOL-Library.Word" "HOL-Library.Monad_Syntax"
begin

text \<open>
  Shared vocabulary of the development: the machine integers of the driver, the kernel's
  error numbers, little-endian words in byte buffers, bounds-checked copies, and the kernel
  allocator as the code sees it.

  A C function whose call can have undefined behaviour (a NULL dereference, an access outside
  an allocated block) or can block forever on a mutex it already holds returns an
  \<^typ>\<open>'a option\<close>: \<^const>\<open>None\<close> is "the call does not return normally". A proof that a call
  returns \<^const>\<open>Some\<close> is therefore a proof of memory safety. Error numbers the code returns are
  ordinary values, negative \<^typ>\<open>int\<close>s as in the source.
\<close>

unbundle bit_operations_syntax

section \<open>Machine integers and error numbers\<close>

type_synonym u8 = "8 word"
type_synonym u16 = "16 word"
type_synonym u32 = "32 word"
type_synonym u64 = "64 word"

text \<open>\<open>size_t\<close> and \<open>dma_addr_t\<close> are 64 bits wide on the 64-bit kernels the drivers target;
  pointers into the register window are byte addresses.\<close>

type_synonym size_t = "64 word"
type_synonym addr = nat

abbreviation (input) EPERM :: int where "EPERM \<equiv> 1"
abbreviation (input) EINTR :: int where "EINTR \<equiv> 4"
abbreviation (input) EIO :: int where "EIO \<equiv> 5"
abbreviation (input) EAGAIN :: int where "EAGAIN \<equiv> 11"
abbreviation (input) ENOMEM :: int where "ENOMEM \<equiv> 12"
abbreviation (input) EFAULT :: int where "EFAULT \<equiv> 14"
abbreviation (input) ENODEV :: int where "ENODEV \<equiv> 19"
abbreviation (input) EINVAL :: int where "EINVAL \<equiv> 22"
abbreviation (input) ERESTARTSYS :: int where "ERESTARTSYS \<equiv> 512"
abbreviation (input) ENOIOCTLCMD :: int where "ENOIOCTLCMD \<equiv> 515"

text \<open>Following a pointer: NULL is \<^const>\<open>None\<close>, and following it is undefined behaviour.\<close>

definition deref :: "'a option \<Rightarrow> 'a option" where
  "deref p = p"

lemma deref_simps [simp]: "deref None = None" "deref (Some x) = Some x"
  by (simp_all add: deref_def)

text \<open>Conversions between C's \<open>int\<close> (32-bit two's complement) and the unsigned words.\<close>

abbreviation (input) int_of_u32 :: "u32 \<Rightarrow> int" where
  "int_of_u32 w \<equiv> sint w"

abbreviation (input) u32_of_int :: "int \<Rightarrow> u32" where
  "u32_of_int i \<equiv> word_of_int i"

lemma u32_of_int_of_u32 [simp]: "u32_of_int (int_of_u32 w) = w"
  by simp

text \<open>Rule collections: \<open>wnat\<close> moves word arithmetic without wrap-around to \<^typ>\<open>nat\<close>;
  \<open>mail_simps\<close>, \<open>ring_simps\<close> and \<open>user_simps\<close> unfold one layer of the model each.\<close>

named_theorems wnat
named_theorems mail_simps
named_theorems ring_simps
named_theorems user_simps

lemma unat_add_small: 
  "unat a + unat b < 2 ^ LENGTH('a) \<Longrightarrow> unat (a + b) = unat a + unat b"
  for a b :: "'a::len word"
  by (simp add: unat_word_ariths)

lemma unat_diff_le: "unat b \<le> unat a \<Longrightarrow> unat (a - b) = unat a - unat b"
  for a b :: "'a::len word"
  by (simp add: unat_sub word_le_nat_alt)

lemma unat_ucast_le:
  "LENGTH('a) \<le> LENGTH('b) \<Longrightarrow> unat (ucast w :: 'b::len word) = unat w"
  for w :: "'a::len word"
  by (simp add: unsigned_ucast_eq take_bit_nat_eq_self order.strict_trans2 [OF unsigned_less])

lemma unat_ucast_small:
  "unat w < 2 ^ LENGTH('b) \<Longrightarrow> unat (ucast w :: 'b::len word) = unat w"
  for w :: "'a::len word"
  by (simp add: unsigned_ucast_eq take_bit_nat_eq_self)

lemma sint_ucast_small:
  assumes "unat w < 2 ^ 31"
  shows "sint (ucast w :: u32) = int (unat w)"
proof -
  have "sint (ucast w :: u32) = signed_take_bit 31 (uint w)"
    by (simp add: signed_ucast_eq)
  also have "\<dots> = uint w"
  proof (rule signed_take_bit_int_eq_self)
    show "- (2 ^ 31) \<le> uint w"
      by (rule order_trans [of _ 0]) simp_all
    have "int (unat w) < int (2 ^ 31)"
      using assms by (simp only: of_nat_less_iff)
    then show "uint w < 2 ^ 31"
      by (simp only: uint_nat of_nat_power of_nat_numeral)
  qed
  finally show ?thesis by (simp only: uint_nat)
qed

section \<open>Little-endian words in byte buffers\<close>

definition le32 :: "u32 \<Rightarrow> u8 list" where
  "le32 w = [ucast w, ucast (drop_bit 8 w), ucast (drop_bit 16 w), ucast (drop_bit 24 w)]"

definition of_le32 :: "u8 \<Rightarrow> u8 \<Rightarrow> u8 \<Rightarrow> u8 \<Rightarrow> u32" where
  "of_le32 b0 b1 b2 b3 =
     ucast b0 OR push_bit 8 (ucast b1) OR push_bit 16 (ucast b2) OR push_bit 24 (ucast b3)"

lemma length_le32 [simp]: "length (le32 w) = 4"
  by (simp add: le32_def)

lemma not_bit_u8 [simp]: "8 \<le> n \<Longrightarrow> \<not> bit b n" for b :: u8
  using bit_imp_le_length [of b n] by auto

lemma le32_of_le32 [simp]: "le32 (of_le32 b0 b1 b2 b3) = [b0, b1, b2, b3]"
  unfolding le32_def of_le32_def
  by (auto intro!: bit_word_eqI simp: bit_simps)

lemma of_le32_inverse:
  "of_le32 (ucast w) (ucast (drop_bit 8 w)) (ucast (drop_bit 16 w)) (ucast (drop_bit 24 w)) = w"
proof (rule bit_word_eqI)
  fix n :: nat
  assume "n < LENGTH(32)"
  then consider "n < 8" | "8 \<le> n" "n < 16" | "16 \<le> n" "n < 24" | "24 \<le> n" "n < 32"
    by fastforce
  then show "bit (of_le32 (ucast w) (ucast (drop_bit 8 w)) (ucast (drop_bit 16 w))
      (ucast (drop_bit 24 w))) n = bit w n"
    by cases (auto simp: of_le32_def bit_simps)
qed

lemma of_le32_le32: "le32 w = [b0, b1, b2, b3] \<Longrightarrow> of_le32 b0 b1 b2 b3 = w"
  unfolding le32_def using of_le32_inverse [of w] by simp

section \<open>Bounds-checked memory operations\<close>

text \<open>\<open>load32\<close> reads the word at a byte offset of an allocated block and \<open>copy_into\<close> is
  \<open>memcpy\<close> of the first \<open>n\<close> bytes of a source block to an offset of a destination block;
  both are undefined outside the blocks.\<close>

definition load32 :: "u8 list \<Rightarrow> nat \<Rightarrow> u32 option" where
  "load32 bs off =
     (if off + 4 \<le> length bs
      then Some (of_le32 (bs ! off) (bs ! (off + 1)) (bs ! (off + 2)) (bs ! (off + 3)))
      else None)"

definition copy_into :: "u8 list \<Rightarrow> nat \<Rightarrow> u8 list \<Rightarrow> nat \<Rightarrow> u8 list option" where
  "copy_into dst off src n =
     (if n \<le> length src \<and> off + n \<le> length dst
      then Some (take off dst @ take n src @ drop (off + n) dst)
      else None)"

lemma load32_le32 [simp]: "load32 (le32 w @ bs) 0 = Some w"
  by (simp add: load32_def le32_def of_le32_inverse)

lemma load32_append: 
  "length xs = off \<Longrightarrow> load32 (xs @ ys) (off + n) = load32 ys n"
  by (auto simp: load32_def nth_append)

lemma load32_Some_iff: "(\<exists>w. load32 bs off = Some w) \<longleftrightarrow> off + 4 \<le> length bs"
  by (simp add: load32_def)

lemma length_copy_into: "copy_into dst off src n = Some dst' \<Longrightarrow> length dst' = length dst"
  by (auto simp: copy_into_def split: if_splits)

lemma copy_into_append:
  "length done = off \<Longrightarrow> length src \<le> length rest \<Longrightarrow>
   copy_into (done @ rest) off src (length src) = Some ((done @ src) @ drop (length src) rest)"
  by (simp add: copy_into_def)

section \<open>The kernel allocator\<close>

text \<open>
  \<open>kmalloc\<close> is kernel code: which calls succeed, and what the (uninitialised) block holds, is
  the parameter \<open>km_oracle\<close>, indexed by the number of the call and the requested size. The
  state counts the calls and the blocks that are live, so that leaks and double frees are
  visible. \<open>km_ok\<close> is the documented contract: a block has the requested size.
\<close>

record kmem =
  km_oracle :: "nat \<Rightarrow> nat \<Rightarrow> u8 list option"
  km_calls :: nat
  km_live :: int

definition kmalloc :: "nat \<Rightarrow> kmem \<Rightarrow> u8 list option \<times> kmem" where
  "kmalloc n k =
     (let r = km_oracle k (km_calls k) n
      in (r, k\<lparr>km_calls := km_calls k + 1,
               km_live := km_live k + (if r = None then 0 else 1)\<rparr>))"

definition kzalloc :: "nat \<Rightarrow> kmem \<Rightarrow> u8 list option \<times> kmem" where
  "kzalloc n k = (case kmalloc n k of (r, k') \<Rightarrow> (map_option (\<lambda>_. replicate n 0) r, k'))"

definition kfree :: "kmem \<Rightarrow> kmem" where
  "kfree k = k\<lparr>km_live := km_live k - 1\<rparr>"

definition km_ok :: "kmem \<Rightarrow> bool" where
  "km_ok k \<longleftrightarrow> (\<forall>i n bs. km_oracle k i n = Some bs \<longrightarrow> length bs = n)"

text \<open>No allocation fails; the code has paths that do not survive a failed one.\<close>

definition km_nofail :: "kmem \<Rightarrow> bool" where
  "km_nofail k \<longleftrightarrow> (\<forall>i n. km_oracle k i n \<noteq> None)"

text \<open>A concrete allocator, for the witnesses: every call succeeds with a block of zeros.\<close>

definition kmem0 :: kmem where
  "kmem0 = \<lparr>km_oracle = (\<lambda>i n. Some (replicate n 0)), km_calls = 0, km_live = 0\<rparr>"

lemma kmem0_ok [simp]: "km_ok kmem0" "km_nofail kmem0"
  by (simp_all add: kmem0_def km_ok_def km_nofail_def)

text \<open>\<open>km_step n j k k'\<close>: \<open>k'\<close> is \<open>k\<close> after \<open>n\<close> calls whose net effect on the live blocks is
  \<open>j\<close>. Every function of the model changes the allocator in this way only.\<close>

definition km_step :: "nat \<Rightarrow> int \<Rightarrow> kmem \<Rightarrow> kmem" where
  "km_step n j k = k\<lparr>km_calls := km_calls k + n, km_live := km_live k + j\<rparr>"

lemma km_step_sel [simp]:
  "km_oracle (km_step n j k) = km_oracle k"
  "km_calls (km_step n j k) = km_calls k + n"
  "km_live (km_step n j k) = km_live k + j"
  by (simp_all add: km_step_def)

lemma km_step_step [simp]: "km_step m i (km_step n j k) = km_step (n + m) (j + i) k"
  by (simp add: km_step_def add.assoc)

lemma km_step_0 [simp]: "km_step 0 0 k = k"
  by (simp add: km_step_def)

lemma kfree_step: "kfree k = km_step 0 (- 1) k"
  by (simp add: kfree_def km_step_def)

lemma km_step_ok [simp]: "km_ok (km_step n j k) = km_ok k" "km_nofail (km_step n j k) = km_nofail k"
  by (simp_all add: km_ok_def km_nofail_def)

lemma kmalloc_cases:
  obtains (fail) k' where "kmalloc n k = (None, km_step 1 0 k)"
  | (ok) bs where "kmalloc n k = (Some bs, km_step 1 1 k)"
  by (cases "km_oracle k (km_calls k) n") (auto simp: kmalloc_def km_step_def Let_def)

lemma kmalloc_Some:
  assumes "km_ok k" "km_nofail k"
  obtains bs where "kmalloc n k = (Some bs, km_step 1 1 k)" "length bs = n"
proof -
  from assms(2) obtain bs where bs: "km_oracle k (km_calls k) n = Some bs"
    by (auto simp: km_nofail_def)
  with assms(1) have "length bs = n" by (auto simp: km_ok_def)
  with bs that show thesis by (simp add: kmalloc_def km_step_def Let_def)
qed

lemma kmalloc_length: "km_ok k \<Longrightarrow> kmalloc n k = (Some bs, k') \<Longrightarrow> length bs = n"
  by (auto simp: kmalloc_def Let_def km_ok_def)

lemma kmalloc_kmem: 
  "kmalloc n k = (r, k') \<Longrightarrow> k' = km_step 1 (if r = None then 0 else 1) k"
  by (auto simp: kmalloc_def Let_def km_step_def)

lemma kzalloc_Some:
  "km_ok k \<Longrightarrow> km_nofail k \<Longrightarrow> kzalloc n k = (Some (replicate n 0), km_step 1 1 k)"
  by (erule (1) kmalloc_Some [of k n]) (simp add: kzalloc_def)

end
