(* ===== verification/Mcu_Utils.thy ===== *)
theory Mcu_Utils
  imports Prelude
begin

text \<open>
  Device memory and the 32-bit copies to and from it (\<open>common/mcu_utils.c\<close>). The mapped
  register window is a function from byte addresses to bytes; \<open>ioread32\<close> and \<open>iowrite32\<close> are
  the kernel's little-endian accessors. A buffer in kernel memory is a block (a byte list) and
  an offset into it.
\<close>

type_synonym iomem = "addr \<Rightarrow> u8"

definition io_put :: "addr \<Rightarrow> u8 list \<Rightarrow> iomem \<Rightarrow> iomem" where
  "io_put dst bs mem =
     (\<lambda>a. if dst \<le> a \<and> a < dst + length bs then bs ! (a - dst) else mem a)"

definition io_get :: "addr \<Rightarrow> nat \<Rightarrow> iomem \<Rightarrow> u8 list" where
  "io_get src n mem = map (\<lambda>i. mem (src + i)) [0..<n]"

definition ioread32 :: "addr \<Rightarrow> iomem \<Rightarrow> u32" where
  "ioread32 a mem = of_le32 (mem a) (mem (a + 1)) (mem (a + 2)) (mem (a + 3))"

definition iowrite32 :: "u32 \<Rightarrow> addr \<Rightarrow> iomem \<Rightarrow> iomem" where
  "iowrite32 w a mem = io_put a (le32 w) mem"

definition store32 :: "u8 list \<Rightarrow> nat \<Rightarrow> u32 \<Rightarrow> u8 list option" where
  "store32 bs off w = copy_into bs off (le32 w) 4"

section \<open>The copies\<close>

text \<open>The loop bodies, for \<open>k\<close> more iterations from index \<open>i\<close>.\<close>

fun copy_to_io :: "nat \<Rightarrow> nat \<Rightarrow> addr \<Rightarrow> u8 list \<Rightarrow> nat \<Rightarrow> iomem \<Rightarrow> iomem option" where
  "copy_to_io i 0 dst src soff mem = Some mem"
| "copy_to_io i (Suc k) dst src soff mem = do {
     w \<leftarrow> load32 src (soff + 4 * i);
     copy_to_io (Suc i) k dst src soff (iowrite32 w (dst + 4 * i) mem)
   }"

fun copy_from_io :: "nat \<Rightarrow> nat \<Rightarrow> u8 list \<Rightarrow> nat \<Rightarrow> addr \<Rightarrow> iomem \<Rightarrow> u8 list option" where
  "copy_from_io i 0 dst doff src mem = Some dst"
| "copy_from_io i (Suc k) dst doff src mem = do {
     dst \<leftarrow> store32 dst (doff + 4 * i) (ioread32 (src + 4 * i) mem);
     copy_from_io (Suc i) k dst doff src mem
   }"

text \<open>\<open>i < size / 4\<close> with a signed \<open>size\<close>: no iteration for a negative one.\<close>

definition memcpy_toio_32 :: "addr \<Rightarrow> u8 list \<Rightarrow> nat \<Rightarrow> int \<Rightarrow> iomem \<Rightarrow> iomem option" where
  "memcpy_toio_32 dst src soff sz mem = copy_to_io 0 (nat (sz div 4)) dst src soff mem"

definition memcpy_fromio_32 ::
    "u8 list \<Rightarrow> nat \<Rightarrow> addr \<Rightarrow> int \<Rightarrow> iomem \<Rightarrow> u8 list option" where
  "memcpy_fromio_32 dst doff src sz mem = copy_from_io 0 (nat (sz div 4)) dst doff src mem"

section \<open>Reads and writes of device memory\<close>

lemma io_put_Nil [simp]: "io_put a [] mem = mem"
  by (rule ext) (auto simp: io_put_def)

lemma io_put_append: "io_put (a + length xs) ys (io_put a xs mem) = io_put a (xs @ ys) mem"
  by (auto simp: io_put_def fun_eq_iff nth_append)

lemma io_put_outside: "x < a \<or> a + length bs \<le> x \<Longrightarrow> io_put a bs mem x = mem x"
  by (auto simp: io_put_def)

lemma length_io_get [simp]: "length (io_get a n mem) = n"
  by (simp add: io_get_def)

lemma io_get_0 [simp]: "io_get a 0 mem = []"
  by (simp add: io_get_def)

lemma io_get_add: "io_get a (m + n) mem = io_get a m mem @ io_get (a + m) n mem"
  by (rule nth_equalityI) (auto simp: io_get_def nth_append add.assoc)

lemma io_get_cong:
  "(\<And>x. a \<le> x \<Longrightarrow> x < a + n \<Longrightarrow> mem x = mem' x) \<Longrightarrow> io_get a n mem = io_get a n mem'"
  by (simp add: io_get_def)

lemma le32_ioread32: "le32 (ioread32 a mem) = io_get a 4 mem"
  by (simp add: ioread32_def io_get_def upt_rec numeral_eq_Suc)

lemma ioread32_cong:
  "(\<And>x. a \<le> x \<Longrightarrow> x < a + 4 \<Longrightarrow> mem x = mem' x) \<Longrightarrow> ioread32 a mem = ioread32 a mem'"
  by (simp add: ioread32_def)

lemma ioread32_io_put [simp]: "ioread32 a (io_put a (le32 w) mem) = w"
  by (simp add: ioread32_def io_put_def le32_def of_le32_inverse)

lemma ioread32_iowrite32 [simp]: "ioread32 a (iowrite32 w a mem) = w"
  by (simp add: iowrite32_def)

lemma ioread32_iowrite32_other [simp]:
  "a + 4 \<le> b \<or> b + 4 \<le> a \<Longrightarrow> ioread32 a (iowrite32 w b mem) = ioread32 a mem"
  by (rule ioread32_cong) (auto simp: iowrite32_def io_put_outside)

lemma iowrite32_outside: "x < a \<or> a + 4 \<le> x \<Longrightarrow> iowrite32 w a mem x = mem x"
  by (simp add: iowrite32_def io_put_outside)

lemma load32_take: "load32 bs off = Some w \<Longrightarrow> le32 w = take 4 (drop off bs)"
proof -
  assume "load32 bs off = Some w"
  then have len: "off + 4 \<le> length bs"
    and w: "w = of_le32 (bs ! off) (bs ! (off + 1)) (bs ! (off + 2)) (bs ! (off + 3))"
    by (auto simp: load32_def split: if_splits)
  have "take 4 (drop off bs) = [bs ! off, bs ! (off + 1), bs ! (off + 2), bs ! (off + 3)]"
    using len by (intro nth_equalityI) (auto simp: less_Suc_eq numeral_eq_Suc)
  with w show ?thesis by simp
qed

section \<open>What the copies do\<close>

lemma copy_to_io_eq:
  "soff + 4 * (i + k) \<le> length src \<Longrightarrow>
   copy_to_io i k dst src soff mem =
     Some (io_put (dst + 4 * i) (take (4 * k) (drop (soff + 4 * i) src)) mem)"
proof (induction k arbitrary: i mem)
  case 0
  then show ?case by simp
next
  case (Suc k)
  then obtain w where w: "load32 src (soff + 4 * i) = Some w"
    by (auto simp: load32_def)
  let ?d = "drop (soff + 4 * i) src"
  have "take (4 * Suc k) ?d = take 4 ?d @ take (4 * k) (drop 4 ?d)"
    using take_add [of 4 "4 * k" ?d] by (simp add: add.commute)
  also have "drop 4 ?d = drop (soff + 4 * Suc i) src"
    by (simp add: add.commute add.left_commute)
  finally have t: "take (4 * Suc k) ?d = le32 w @ take (4 * k) (drop (soff + 4 * Suc i) src)"
    using load32_take [OF w] by simp
  have "copy_to_io i (Suc k) dst src soff mem =
      Some (io_put (dst + 4 * Suc i) (take (4 * k) (drop (soff + 4 * Suc i) src))
        (io_put (dst + 4 * i) (le32 w) mem))"
    using Suc w by (simp add: iowrite32_def)
  also have "dst + 4 * Suc i = dst + 4 * i + length (le32 w)" by simp
  finally show ?case by (simp only: io_put_append t)
qed

lemma memcpy_toio_32_eq:
  assumes "0 \<le> sz" "soff + 4 * (nat sz div 4) \<le> length src"
  shows "memcpy_toio_32 dst src soff sz mem =
    Some (io_put dst (take (4 * (nat sz div 4)) (drop soff src)) mem)"
  using assms copy_to_io_eq [of soff 0 "nat sz div 4" src dst mem]
  by (simp add: memcpy_toio_32_def nat_div_distrib)

lemma copy_from_io_eq:
  "doff + 4 * (i + k) \<le> length dst \<Longrightarrow>
   copy_from_io i k dst doff src mem =
     Some (take (doff + 4 * i) dst @ io_get (src + 4 * i) (4 * k) mem
       @ drop (doff + 4 * (i + k)) dst)"
proof (induction k arbitrary: i dst)
  case 0
  then show ?case by simp
next
  case (Suc k)
  let ?w = "io_get (src + 4 * i) 4 mem"
  let ?dst = "take (doff + 4 * i) dst @ ?w @ drop (doff + 4 * i + 4) dst"
  have st: "store32 dst (doff + 4 * i) (ioread32 (src + 4 * i) mem) = Some ?dst"
    using Suc.prems by (simp add: store32_def copy_into_def le32_ioread32)
  have len: "length ?dst = length dst"
    using Suc.prems by simp
  have "copy_from_io i (Suc k) dst doff src mem = copy_from_io (Suc i) k ?dst doff src mem"
    using st by simp
  also have "\<dots> = Some (take (doff + 4 * Suc i) ?dst @ io_get (src + 4 * Suc i) (4 * k) mem
      @ drop (doff + 4 * (Suc i + k)) ?dst)"
    using Suc.prems len by (intro Suc.IH) simp
  also have "take (doff + 4 * Suc i) ?dst = take (doff + 4 * i) dst @ ?w"
    using Suc.prems by simp
  also have "drop (doff + 4 * (Suc i + k)) ?dst = drop (doff + 4 * (i + Suc k)) dst"
    using Suc.prems by (simp add: algebra_simps)
  also have "io_get (src + 4 * Suc i) (4 * k) mem = io_get (src + 4 * i + 4) (4 * k) mem"
    by (simp add: algebra_simps)
  finally show ?case
    using io_get_add [of "src + 4 * i" 4 "4 * k" mem] by simp
qed

lemma memcpy_fromio_32_eq:
  assumes "0 \<le> sz" "doff + 4 * (nat sz div 4) \<le> length dst"
  shows "memcpy_fromio_32 dst doff src sz mem =
    Some (take doff dst @ io_get src (4 * (nat sz div 4)) mem
      @ drop (doff + 4 * (nat sz div 4)) dst)"
  using assms copy_from_io_eq [of doff 0 "nat sz div 4" dst src mem]
  by (simp add: memcpy_fromio_32_def nat_div_distrib)

end
