(* ===== verification/Ring.thy ===== *)
theory Ring
  imports Mcu_Utils
begin

text \<open>
  Byte rings in device memory: reading and writing \<open>n\<close> bytes that start at an offset of a ring
  and wrap at its end. The specification the mailbox's split copies are proved against; nothing
  here is specific to the mailbox protocol.
\<close>

definition ring_get :: "addr \<Rightarrow> nat \<Rightarrow> nat \<Rightarrow> nat \<Rightarrow> iomem \<Rightarrow> u8 list" where
  "ring_get base S h n mem = map (\<lambda>i. mem (base + (h + i) mod S)) [0..<n]"

text \<open>The index, from offset \<open>t\<close>, of the ring's cell at offset \<open>x\<close>.\<close>

definition ring_index :: "nat \<Rightarrow> nat \<Rightarrow> nat \<Rightarrow> nat" where
  "ring_index S t x = (if t \<le> x then x - t else x + S - t)"

definition ring_put :: "addr \<Rightarrow> nat \<Rightarrow> nat \<Rightarrow> u8 list \<Rightarrow> iomem \<Rightarrow> iomem" where
  "ring_put base S t bs mem =
     (\<lambda>a. if base \<le> a \<and> a < base + S \<and> ring_index S t (a - base) < length bs
          then bs ! ring_index S t (a - base) else mem a)"

lemma length_ring_get [simp]: "length (ring_get base S h n mem) = n"
  by (simp add: ring_get_def)

lemma ring_get_0 [simp]: "ring_get base S h 0 mem = []"
  by (simp add: ring_get_def)

lemma ring_get_add:
  "ring_get base S h (m + n) mem = ring_get base S h m mem @ ring_get base S ((h + m) mod S) n mem"
  by (rule nth_equalityI) (auto simp: ring_get_def nth_append mod_add_left_eq add.assoc)

lemma ring_get_take: "m \<le> n \<Longrightarrow> take m (ring_get base S h n mem) = ring_get base S h m mem"
  using ring_get_add [of base S h m "n - m" mem] by simp

lemma ring_get_drop:
  "m \<le> n \<Longrightarrow>
   drop m (ring_get base S h n mem) = ring_get base S ((h + m) mod S) (n - m) mem"
  using ring_get_add [of base S h m "n - m" mem] by simp

lemma ring_get_cong:
  assumes "0 < S" "\<And>a. base \<le> a \<Longrightarrow> a < base + S \<Longrightarrow> mem a = mem' a"
  shows "ring_get base S h n mem = ring_get base S h n mem'"
  using assms by (auto simp: ring_get_def)

lemma mod_add_less: "a < S \<Longrightarrow> b < S \<Longrightarrow> (a + b) mod S = (if a + b < S then a + b else a + b - S)"
  for S :: nat
  by (auto simp: mod_if)

lemma ring_index_mod: "t < S \<Longrightarrow> i < S \<Longrightarrow> ring_index S t ((t + i) mod S) = i"
  by (auto simp: ring_index_def mod_add_less)

lemma ring_get_put:
  assumes "t < S" "length bs \<le> S"
  shows "ring_get base S t (length bs) (ring_put base S t bs mem) = bs"
proof (rule nth_equalityI)
  fix i
  assume "i < length (ring_get base S t (length bs) (ring_put base S t bs mem))"
  then have i: "i < length bs" "i < S" using assms by simp_all
  with assms have "(t + i) mod S < S" by simp
  with i assms show "ring_get base S t (length bs) (ring_put base S t bs mem) ! i = bs ! i"
    by (simp add: ring_get_def ring_put_def ring_index_mod)
qed simp

text \<open>Writing behind the \<open>n\<close> bytes in use, within the free space, leaves them alone.\<close>

lemma ring_get_put_behind:
  assumes "h < S" "n + length bs \<le> S"
  shows "ring_get base S h n (ring_put base S ((h + n) mod S) bs mem) = ring_get base S h n mem"
proof (rule nth_equalityI)
  fix i
  assume "i < length (ring_get base S h n (ring_put base S ((h + n) mod S) bs mem))"
  then have i: "i < n" by simp
  let ?t = "(h + n) mod S" and ?x = "(h + i) mod S"
  have S: "0 < S" using assms by simp
  have x: "?x < S" using S by simp
  have "length bs \<le> ring_index S ?t ?x"
  proof (cases "n = S")
    case True
    with assms(2) show ?thesis by simp
  next
    case False
    then have "n < S" using assms by simp
    moreover from this i have "i < S" by simp
    ultimately show ?thesis
      using assms i by (auto simp: ring_index_def mod_add_less)
  qed
  then show "ring_get base S h n (ring_put base S ?t bs mem) ! i = ring_get base S h n mem ! i"
    using i x by (simp add: ring_get_def ring_put_def)
qed simp

lemma ring_put_outside: "a < base \<or> base + S \<le> a \<Longrightarrow> ring_put base S t bs mem a = mem a"
  by (auto simp: ring_put_def)

section \<open>One or two straight copies\<close>

lemma ring_put_straight:
  assumes "t + length bs \<le> S" 
  shows "io_put (base + t) bs mem = ring_put base S t bs mem"
  using assms by (auto simp: fun_eq_iff io_put_def ring_put_def ring_index_def)

lemma ring_put_wrapping:
  assumes "t < S" "S \<le> t + length bs" "length bs \<le> S"
  shows "io_put base (drop (S - t) bs) (io_put (base + t) (take (S - t) bs) mem) =
    ring_put base S t bs mem"
proof (rule ext)
  fix a
  consider "a < base" | "base \<le> a" "a < base + t" | "base + t \<le> a" "a < base + S" | "base + S \<le> a"
    by linarith
  then show "io_put base (drop (S - t) bs) (io_put (base + t) (take (S - t) bs) mem) a =
      ring_put base S t bs mem a"
    using assms by cases (auto simp: io_put_def ring_put_def ring_index_def ac_simps)
qed

lemma ring_get_straight: "t + n \<le> S \<Longrightarrow> io_get (base + t) n mem = ring_get base S t n mem"
  by (simp add: io_get_def ring_get_def add.assoc)

lemma ring_get_wrapping:
  assumes "t < S" "S \<le> t + n" "n \<le> S"
  shows "io_get (base + t) (S - t) mem @ io_get base (n - (S - t)) mem = ring_get base S t n mem"
proof -
  have "ring_get base S t n mem =
      ring_get base S t (S - t) mem @ ring_get base S 0 (n - (S - t)) mem"
    using assms ring_get_add [of base S t "S - t" "n - (S - t)" mem] by simp
  moreover have "ring_get base S t (S - t) mem = io_get (base + t) (S - t) mem"
    using assms ring_get_straight [of t "S - t" S base mem] by simp
  moreover have "ring_get base S 0 (n - (S - t)) mem = io_get base (n - (S - t)) mem"
    using assms ring_get_straight [of 0 "n - (S - t)" S base mem] by simp
  ultimately show ?thesis by simp
qed

section \<open>Offsets of a ring of words\<close>

text \<open>Rounding a size up to whole words, as the mailbox does, and the words it stores.\<close>

definition roundup4 :: "nat \<Rightarrow> nat" where
  "roundup4 n = (n + 3) div 4 * 4"

definition rounddown4 :: "nat \<Rightarrow> nat" where
  "rounddown4 n = 4 * (n div 4)"

lemma dvd_roundup4 [simp]: "4 dvd roundup4 n"
  by (simp add: roundup4_def)

lemma roundup4_bounds: "n \<le> roundup4 n" "roundup4 n < n + 4"
  using div_mult_mod_eq [of "n + 3" 4] mod_less_divisor [of 4 "n + 3"]
  unfolding roundup4_def by linarith+

lemma rounddown4_le: "rounddown4 n \<le> n"
  by (simp add: rounddown4_def)

lemma rounddown4_le_roundup4: "rounddown4 n \<le> roundup4 n"
  using rounddown4_le roundup4_bounds(1) by (rule order_trans)

lemma roundup4_dvd [simp]: "4 dvd n \<Longrightarrow> roundup4 n = n"
  by (auto simp: roundup4_def elim!: dvdE)

lemma rounddown4_dvd [simp]: "4 dvd n \<Longrightarrow> rounddown4 n = n"
  by (auto simp: rounddown4_def elim!: dvdE)

lemma roundup4_add: "4 dvd t \<Longrightarrow> roundup4 (t + n) = t + roundup4 n"
proof (elim dvdE)
  fix k
  assume "t = 4 * k"
  moreover have "(4 * k + n + 3) div 4 = k + (n + 3) div 4"
    using div_mult_self4 [of 4 k "n + 3"] by (simp add: ac_simps)
  ultimately show ?thesis by (simp add: roundup4_def)
qed

lemma roundup4_diff: "4 dvd s \<Longrightarrow> s \<le> n \<Longrightarrow> roundup4 (n - s) = roundup4 n - s"
  using roundup4_add [of s "n - s"] by simp

lemma rounddown4_diff: "4 dvd s \<Longrightarrow> s \<le> n \<Longrightarrow> rounddown4 (n - s) = rounddown4 n - s"
  by (auto simp: rounddown4_def dest!: le_Suc_ex elim!: dvdE)

lemma dvd4_mod: "4 dvd S \<Longrightarrow> 4 dvd t \<Longrightarrow> 4 dvd t mod S" for S :: nat
  by (rule dvd_mod)

text \<open>Words in use and words free, from head and tail.\<close>

definition ring_used :: "nat \<Rightarrow> nat \<Rightarrow> nat \<Rightarrow> nat" where
  "ring_used S h t = (if h \<le> t then t - h else S + t - h)"

lemma ring_used_less: "h < S \<Longrightarrow> t < S \<Longrightarrow> ring_used S h t < S"
  by (auto simp: ring_used_def)

lemma ring_used_tail: "h < S \<Longrightarrow> t < S \<Longrightarrow> (h + ring_used S h t) mod S = t"
  by (auto simp: ring_used_def)

lemma ring_used_advance_tail:
  "h < S \<Longrightarrow> t < S \<Longrightarrow> ring_used S h t + n < S \<Longrightarrow>
   ring_used S h ((t + n) mod S) = ring_used S h t + n"
  by (auto simp: ring_used_def mod_add_less split: if_splits)

lemma ring_used_advance_head:
  "h < S \<Longrightarrow> t < S \<Longrightarrow> n \<le> ring_used S h t \<Longrightarrow>
   ring_used S ((h + n) mod S) t = ring_used S h t - n"
  by (auto simp: ring_used_def mod_add_less split: if_splits)

lemma dvd_ring_used: "4 dvd S \<Longrightarrow> 4 dvd h \<Longrightarrow> 4 dvd t \<Longrightarrow> 4 dvd ring_used S h t"
  by (auto simp: ring_used_def dvd_diff_nat)

end
