(* ===== verification/Mail.thy ===== *)
theory Mail
  imports Prelude
begin

text \<open>
  Messages between the driver and the firmware: \<open>struct al5_mail\<close> and its operations
  (\<open>common/al_mail.c\<close>), the message numbers, and the messages both drivers send
  (\<open>common/al_codec_mails.c\<close>). A mail pointer that the code may hold as NULL is an
  \<^typ>\<open>'a option\<close>; the operations that follow the pointer take the mail itself and their
  callers write \<^const>\<open>deref\<close> where they follow it.
\<close>

section \<open>struct al5_mail\<close>

text \<open>\<open>body\<close> is the part of the allocated block behind the header, \<open>content_size\<close> bytes long;
  \<open>body_size\<close> is what the 16-bit field records of that size.\<close>

record al5_mail =
  body_offset :: u32
  msg_uid :: u16
  body_size :: u16
  body :: "u8 list"

text \<open>\<open>roundup(sizeof(struct al5_mail), 4)\<close> on a 64-bit kernel.\<close>

definition mail_struct_size :: nat where
  "mail_struct_size = (16 + 3) div 4 * 4"

definition al5_mail_create :: "u32 \<Rightarrow> u32 \<Rightarrow> kmem \<Rightarrow> al5_mail option \<times> kmem" where
  "al5_mail_create uid content_size k =
     (case kmalloc (mail_struct_size + unat content_size) k of
        (None, k') \<Rightarrow> (None, k')
      | (Some block, k') \<Rightarrow>
          (Some \<lparr>body_offset = 0, msg_uid = ucast uid, body_size = ucast content_size,
                 body = drop mail_struct_size block\<rparr>, k'))"

text \<open>\<open>content\<close> is the memory the pointer argument points to, up to the end of its object.\<close>

definition al5_mail_write :: "al5_mail \<Rightarrow> u8 list \<Rightarrow> u32 \<Rightarrow> al5_mail option" where
  "al5_mail_write mail content sz = do {
     bs \<leftarrow> copy_into (body mail) (unat (body_offset mail)) content (unat sz);
     Some (mail\<lparr>body := bs, body_offset := body_offset mail + sz\<rparr>)
   }"

definition al5_mail_write_word :: "al5_mail \<Rightarrow> u32 \<Rightarrow> al5_mail option" where
  "al5_mail_write_word mail w = al5_mail_write mail (le32 w) 4"

definition al5_free_mail :: "al5_mail option \<Rightarrow> kmem \<Rightarrow> kmem" where
  "al5_free_mail mail k = (if mail \<noteq> None then kfree k else k)"

definition al5_mail_get_uid :: "al5_mail \<Rightarrow> u32" where
  "al5_mail_get_uid mail = ucast (msg_uid mail)"

definition al5_mail_get_size :: "al5_mail \<Rightarrow> u32" where
  "al5_mail_get_size mail = ucast (body_size mail)"

definition al5_mail_get_body :: "al5_mail \<Rightarrow> u8 list" where
  "al5_mail_get_body mail = body mail"

definition al5_mail_get_word :: "al5_mail \<Rightarrow> u32 \<Rightarrow> u32 option" where
  "al5_mail_get_word mail word_offset = load32 (body mail) (4 * unat word_offset)"

definition al5_mail_create_copy :: 
    "al5_mail \<Rightarrow> kmem \<Rightarrow> (al5_mail \<times> kmem) option" where
  "al5_mail_create_copy mail k =
     (let (copy, k') = al5_mail_create (ucast (msg_uid mail)) (ucast (body_size mail)) k
      in do {
        c \<leftarrow> deref copy;
        c \<leftarrow> al5_mail_write c (body mail) (ucast (body_size mail));
        Some (c, k')
      })"

section \<open>Message numbers\<close>

datatype al5_mail_uid =
    AL_MCU_MSG_INIT
  | AL_MCU_MSG_DEINIT
  | AL_MCU_MSG_IP_INT
  | AL_MCU_MSG_CPU_INT
  | AL_MCU_MSG_CPU_RSP
  | AL_MCU_MSG_CREATE_CHANNEL
  | AL_MCU_MSG_DESTROY_CHANNEL
  | AL_MCU_MSG_ENCODE_ONE_FRM
  | AL_MCU_MSG_DECODE_ONE_FRM
  | AL_MCU_MSG_SEARCH_START_CODE
  | AL_MCU_MSG_QUIET_DESTROY_CHANNEL
  | AL_MCU_MSG_GET_RESOURCE
  | AL_MCU_MSG_SET_BUFFER
  | AL_MCU_MSG_SHUTDOWN
  | AL_MCU_MSG_PUSH_BUFFER_INTERMEDIATE
  | AL_MCU_MSG_PUSH_BUFFER_REFERENCE
  | AL_MCU_MSG_GET_RECONSTRUCTED_PICTURE
  | AL_MCU_MSG_RELEASE_RECONSTRUCTED_PICTURE
  | AL_MCU_MSG_PUT_STREAM_BUFFER
  | AL_MCU_MSG_TRACE
  | AL_MCU_MSG_RANDOM_TEST
  | AL_MCU_MSG_SET_TIMER_BUFFER
  | AL_MCU_MSG_SET_IRQ_TIMER_BUFFER
  | AL_MCU_MSG_DECODE_ONE_SLICE
  | AL_MCU_MSG_MAX

text \<open>The enumeration's values, from 0 in the order of declaration.\<close>

primrec uid_num :: "al5_mail_uid \<Rightarrow> nat" where
  "uid_num AL_MCU_MSG_INIT = 0"
| "uid_num AL_MCU_MSG_DEINIT = 1"
| "uid_num AL_MCU_MSG_IP_INT = 2"
| "uid_num AL_MCU_MSG_CPU_INT = 3"
| "uid_num AL_MCU_MSG_CPU_RSP = 4"
| "uid_num AL_MCU_MSG_CREATE_CHANNEL = 5"
| "uid_num AL_MCU_MSG_DESTROY_CHANNEL = 6"
| "uid_num AL_MCU_MSG_ENCODE_ONE_FRM = 7"
| "uid_num AL_MCU_MSG_DECODE_ONE_FRM = 8"
| "uid_num AL_MCU_MSG_SEARCH_START_CODE = 9"
| "uid_num AL_MCU_MSG_QUIET_DESTROY_CHANNEL = 10"
| "uid_num AL_MCU_MSG_GET_RESOURCE = 11"
| "uid_num AL_MCU_MSG_SET_BUFFER = 12"
| "uid_num AL_MCU_MSG_SHUTDOWN = 13"
| "uid_num AL_MCU_MSG_PUSH_BUFFER_INTERMEDIATE = 14"
| "uid_num AL_MCU_MSG_PUSH_BUFFER_REFERENCE = 15"
| "uid_num AL_MCU_MSG_GET_RECONSTRUCTED_PICTURE = 16"
| "uid_num AL_MCU_MSG_RELEASE_RECONSTRUCTED_PICTURE = 17"
| "uid_num AL_MCU_MSG_PUT_STREAM_BUFFER = 18"
| "uid_num AL_MCU_MSG_TRACE = 19"
| "uid_num AL_MCU_MSG_RANDOM_TEST = 20"
| "uid_num AL_MCU_MSG_SET_TIMER_BUFFER = 21"
| "uid_num AL_MCU_MSG_SET_IRQ_TIMER_BUFFER = 22"
| "uid_num AL_MCU_MSG_DECODE_ONE_SLICE = 23"
| "uid_num AL_MCU_MSG_MAX = 24"

definition uid_code :: "al5_mail_uid \<Rightarrow> u32" where
  "uid_code u = of_nat (uid_num u)"

lemma uid_num_inject [simp]: "uid_num u = uid_num v \<longleftrightarrow> u = v"
  by (cases u; cases v) simp_all

lemma uid_num_bound: "uid_num u < 25"
  by (cases u) simp_all

lemma uid_code_inject [simp]: "uid_code u = uid_code v \<longleftrightarrow> u = v"
proof -
  have "unat (uid_code w) = uid_num w" for w
    using uid_num_bound [of w] by (simp add: uid_code_def unat_of_nat)
  then show ?thesis by (metis uid_num_inject)
qed

text \<open>The enumeration is ordered by its values.\<close>

instantiation al5_mail_uid :: linorder
begin

definition less_eq_al5_mail_uid :: "al5_mail_uid \<Rightarrow> al5_mail_uid \<Rightarrow> bool" where
  "less_eq_al5_mail_uid u v \<longleftrightarrow> uid_num u \<le> uid_num v"

definition less_al5_mail_uid :: "al5_mail_uid \<Rightarrow> al5_mail_uid \<Rightarrow> bool" where
  "less_al5_mail_uid u v \<longleftrightarrow> uid_num u < uid_num v"

instance
  by standard (auto simp: less_eq_al5_mail_uid_def less_al5_mail_uid_def)

end

section \<open>Building a mail\<close>

text \<open>A mail under construction: \<open>pre\<close> has been written, the bytes of \<open>rest\<close> are still what
  the allocator left there.\<close>

definition partial_mail :: "u32 \<Rightarrow> u8 list \<Rightarrow> u8 list \<Rightarrow> al5_mail" where
  "partial_mail uid pre rest =
     \<lparr>body_offset = of_nat (length pre), msg_uid = ucast uid,
      body_size = of_nat (length pre + length rest), body = pre @ rest\<rparr>"

text \<open>A complete mail with the given body.\<close>

definition mail_of :: "u32 \<Rightarrow> u8 list \<Rightarrow> al5_mail" where
  "mail_of uid bs = partial_mail uid bs []"

lemma unat_of_nat_small: "n < 2 ^ LENGTH('a) \<Longrightarrow> unat (of_nat n :: 'a::len word) = n"
  by (simp add: unat_of_nat)

lemma mail_struct_size_eq [simp]: "mail_struct_size = 16"
  by (simp add: mail_struct_size_def)

lemma al5_mail_create_Some:
  assumes "km_ok k" "km_nofail k"
  obtains rest where "al5_mail_create uid n k = (Some (partial_mail uid [] rest), km_step 1 1 k)"
    "length rest = unat n"
proof -
  obtain bs where bs: "kmalloc (mail_struct_size + unat n) k = (Some bs, km_step 1 1 k)"
    "length bs = mail_struct_size + unat n"
    using assms by (rule kmalloc_Some)
  show thesis
  proof
    show "al5_mail_create uid n k =
        (Some (partial_mail uid [] (drop mail_struct_size bs)), km_step 1 1 k)"
      using bs by (simp add: al5_mail_create_def partial_mail_def)
    show "length (drop mail_struct_size bs) = unat n"
      using bs by simp
  qed
qed

lemma al5_mail_create_cases:
  assumes "km_ok k"
  obtains (null) "al5_mail_create uid n k = (None, km_step 1 0 k)"
  | (mail) rest where
      "al5_mail_create uid n k = (Some (partial_mail uid [] rest), km_step 1 1 k)"
      "length rest = unat n"
proof (cases "km_oracle k (km_calls k) (mail_struct_size + unat n)")
  case None
  then show thesis
    by (intro null) (simp add: al5_mail_create_def kmalloc_def km_step_def Let_def)
next
  case (Some bs)
  with assms have "length bs = mail_struct_size + unat n" by (simp add: km_ok_def)
  with Some show thesis
    by (intro mail [of "drop mail_struct_size bs"])
       (simp_all add: al5_mail_create_def kmalloc_def km_step_def Let_def partial_mail_def)
qed

lemma al5_mail_write_partial:
  assumes "unat n \<le> length src" "unat n \<le> length rest"
    and "length pre + length rest < 2 ^ 32"
  shows "al5_mail_write (partial_mail uid pre rest) src n =
    Some (partial_mail uid (pre @ take (unat n) src) (drop (unat n) rest))"
proof -
  have "unat (of_nat (length pre) :: u32) = length pre"
    using assms by (simp add: unat_of_nat)
  moreover have "(of_nat (length pre + unat n) :: u32) = of_nat (length pre) + n"
    by simp
  ultimately show ?thesis
    using assms by (simp add: al5_mail_write_def partial_mail_def copy_into_def)
qed

lemma al5_mail_write_word_partial:
  assumes "4 \<le> length rest" "length pre + length rest < 2 ^ 32"
  shows "al5_mail_write_word (partial_mail uid pre rest) w =
    Some (partial_mail uid (pre @ le32 w) (drop 4 rest))"
  using assms by (simp add: al5_mail_write_word_def al5_mail_write_partial)

text \<open>Writing past the end of the body, or reading past the end of the source, is undefined.\<close>

lemma al5_mail_write_overrun:
  assumes "length src < unat n \<or> length rest < unat n" "length pre < 2 ^ 32"
  shows "al5_mail_write (partial_mail uid pre rest) src n = None"
proof -
  have "unat (of_nat (length pre) :: u32) = length pre"
    using assms by (simp add: unat_of_nat)
  with assms show ?thesis
    by (auto simp: al5_mail_write_def partial_mail_def copy_into_def)
qed

lemma partial_mail_complete: "partial_mail uid bs [] = mail_of uid bs"
  by (simp add: mail_of_def)

lemma mail_of_sel [mail_simps]:
  "body_offset (mail_of uid bs) = of_nat (length bs)"
  "msg_uid (mail_of uid bs) = ucast uid"
  "body_size (mail_of uid bs) = of_nat (length bs)"
  "body (mail_of uid bs) = bs"
  by (simp_all add: mail_of_def partial_mail_def)

text \<open>A mail whose recorded size does not exceed the bytes it owns; every mail the driver
  builds or receives is one.\<close>

definition mail_wf :: "al5_mail \<Rightarrow> bool" where
  "mail_wf m \<longleftrightarrow> unat (body_size m) \<le> length (body m)"

lemma mail_wf_mail_of [simp]: "mail_wf (mail_of uid bs)"
  by (simp add: mail_wf_def mail_of_sel unat_of_nat)

text \<open>A copy has the number, the size and the first \<open>body_size\<close> bytes of
  the original and is complete.\<close>

lemma al5_mail_create_copy_eq:
  assumes "km_ok k" "km_nofail k" "mail_wf m"
  shows "al5_mail_create_copy m k =
    Some (mail_of (ucast (msg_uid m)) (take (unat (body_size m)) (body m)), km_step 1 1 k)"
proof -
  let ?n = "ucast (body_size m) :: u32"
  have n: "unat ?n = unat (body_size m)" by (rule unat_ucast_le) simp
  obtain rest where "al5_mail_create (ucast (msg_uid m)) ?n k =
      (Some (partial_mail (ucast (msg_uid m)) [] rest), km_step 1 1 k)"
    "length rest = unat ?n"
    using assms(1,2) by (rule al5_mail_create_Some)
  moreover have "unat (body_size m) < 2 ^ 16"
    using unsigned_less [of "body_size m", where ?'a = nat] by simp
  ultimately show ?thesis
    using assms(3) n by (simp add: al5_mail_create_copy_def al5_mail_write_partial mail_wf_def
        partial_mail_complete)
qed

end
