(* ===== verification/Codec_Mails.thy ===== *)
theory Codec_Mails
  imports Mail
begin

text \<open>
  The messages both drivers send to the firmware, and the reading of a message's channel
  (\<open>common/al_codec_mails.c\<close>). Each constructor returns the pointer it returns in the source
  (NULL is \<^const>\<open>None\<close>) together with the allocator, inside the option of undefined behaviour.
\<close>

definition uid_size :: u32 where
  "uid_size = 4"

record mcu_init_msg =
  init_addr :: u32
  init_size :: u32
  l2_size_in_bits :: u32
  l2_color_bitdepth :: u32
  num_cores :: u32
  core_frequency :: u32

text \<open>The structure's memory: six words, no padding.\<close>

definition bytes_of_init_msg :: "mcu_init_msg \<Rightarrow> u8 list" where
  "bytes_of_init_msg m =
     le32 (init_addr m) @ le32 (init_size m) @ le32 (l2_size_in_bits m) @
     le32 (l2_color_bitdepth m) @ le32 (num_cores m) @ le32 (core_frequency m)"

definition create_init_msg ::
    "u32 \<Rightarrow> mcu_init_msg \<Rightarrow> kmem \<Rightarrow> (al5_mail option \<times> kmem) option" where
  "create_init_msg chan_uid msg k =
     (case al5_mail_create (uid_code AL_MCU_MSG_INIT) (uid_size + 24) k of
        (None, k') \<Rightarrow> Some (None, k')
      | (Some mail, k') \<Rightarrow> do {
          mail \<leftarrow> al5_mail_write_word mail chan_uid;
          mail \<leftarrow> al5_mail_write mail (bytes_of_init_msg msg) 24;
          Some (Some mail, k')
        })"

text \<open>The result of \<open>al5_mail_create\<close> is followed unchecked here.\<close>

definition al5_create_empty_mail ::
    "u32 \<Rightarrow> u32 \<Rightarrow> kmem \<Rightarrow> (al5_mail option \<times> kmem) option" where
  "al5_create_empty_mail sender_uid uid k =
     (let (mail, k') = al5_mail_create uid uid_size k
      in do {
        mail \<leftarrow> deref mail;
        mail \<leftarrow> al5_mail_write_word mail sender_uid;
        Some (Some mail, k')
      })"

definition al5_create_classic_mail ::
    "u32 \<Rightarrow> u32 \<Rightarrow> u8 list \<Rightarrow> u32 \<Rightarrow> kmem \<Rightarrow> (al5_mail option \<times> kmem) option" where
  "al5_create_classic_mail sender_uid uid msg msg_size k =
     (case al5_mail_create uid (uid_size + msg_size) k of
        (None, k') \<Rightarrow> Some (None, k')
      | (Some mail, k') \<Rightarrow> do {
          mail \<leftarrow> al5_mail_write_word mail sender_uid;
          mail \<leftarrow> al5_mail_write mail msg msg_size;
          Some (Some mail, k')
        })"

definition create_destroy_channel_msg ::
    "u32 \<Rightarrow> kmem \<Rightarrow> (al5_mail option \<times> kmem) option" where
  "create_destroy_channel_msg chan_uid k =
     al5_create_empty_mail chan_uid (uid_code AL_MCU_MSG_DESTROY_CHANNEL) k"

definition create_quiet_destroy_channel_msg ::
    "u32 \<Rightarrow> kmem \<Rightarrow> (al5_mail option \<times> kmem) option" where
  "create_quiet_destroy_channel_msg chan_uid k =
     al5_create_empty_mail chan_uid (uid_code AL_MCU_MSG_QUIET_DESTROY_CHANNEL) k"

definition al5_mail_get_chan_uid :: "al5_mail \<Rightarrow> u32 option" where
  "al5_mail_get_chan_uid mail =
     (let mail_uid = al5_mail_get_uid mail
      in if mail_uid = uid_code AL_MCU_MSG_INIT
            \<or> mail_uid = uid_code AL_MCU_MSG_SEARCH_START_CODE
            \<or> mail_uid = uid_code AL_MCU_MSG_TRACE
         then Some (- 1)
         else al5_mail_get_word mail 0)"

text \<open>The text the \<open>%s\<close> of the trace message prints: the body up to its first zero byte;
  without one the read runs past the body.\<close>

definition al5_print_mcu_trace :: "al5_mail \<Rightarrow> u8 list option" where
  "al5_print_mcu_trace mail =
     (if 0 \<in> set (al5_mail_get_body mail)
      then Some (takeWhile (\<lambda>b. b \<noteq> 0) (al5_mail_get_body mail)) else None)"

section \<open>What the constructors build\<close>

lemma length_bytes_of_init_msg [simp]: "length (bytes_of_init_msg m) = 24"
  by (simp add: bytes_of_init_msg_def)

lemma al5_create_empty_mail_eq:
  assumes "km_ok k" "km_nofail k"
  shows "al5_create_empty_mail sender uid k =
    Some (Some (mail_of uid (le32 sender)), km_step 1 1 k)"
proof -
  obtain rest where "al5_mail_create uid uid_size k =
      (Some (partial_mail uid [] rest), km_step 1 1 k)" "length rest = unat uid_size"
    using assms by (rule al5_mail_create_Some)
  then show ?thesis
    by (simp add: al5_create_empty_mail_def al5_mail_write_word_partial uid_size_def
        partial_mail_complete)
qed

text \<open>Without memory, the empty mail is built through a NULL pointer.\<close>

lemma al5_create_empty_mail_null:
  "km_oracle k (km_calls k) 20 = None \<Longrightarrow> al5_create_empty_mail sender uid k = None"
  by (simp add: al5_create_empty_mail_def al5_mail_create_def kmalloc_def uid_size_def)

lemma al5_create_classic_mail_cases:
  assumes "km_ok k" and n: "unat n \<le> length msg" "unat n + 4 < 2 ^ 32"
  shows "al5_create_classic_mail sender uid msg n k = Some (None, km_step 1 0 k) \<or>
    al5_create_classic_mail sender uid msg n k =
      Some (Some (mail_of uid (le32 sender @ take (unat n) msg)), km_step 1 1 k)"
  using assms(1)
proof (cases rule: al5_mail_create_cases [of k uid "uid_size + n"])
  case null
  then show ?thesis by (simp add: al5_create_classic_mail_def)
next
  case (mail rest)
  moreover have "unat (uid_size + n) = 4 + unat n"
    using n by (simp add: uid_size_def unat_add_small)
  ultimately show ?thesis
    using n by (simp add: al5_create_classic_mail_def al5_mail_write_word_partial
        al5_mail_write_partial partial_mail_complete)
qed

text \<open>A size that exceeds the message's own memory is not checked: the copy overruns it.\<close>

lemma al5_create_classic_mail_overrun:
  assumes "km_ok k" "km_nofail k" "length msg < unat n"
  shows "al5_create_classic_mail sender uid msg n k = None"
proof -
  obtain rest where r: "al5_mail_create uid (uid_size + n) k =
      (Some (partial_mail uid [] rest), km_step 1 1 k)" "length rest = unat (uid_size + n)"
    using assms(1,2) by (rule al5_mail_create_Some)
  have "length rest < 2 ^ 32"
    using r(2) unsigned_less [of "uid_size + n", where ?'a = nat] by simp
  show ?thesis
  proof (cases "4 \<le> length rest")
    case True
    with r \<open>length rest < 2 ^ 32\<close> assms(3) show ?thesis
      by (simp add: al5_create_classic_mail_def al5_mail_write_word_partial
          al5_mail_write_overrun)
  next
    case False
    with r show ?thesis
      by (simp add: al5_create_classic_mail_def al5_mail_write_word_def al5_mail_write_overrun)
  qed
qed

lemma create_init_msg_cases:
  assumes "km_ok k"
  shows "create_init_msg chan msg k = Some (None, km_step 1 0 k) \<or>
    create_init_msg chan msg k =
      Some (Some (mail_of (uid_code AL_MCU_MSG_INIT) (le32 chan @ bytes_of_init_msg msg)),
            km_step 1 1 k)"
  using assms
proof (cases rule: al5_mail_create_cases [of k "uid_code AL_MCU_MSG_INIT" "uid_size + 24"])
  case null
  then show ?thesis by (simp add: create_init_msg_def)
next
  case (mail rest)
  then show ?thesis
    by (simp add: create_init_msg_def al5_mail_write_word_partial uid_size_def
        al5_mail_write_partial partial_mail_complete)
qed

section \<open>Reading a message back\<close>

lemma al5_mail_get_word_0 [mail_simps]:
  "al5_mail_get_word (mail_of uid (le32 w @ bs)) 0 = Some w"
  by (simp add: al5_mail_get_word_def mail_simps)

lemma al5_mail_get_word_0_single [mail_simps]:
  "al5_mail_get_word (mail_of uid (le32 w)) 0 = Some w"
  using al5_mail_get_word_0 [of uid w "[]"] by simp

lemma uid_num_u16: "(ucast (ucast (uid_code u) :: u16) :: u32) = uid_code u"
proof -
  have "unat (uid_code u) = uid_num u"
    using uid_num_bound [of u] by (simp add: uid_code_def unat_of_nat)
  then have "unat (ucast (ucast (uid_code u) :: u16) :: u32) = unat (uid_code u)"
    using uid_num_bound [of u] by (simp add: unat_ucast_le unat_ucast_small)
  then show ?thesis by (simp add: word_unat_eq_iff)
qed

lemma al5_mail_get_uid_mail_of [mail_simps]:
  "al5_mail_get_uid (mail_of (uid_code u) bs) = uid_code u"
  by (simp add: al5_mail_get_uid_def mail_of_sel uid_num_u16)

section \<open>Properties of the constructors\<close>

text \<open>\<open>al5_create_classic_mail\<close> with a size within the message it copies builds the sender's
  word followed by exactly these bytes, or returns NULL when the allocation fails; it never
  writes outside the mail. A size beyond the message's own memory, which nothing checks, makes
  the copy read out of bounds.\<close>

theorem al5_create_classic_mail_spec:
  assumes "km_ok k" "km_nofail k" "unat n + 4 < 2 ^ 32"
  shows "al5_create_classic_mail sender uid msg n k =
    (if unat n \<le> length msg
     then Some (Some (mail_of uid (le32 sender @ take (unat n) msg)), km_step 1 1 k) else None)"
proof (cases "unat n \<le> length msg")
  case True
  obtain rest where "al5_mail_create uid (uid_size + n) k =
      (Some (partial_mail uid [] rest), km_step 1 1 k)"
    using assms(1,2) by (rule al5_mail_create_Some)
  then have "al5_create_classic_mail sender uid msg n k \<noteq> Some (None, km_step 1 0 k)"
    by (auto simp: al5_create_classic_mail_def bind_eq_Some_conv)
  with True assms al5_create_classic_mail_cases [of k n msg sender uid] show ?thesis by auto
next
  case False
  with assms show ?thesis by (simp add: al5_create_classic_mail_overrun)
qed

theorem al5_create_classic_mail_spec_witness:
  "al5_create_classic_mail 3 (uid_code AL_MCU_MSG_CREATE_CHANNEL) [1, 2, 3, 4, 5] 5 kmem0 =
     Some (Some (mail_of (uid_code AL_MCU_MSG_CREATE_CHANNEL) [3, 0, 0, 0, 1, 2, 3, 4, 5]),
           km_step 1 1 kmem0) \<and>
   al5_create_classic_mail 3 (uid_code AL_MCU_MSG_CREATE_CHANNEL) [1, 2, 3, 4, 5] 6 kmem0 = None"
  using al5_create_classic_mail_spec [of kmem0 5 3 _ "[1, 2, 3, 4, 5]"]
    al5_create_classic_mail_spec [of kmem0 6 3 _ "[1, 2, 3, 4, 5]"]
  by (simp add: le32_def)

end
