(* ===== verification/Mailbox.thy ===== *)
theory Mailbox
  imports Ring Codec_Mails
begin

text \<open>
  The mailbox ring (\<open>common/al_mailbox.c\<close>): a head word, a tail word and a ring of bytes in
  device memory, shared with the firmware. The driver writes mails into one mailbox and reads
  them from another. Sizes are \<^typ>\<open>size_t\<close>, positions 32-bit words, and \<open>local_tail\<close> has the
  16 bits of the source, so every wrap-around of the code is one of the model.
\<close>

section \<open>The code\<close>

definition header_size :: int where
  "header_size = 4"

text \<open>\<open>data\<close>, \<open>tail\<close> and \<open>head\<close> are pointers into the register window.\<close>

record mailbox =
  box_size :: size_t
  box_data :: addr
  box_tail :: addr
  box_head :: addr
  local_tail :: u16

text \<open>\<open>size_t\<close> passed for an \<open>int\<close> parameter.\<close>

definition int_of_size :: "size_t \<Rightarrow> int" where
  "int_of_size n = sint (ucast n :: u32)"

definition not_enough_space_in_mailbox :: "size_t \<Rightarrow> size_t \<Rightarrow> size_t \<Rightarrow> bool" where
  "not_enough_space_in_mailbox mailbox_size used_size data_size \<longleftrightarrow>
     data_size + 4 > mailbox_size - used_size"

definition mailbox_is_wrapping :: "size_t \<Rightarrow> u32 \<Rightarrow> size_t \<Rightarrow> bool" where
  "mailbox_is_wrapping mailbox_size tail_value data_size \<longleftrightarrow>
     ucast tail_value + data_size > mailbox_size"

text \<open>The pointers \<open>memcpy_size\<close>, \<open>tail\<close> and \<open>data\<close> are returned updated; \<open>data\<close> is a block and
  an offset into it.\<close>

definition write_in_mailbox_until_wrap ::
    "mailbox \<Rightarrow> size_t \<Rightarrow> u32 \<Rightarrow> u8 list \<Rightarrow> nat \<Rightarrow> iomem \<Rightarrow> (size_t \<times> u32 \<times> nat \<times> iomem) option"
  where
  "write_in_mailbox_until_wrap box memcpy_size tail data off mem =
     (let space_left_before_wrapping = box_size box - ucast tail
      in do {
        mem \<leftarrow> memcpy_toio_32 (box_data box + unat tail) data off
                 (int_of_size space_left_before_wrapping) mem;
        Some (memcpy_size - space_left_before_wrapping, 0,
              off + unat space_left_before_wrapping, mem)
      })"

definition read_in_mailbox_until_wrap ::
    "mailbox \<Rightarrow> size_t \<Rightarrow> u32 \<Rightarrow> u8 list \<Rightarrow> nat \<Rightarrow> iomem \<Rightarrow> (size_t \<times> u32 \<times> nat \<times> u8 list) option"
  where
  "read_in_mailbox_until_wrap box memcpy_size head data off mem =
     (let space_left_before_wrapping = box_size box - ucast head
      in do {
        data \<leftarrow> memcpy_fromio_32 data off (box_data box + unat head)
                 (int_of_size space_left_before_wrapping) mem;
        Some (memcpy_size - space_left_before_wrapping, 0,
              off + unat space_left_before_wrapping, data)
      })"

definition al5_mailbox_init :: "addr \<Rightarrow> size_t \<Rightarrow> iomem \<Rightarrow> mailbox \<times> iomem" where
  "al5_mailbox_init base data_size mem =
     (let box = \<lparr>box_size = data_size, box_data = base + 8, box_tail = base + 4,
                 box_head = base, local_tail = 0\<rparr>
      in (box, iowrite32 0 (box_tail box) (iowrite32 0 (box_head box) mem)))"

definition unserialize_msg_uid :: "u8 list \<Rightarrow> u16" where
  "unserialize_msg_uid header = ucast (header ! 2) + push_bit 8 (ucast (header ! 3))"

definition unserialize_body_size :: "u8 list \<Rightarrow> u16" where
  "unserialize_body_size header = ucast (header ! 0) + push_bit 8 (ucast (header ! 1))"

definition serialize_header :: "u16 \<Rightarrow> u16 \<Rightarrow> u8 list" where
  "serialize_header uid bsize =
     [ucast (bsize AND 0x00ff), ucast (drop_bit 8 bsize),
      ucast (uid AND 0x00ff), ucast (drop_bit 8 uid)]"

definition pull_tail :: "mailbox \<Rightarrow> iomem \<Rightarrow> mailbox" where
  "pull_tail box mem = box\<lparr>local_tail := ucast (ioread32 (box_tail box) mem)\<rparr>"

definition push_tail :: "mailbox \<Rightarrow> iomem \<Rightarrow> iomem" where
  "push_tail box mem = iowrite32 (ucast (local_tail box)) (box_tail box) mem"

text \<open>The position after \<open>size\<close> bytes, rounded up to a word, in the ring.\<close>

definition next_position :: "mailbox \<Rightarrow> u32 \<Rightarrow> size_t \<Rightarrow> size_t" where
  "next_position box pos n = ((ucast pos + n + 3) div 4 * 4) mod box_size box"

definition write_data ::
    "mailbox \<Rightarrow> u8 list \<Rightarrow> size_t \<Rightarrow> iomem \<Rightarrow> (mailbox \<times> iomem) option" where
  "write_data box in_data n mem =
     (let tail_value = ucast (local_tail box)
      in do {
        (n, tail_value, off, mem) \<leftarrow>
          (if mailbox_is_wrapping (box_size box) tail_value n
           then write_in_mailbox_until_wrap box n tail_value in_data 0 mem
           else Some (n, tail_value, 0, mem));
        mem \<leftarrow> memcpy_toio_32 (box_data box + unat tail_value) in_data off (int_of_size n) mem;
        let tail_value = (ucast (next_position box tail_value n) :: u32);
        Some (box\<lparr>local_tail := ucast tail_value\<rparr>, mem)
      })"

text \<open>A pointer that may be NULL and is only read from or written to through a length: NULL owns
  no bytes.\<close>

definition block_of :: "u8 list option \<Rightarrow> u8 list" where
  "block_of p = (case p of None \<Rightarrow> [] | Some bs \<Rightarrow> bs)"

definition kfree_block :: "u8 list option \<Rightarrow> kmem \<Rightarrow> kmem" where
  "kfree_block p k = (if p \<noteq> None then kfree k else k)"

definition read_data ::
    "mailbox \<Rightarrow> size_t \<Rightarrow> iomem \<Rightarrow> kmem \<Rightarrow> (u8 list option \<times> iomem \<times> kmem) option" where
  "read_data box n mem k =
     (let (out_data, k) = kzalloc (unat n) k;
          head_value = ioread32 (box_head box) mem
      in do {
        (n, head_value, off, bs) \<leftarrow>
          (if mailbox_is_wrapping (box_size box) head_value n
           then read_in_mailbox_until_wrap box n head_value (block_of out_data) 0 mem
           else Some (n, head_value, 0, block_of out_data));
        bs \<leftarrow> memcpy_fromio_32 bs off (box_data box + unat head_value) (int_of_size n) mem;
        let head_value = (ucast (next_position box head_value n) :: u32);
        Some (map_option (\<lambda>_. bs) out_data, iowrite32 head_value (box_head box) mem, k)
      })"

definition al5_mailbox_write ::
    "mailbox \<Rightarrow> al5_mail \<Rightarrow> iomem \<Rightarrow> (int \<times> mailbox \<times> iomem) option" where
  "al5_mailbox_write box mail mem =
     (let mail_size = ucast (al5_mail_get_size mail) :: size_t;
          total_size = mail_size + word_of_int header_size;
          head_value = ioread32 (box_head box) mem;
          tail_value = ioread32 (box_tail box) mem;
          mailbox_size = box_size box;
          used_size = (if tail_value \<ge> head_value then ucast (tail_value - head_value)
                       else mailbox_size + ucast tail_value - ucast head_value)
      in if not_enough_space_in_mailbox mailbox_size used_size total_size
         then Some (- EAGAIN, box, mem)
         else do {
           let header = serialize_header (ucast (al5_mail_get_uid mail)) (ucast mail_size);
           let box = pull_tail box mem;
           (box, mem) \<leftarrow> write_data box header (word_of_int header_size) mem;
           (box, mem) \<leftarrow> write_data box (al5_mail_get_body mail) mail_size mem;
           Some (0, box, push_tail box mem)
         })"

definition al5_mailbox_read ::
    "mailbox \<Rightarrow> iomem \<Rightarrow> kmem \<Rightarrow> (al5_mail \<times> iomem \<times> kmem) option" where
  "al5_mailbox_read box mem k = do {
     (header, mem, k) \<leftarrow> read_data box (word_of_int header_size) mem k;
     hdr \<leftarrow> deref header;
     let uid = unserialize_msg_uid hdr;
     let bsize = unserialize_body_size hdr;
     let (mail, k) = al5_mail_create (ucast uid) (ucast bsize) k;
     (bdy, mem, k) \<leftarrow> read_data box (ucast bsize) mem k;
     mail \<leftarrow> deref mail;
     mail \<leftarrow> al5_mail_write mail (block_of bdy) (ucast bsize);
     Some (mail, mem, kfree_block bdy (kfree_block header k))
   }"

end
