(* ===== verification/Mailbox_Correct.thy ===== *)
theory Mailbox_Correct
  imports Mailbox
begin

text \<open>
  The mailbox refines a bounded queue of mails. The ring's bytes between head and tail are
  parsed into the mails they hold; writing appends one, reading removes the first, and neither
  touches device memory outside its own part of the mailbox.
\<close>

section \<open>Word arithmetic of the code, without wrap-around\<close>

lemma int_of_size_small [wnat]: "unat n < 2 ^ 31 \<Longrightarrow> int_of_size n = int (unat n)"
  unfolding int_of_size_def by (rule sint_ucast_small)

lemma unat_next_position [wnat]:
  assumes "unat pos + unat n < 2 ^ 32"
  shows "unat (next_position box pos n) = roundup4 (unat pos + unat n) mod unat (box_size box)"
proof -
  have p: "unat (ucast pos :: size_t) = unat pos" by (rule unat_ucast_le) simp
  have 1: "unat (ucast pos + n :: size_t) = unat pos + unat n"
    using assms p by (subst unat_add_small) simp_all
  have 2: "unat (ucast pos + n + 3 :: size_t) = unat pos + unat n + 3"
    using assms 1 by (subst unat_add_small) simp_all
  have 3: "unat ((ucast pos + n + 3 :: size_t) div 4) = (unat pos + unat n + 3) div 4"
    by (simp add: unat_div 2)
  have "(unat pos + unat n + 3) div 4 * 4 < 2 ^ 64"
    using assms by (simp add: div_mult_self1_is_m) 
  then have "unat ((ucast pos + n + 3 :: size_t) div 4 * 4) = (unat pos + unat n + 3) div 4 * 4"
    using 3 by (simp add: unat_word_ariths)
  then show ?thesis
    by (simp add: next_position_def roundup4_def unat_mod)
qed

lemma mailbox_is_wrapping_iff [wnat]:
  assumes "unat pos + unat n < 2 ^ 32"
  shows "mailbox_is_wrapping sz pos n \<longleftrightarrow> unat sz < unat pos + unat n"
proof -
  have p: "unat (ucast pos :: size_t) = unat pos" by (rule unat_ucast_le) simp
  have "unat (ucast pos + n :: size_t) = unat pos + unat n"
    using assms p by (subst unat_add_small) simp_all
  then show ?thesis by (simp add: mailbox_is_wrapping_def word_less_nat_alt)
qed

lemma unserialize_serialize [ring_simps]:
  "unserialize_msg_uid (serialize_header uid bsize) = uid"
  "unserialize_body_size (serialize_header uid bsize) = bsize"
proof -
  have split: "ucast (ucast (w AND 0x00ff) :: u8) + push_bit 8 (ucast (ucast (drop_bit 8 w) :: u8))
    = w" for w :: u16
  proof -
    let ?lo = "ucast (ucast (w AND 0x00ff) :: u8) :: u16"
    let ?hi = "push_bit 8 (ucast (ucast (drop_bit 8 w) :: u8)) :: u16"
    have ff: "(0x00ff :: u16) = mask 8" by (simp add: mask_eq_exp_minus_1)
    have "?lo AND ?hi = 0"
      by (rule bit_word_eqI) (simp add: bit_simps)
    then have "?lo + ?hi = ?lo OR ?hi"
      by (rule disjunctive_add_eq_or)
    also have "\<dots> = w"
      unfolding ff by (rule bit_word_eqI) (auto simp: bit_simps)
    finally show ?thesis .
  qed
  show "unserialize_msg_uid (serialize_header uid bsize) = uid"
    "unserialize_body_size (serialize_header uid bsize) = bsize"
    by (simp_all add: unserialize_msg_uid_def unserialize_body_size_def serialize_header_def split)
qed

lemma length_serialize_header [simp]: "length (serialize_header uid bsize) = 4"
  by (simp add: serialize_header_def)

section \<open>One transfer\<close>

text \<open>The layout \<open>al5_mailbox_init\<close> establishes, and the sizes for which the 16-bit \<open>local_tail\<close>
  can hold every position.\<close>

definition mailbox_layout :: "mailbox \<Rightarrow> bool" where
  "mailbox_layout box \<longleftrightarrow>
     box_tail box = box_head box + 4 \<and> box_data box = box_head box + 8 \<and>
     4 dvd unat (box_size box) \<and> 0 < unat (box_size box) \<and> unat (box_size box) \<le> 2 ^ 16"

lemma mailbox_layout_local_tail [simp]:
  "mailbox_layout (box\<lparr>local_tail := x\<rparr>) = mailbox_layout box"
  by (simp add: mailbox_layout_def)

lemma rounddown4_mono_dvd: "4 dvd s \<Longrightarrow> s \<le> n \<Longrightarrow> s \<le> rounddown4 n"
  by (auto simp: rounddown4_def elim!: dvdE)

lemma wrapped_position:
  assumes "4 dvd S" "4 dvd t" "t < S" "S < t + n"
  shows "roundup4 (n - (S - t)) mod S = (t + roundup4 n) mod S"
proof -
  have "4 dvd S - t" using assms by (simp add: dvd_diff_nat)
  then have "roundup4 (n - (S - t)) = roundup4 n - (S - t)"
    using assms by (intro roundup4_diff) simp_all
  moreover have "S - t \<le> roundup4 n"
    using assms roundup4_bounds(1) [of n] by linarith
  ultimately have "t + roundup4 n = roundup4 (n - (S - t)) + S"
    using assms by linarith
  then show ?thesis by simp
qed

lemma write_data_eq:
  fixes box data n
  defines "S \<equiv> unat (box_size box)" and "t \<equiv> unat (local_tail box)"
  assumes lay: "mailbox_layout box" and t: "t < S" "4 dvd t"
    and n: "unat n \<le> S" "unat n \<le> length data"
  shows "write_data box data n mem =
    Some (box\<lparr>local_tail := of_nat ((t + roundup4 (unat n)) mod S)\<rparr>,
          ring_put (box_data box) S t (take (rounddown4 (unat n)) data) mem)"
proof -
  have S: "4 dvd S" "0 < S" "S \<le> 2 ^ 16" and szS: "unat (box_size box) = S"
    using lay by (simp_all add: mailbox_layout_def S_def)
  let ?pos = "ucast (local_tail box) :: u32"
  have pos: "unat ?pos = t" unfolding t_def by (rule unat_ucast_le) simp
  have small: "unat ?pos + unat n < 2 ^ 32" using t n S pos by simp
  let ?bs = "take (rounddown4 (unat n)) data"
  have bs: "length ?bs = rounddown4 (unat n)" using n rounddown4_le [of "unat n"] by simp
  have wrap: "mailbox_is_wrapping (box_size box) ?pos n \<longleftrightarrow> S < t + unat n"
    using mailbox_is_wrapping_iff [OF small] pos szS by simp
  have newtail: "ucast (ucast (next_position box p m) :: u32) = (of_nat (r mod S) :: u16)"
    if "unat (next_position box p m) = r mod S" for p m r
  proof -
    have "r mod S < 2 ^ 16" using S by (meson less_le_trans mod_less_divisor)
    then have "unat (ucast (ucast (next_position box p m) :: u32) :: u16) = r mod S"
      using that by (simp add: unat_ucast_small)
    then show ?thesis
      using \<open>r mod S < 2 ^ 16\<close> by (simp add: word_unat_eq_iff unat_of_nat)
  qed
  show ?thesis
  proof (cases "S < t + unat n")
    case False
    have "memcpy_toio_32 (box_data box + t) data 0 (int_of_size n) mem =
        Some (io_put (box_data box + t) ?bs mem)"
      using n S rounddown4_le [of "unat n"] 
      by (simp add: int_of_size_small memcpy_toio_32_eq rounddown4_def)
    moreover have "io_put (box_data box + t) ?bs mem = ring_put (box_data box) S t ?bs mem"
      using False bs rounddown4_le [of "unat n"] by (intro ring_put_straight) simp
    moreover have "unat (next_position box ?pos n) = (t + roundup4 (unat n)) mod S"
      using unat_next_position [OF small] pos szS t(2) by (simp add: roundup4_add)
    ultimately show ?thesis
      using False wrap pos newtail by (simp add: write_data_def)
  next
    case True
    let ?sp = "box_size box - ucast ?pos"
    have cpos: "unat (ucast ?pos :: size_t) = t"
      using pos unat_ucast_le [of ?pos, where ?'b = 64] by simp
    have sp: "unat ?sp = S - t"
      using cpos t szS by (simp add: unat_diff_le)
    have sp_n: "unat ?sp \<le> unat n" using sp True by simp
    let ?n2 = "n - ?sp"
    have n2: "unat ?n2 = unat n - (S - t)"
      using sp sp_n by (simp add: unat_diff_le)
    have dvd: "4 dvd S - t" using S t by (simp add: dvd_diff_nat)
    have le: "S - t \<le> rounddown4 (unat n)"
      using dvd True by (intro rounddown4_mono_dvd) simp_all
    let ?mem1 = "io_put (box_data box + t) (take (S - t) data) mem"
    have c1: "memcpy_toio_32 (box_data box + t) data 0 (int_of_size ?sp) mem = Some ?mem1"
      using sp n S dvd True 
      by (simp add: int_of_size_small memcpy_toio_32_eq rounddown4_def [symmetric])
    let ?bs2 = "take (rounddown4 (unat n - (S - t))) (drop (S - t) data)"
    have c2: "memcpy_toio_32 (box_data box) data (S - t) (int_of_size ?n2) ?mem1 =
        Some (io_put (box_data box) ?bs2 ?mem1)"
      using n2 n S rounddown4_le [of "unat n - (S - t)"] True
      by (simp add: int_of_size_small memcpy_toio_32_eq rounddown4_def [symmetric]
          del: of_nat_diff)
    have e1: "?bs2 = drop (S - t) ?bs"
      using dvd True by (simp add: rounddown4_diff drop_take)
    have e2: "take (S - t) data = take (S - t) ?bs"
      using le by (simp add: min_def)
    have "io_put (box_data box) ?bs2 ?mem1 = ring_put (box_data box) S t ?bs mem"
      unfolding e1 e2
      using t le bs n rounddown4_le [of "unat n"] by (intro ring_put_wrapping) simp_all
    moreover have "unat (next_position box 0 ?n2) = (t + roundup4 (unat n)) mod S"
      using unat_next_position [of 0 ?n2 box] n2 n S szS wrapped_position [OF S(1) t(2,1) True]
      by simp
    ultimately show ?thesis
      using True wrap pos sp c1 c2 newtail
      by (simp add: write_data_def write_in_mailbox_until_wrap_def)
  qed
qed

lemma ring_get_append_mod:
  "S - h \<le> n \<Longrightarrow> h < S \<Longrightarrow> n \<le> S \<Longrightarrow>
   io_get (base + h) (S - h) mem @ io_get base (n - (S - h)) mem = ring_get base S h n mem"
  by (rule ring_get_wrapping) linarith+

text \<open>A read returns the whole words of the ring's next \<open>n\<close> bytes; a partial word at the end is
  left as the zeros \<open>kzalloc\<close> put there.\<close>

lemma read_data_eq:
  fixes box n mem
  defines "S \<equiv> unat (box_size box)" and "h \<equiv> unat (ioread32 (box_head box) mem)"
  assumes lay: "mailbox_layout box" and h: "h < S" "4 dvd h"
    and n: "unat n \<le> S" and k: "km_ok k" "km_nofail k"
  shows "read_data box n mem k =
    Some (Some (ring_get (box_data box) S h (rounddown4 (unat n)) mem
                @ replicate (unat n - rounddown4 (unat n)) 0),
          iowrite32 (of_nat ((h + roundup4 (unat n)) mod S)) (box_head box) mem, km_step 1 1 k)"
proof -
  have S: "4 dvd S" "0 < S" "S \<le> 2 ^ 16" and szS: "unat (box_size box) = S"
    using lay by (simp_all add: mailbox_layout_def S_def)
  let ?pos = "ioread32 (box_head box) mem"
  have pos: "unat ?pos = h" by (simp add: h_def)
  have small: "unat ?pos + unat n < 2 ^ 32" using h n S pos by simp
  let ?z = "replicate (unat n) (0 :: u8)"
  have wrap: "mailbox_is_wrapping (box_size box) ?pos n \<longleftrightarrow> S < h + unat n"
    using mailbox_is_wrapping_iff [OF small] pos szS by simp
  have newhead: "(ucast (next_position box p m) :: u32) = of_nat (r mod S)"
    if "unat (next_position box p m) = r mod S" for p m r
  proof -
    have "r mod S < 2 ^ 16" using S by (meson less_le_trans mod_less_divisor)
    then show ?thesis
      using that by (simp add: word_unat_eq_iff unat_ucast_small unat_of_nat)
  qed
  have zl: "kzalloc (unat n) k = (Some ?z, km_step 1 1 k)"
    using k by (rule kzalloc_Some)
  have rest: "drop (rounddown4 (unat n)) ?z = replicate (unat n - rounddown4 (unat n)) 0"
    by simp
  show ?thesis
  proof (cases "S < h + unat n")
    case False
    have "memcpy_fromio_32 ?z 0 (box_data box + h) (int_of_size n) mem =
        Some (io_get (box_data box + h) (rounddown4 (unat n)) mem @ drop (rounddown4 (unat n)) ?z)"
      using n S rounddown4_le [of "unat n"]
      by (simp add: int_of_size_small memcpy_fromio_32_eq rounddown4_def)
    moreover have "io_get (box_data box + h) (rounddown4 (unat n)) mem =
        ring_get (box_data box) S h (rounddown4 (unat n)) mem"
      using False rounddown4_le [of "unat n"] by (intro ring_get_straight) simp
    moreover have "unat (next_position box ?pos n) = (h + roundup4 (unat n)) mod S"
      using unat_next_position [OF small] pos szS h(2) by (simp add: roundup4_add)
    ultimately show ?thesis
      using False wrap pos newhead zl by (simp add: read_data_def block_of_def)
  next
    case True
    let ?sp = "box_size box - ucast ?pos"
    have cpos: "unat (ucast ?pos :: size_t) = h"
      using pos unat_ucast_le [of ?pos, where ?'b = 64] by simp
    have sp: "unat ?sp = S - h"
      using cpos h szS by (simp add: unat_diff_le)
    let ?n2 = "n - ?sp"
    have n2: "unat ?n2 = unat n - (S - h)"
      using sp True by (simp add: unat_diff_le)
    have dvd: "4 dvd S - h" using S h by (simp add: dvd_diff_nat)
    have le: "S - h \<le> rounddown4 (unat n)"
      using dvd True by (intro rounddown4_mono_dvd) simp_all
    let ?g1 = "io_get (box_data box + h) (S - h) mem"
    let ?b1 = "?g1 @ drop (S - h) ?z"
    have c1: "memcpy_fromio_32 ?z 0 (box_data box + h) (int_of_size ?sp) mem = Some ?b1"
      using sp n S dvd True
      by (simp add: int_of_size_small memcpy_fromio_32_eq rounddown4_def [symmetric])
    let ?m = "rounddown4 (unat n - (S - h))"
    have m: "?m = rounddown4 (unat n) - (S - h)"
      using dvd True by (simp add: rounddown4_diff)
    have fit: "S - h + ?m \<le> length ?b1"
      using rounddown4_le [of "unat n - (S - h)"] True by simp
    have "memcpy_fromio_32 ?b1 (S - h) (box_data box) (int_of_size ?n2) mem =
        Some (take (S - h) ?b1 @ io_get (box_data box) ?m mem @ drop (S - h + ?m) ?b1)"
      using memcpy_fromio_32_eq [of "int (unat n - (S - h))" "S - h" ?b1 "box_data box" mem]
        n2 n S fit by (simp add: int_of_size_small rounddown4_def del: of_nat_diff)
    moreover have "take (S - h) ?b1 = ?g1" by simp
    moreover have "drop (S - h + ?m) ?b1 = drop (rounddown4 (unat n)) ?z"
      using m le by simp
    moreover have "?g1 @ io_get (box_data box) ?m mem =
        ring_get (box_data box) S h (rounddown4 (unat n)) mem"
      unfolding m using le h n rounddown4_le [of "unat n"] by (intro ring_get_append_mod) simp_all
    ultimately have c2: "memcpy_fromio_32 ?b1 (S - h) (box_data box) (int_of_size ?n2) mem =
        Some (ring_get (box_data box) S h (rounddown4 (unat n)) mem
          @ drop (rounddown4 (unat n)) ?z)"
      by simp
    moreover have "unat (next_position box 0 ?n2) = (h + roundup4 (unat n)) mod S"
      using unat_next_position [of 0 ?n2 box] n2 n S szS wrapped_position [OF S(1) h(2,1) True]
      by simp
    ultimately show ?thesis
      using True wrap pos sp c1 newhead zl rest
      by (simp add: read_data_def block_of_def read_in_mailbox_until_wrap_def)
  qed
qed

section \<open>The mails a mailbox holds\<close>

text \<open>A mail on the wire: its number and the bytes a reader will see.\<close>

type_synonym wire = "u16 \<times> u8 list"

definition wire_body :: "nat \<Rightarrow> u8 list \<Rightarrow> u8 list" where
  "wire_body n bs = take (rounddown4 n) bs @ replicate (n - rounddown4 n) 0"

fun parse_mails :: "u8 list \<Rightarrow> wire list option" where
  "parse_mails [] = Some []"
| "parse_mails (b0 # b1 # b2 # b3 # rest) =
     (let n = unat (unserialize_body_size [b0, b1, b2, b3])
      in if roundup4 n \<le> length rest
         then map_option (Cons (unserialize_msg_uid [b0, b1, b2, b3], wire_body n rest))
                (parse_mails (drop (roundup4 n) rest))
         else None)"
| "parse_mails _ = None"

definition wire_of :: "al5_mail \<Rightarrow> wire" where
  "wire_of m = (msg_uid m, wire_body (unat (body_size m)) (body m))"

definition mail_of_wire :: "wire \<Rightarrow> al5_mail" where
  "mail_of_wire w = mail_of (ucast (fst w)) (snd w)"

lemma length_wire_body [simp]: "rounddown4 n \<le> length bs \<Longrightarrow> length (wire_body n bs) = n"
  using rounddown4_le [of n] by (simp add: wire_body_def)

lemma wire_body_append: "rounddown4 n \<le> length xs \<Longrightarrow> wire_body n (xs @ ys) = wire_body n xs"
  by (simp add: wire_body_def)

lemma wire_body_words: "4 dvd n \<Longrightarrow> wire_body n bs = take n bs"
  by (simp add: wire_body_def)

text \<open>A mail of whole words arrives as it was sent.\<close>

lemma mail_of_wire_of:
  assumes "4 dvd length bs" "length bs < 2 ^ 16"
  shows "mail_of_wire (wire_of (mail_of (uid_code u) bs)) = mail_of (uid_code u) bs"
  using assms 
  by (simp add: mail_of_wire_def wire_of_def mail_simps unat_of_nat wire_body_words uid_num_u16)

lemma parse_mails_append:
  "parse_mails xs = Some ms \<Longrightarrow> parse_mails (xs @ ys) = map_option ((@) ms) (parse_mails ys)"
proof (induction xs arbitrary: ms rule: parse_mails.induct)
  case 1
  then show ?case by (cases "parse_mails ys") simp_all
next
  case (2 b0 b1 b2 b3 rest)
  let ?n = "unat (unserialize_body_size [b0, b1, b2, b3])"
  from "2.prems" obtain ms' where le: "roundup4 ?n \<le> length rest"
    and ms': "parse_mails (drop (roundup4 ?n) rest) = Some ms'"
    and ms: "ms = (unserialize_msg_uid [b0, b1, b2, b3], wire_body ?n rest) # ms'"
    by (auto simp: Let_def split: if_splits)
  have "parse_mails (drop (roundup4 ?n) rest @ ys) = map_option ((@) ms') (parse_mails ys)"
    using le ms' by (intro "2.IH") simp_all
  moreover have "wire_body ?n (rest @ ys) = wire_body ?n rest"
    using le rounddown4_le_roundup4 [of ?n] by (intro wire_body_append) simp
  ultimately show ?case
    using le ms by (cases "parse_mails ys") (simp_all add: Let_def)
qed simp_all

lemma parse_mails_single:
  assumes "length bs = roundup4 (unat sz)"
  shows "parse_mails (serialize_header uid sz @ bs) = Some [(uid, wire_body (unat sz) bs)]"
proof -
  obtain b0 b1 b2 b3 where h: "serialize_header uid sz = [b0, b1, b2, b3]"
    by (simp add: serialize_header_def)
  then show ?thesis
    using assms unserialize_serialize [of uid sz] by (simp add: Let_def)
qed

text \<open>Positions, contents and well-formedness of a mailbox in device memory.\<close>

definition box_hd :: "mailbox \<Rightarrow> iomem \<Rightarrow> nat" where
  "box_hd box mem = unat (ioread32 (box_head box) mem)"

definition box_tl :: "mailbox \<Rightarrow> iomem \<Rightarrow> nat" where
  "box_tl box mem = unat (ioread32 (box_tail box) mem)"

definition box_used :: "mailbox \<Rightarrow> iomem \<Rightarrow> nat" where
  "box_used box mem = ring_used (unat (box_size box)) (box_hd box mem) (box_tl box mem)"

definition box_content :: "mailbox \<Rightarrow> iomem \<Rightarrow> u8 list" where
  "box_content box mem =
     ring_get (box_data box) (unat (box_size box)) (box_hd box mem) (box_used box mem) mem"

definition mailbox_ok :: "mailbox \<Rightarrow> iomem \<Rightarrow> bool" where
  "mailbox_ok box mem \<longleftrightarrow>
     mailbox_layout box \<and>
     box_hd box mem < unat (box_size box) \<and> 4 dvd box_hd box mem \<and>
     box_tl box mem < unat (box_size box) \<and> 4 dvd box_tl box mem \<and>
     parse_mails (box_content box mem) \<noteq> None"

definition mailbox_mails :: "mailbox \<Rightarrow> iomem \<Rightarrow> wire list" where
  "mailbox_mails box mem = (case parse_mails (box_content box mem) of None \<Rightarrow> [] | Some ms \<Rightarrow> ms)"

text \<open>The addresses a mailbox owns.\<close>

definition mailbox_area :: "mailbox \<Rightarrow> addr set" where
  "mailbox_area box = {box_head box ..< box_head box + 8 + unat (box_size box)}"

lemma box_used_less: "mailbox_ok box mem \<Longrightarrow> box_used box mem < unat (box_size box)"
  by (simp add: mailbox_ok_def box_used_def ring_used_less)

lemma box_used_dvd: "mailbox_ok box mem \<Longrightarrow> 4 dvd box_used box mem"
  by (simp add: mailbox_ok_def mailbox_layout_def box_used_def dvd_ring_used)

lemma mailbox_parse: "mailbox_ok box mem \<Longrightarrow>
   parse_mails (box_content box mem) = Some (mailbox_mails box mem)"
  by (auto simp: mailbox_ok_def mailbox_mails_def)

lemma mailbox_local_tail [simp]:
  "box_hd (box\<lparr>local_tail := x\<rparr>) mem = box_hd box mem"
  "box_tl (box\<lparr>local_tail := x\<rparr>) mem = box_tl box mem"
  "box_used (box\<lparr>local_tail := x\<rparr>) mem = box_used box mem"
  "box_content (box\<lparr>local_tail := x\<rparr>) mem = box_content box mem"
  "mailbox_ok (box\<lparr>local_tail := x\<rparr>) mem = mailbox_ok box mem"
  "mailbox_mails (box\<lparr>local_tail := x\<rparr>) mem = mailbox_mails box mem"
  "mailbox_area (box\<lparr>local_tail := x\<rparr>) = mailbox_area box"
  by (simp_all add: box_hd_def box_tl_def box_used_def box_content_def mailbox_ok_def
      mailbox_mails_def mailbox_area_def)

text \<open>Device memory outside the mailbox does not matter to it.\<close>

lemma mailbox_cong:
  assumes "mailbox_layout box" "\<And>a. a \<in> mailbox_area box \<Longrightarrow> mem' a = mem a"
  shows "mailbox_ok box mem' = mailbox_ok box mem"
    "mailbox_mails box mem' = mailbox_mails box mem"
    "box_hd box mem' = box_hd box mem" "box_tl box mem' = box_tl box mem"
    "box_used box mem' = box_used box mem"
proof -
  have hd: "box_hd box mem' = box_hd box mem"
    unfolding box_hd_def using assms
    by (intro arg_cong [where f = unat] ioread32_cong) (simp add: mailbox_area_def)
  moreover have tl: "box_tl box mem' = box_tl box mem"
    unfolding box_tl_def using assms
    by (intro arg_cong [where f = unat] ioread32_cong)
       (simp add: mailbox_area_def mailbox_layout_def)
  moreover from hd tl have "box_content box mem' = box_content box mem"
    unfolding box_content_def box_used_def using assms
    by (simp, intro ring_get_cong) (simp_all add: mailbox_area_def mailbox_layout_def)
  ultimately show "mailbox_ok box mem' = mailbox_ok box mem"
    "mailbox_mails box mem' = mailbox_mails box mem"
    "box_hd box mem' = box_hd box mem" "box_tl box mem' = box_tl box mem"
    "box_used box mem' = box_used box mem"
    by (simp_all add: mailbox_ok_def mailbox_mails_def box_used_def)
qed

section \<open>Initialisation\<close>

lemma al5_mailbox_init_ok:
  assumes "4 dvd unat n" "0 < unat n" "unat n \<le> 2 ^ 16"
    and "al5_mailbox_init base n mem = (box, mem')"
  shows "mailbox_ok box mem'" "mailbox_mails box mem' = []" "box_used box mem' = 0"
    "mailbox_area box = {base ..< base + 8 + unat n}"
    "a \<notin> mailbox_area box \<Longrightarrow> mem' a = mem a"
proof -
  have box: "box = \<lparr>box_size = n, box_data = base + 8, box_tail = base + 4, box_head = base,
      local_tail = 0\<rparr>" and mem': "mem' = iowrite32 0 (base + 4) (iowrite32 0 base mem)"
    using assms(4) by (simp_all add: al5_mailbox_init_def Let_def)
  have hd: "box_hd box mem' = 0" and tl: "box_tl box mem' = 0"
    by (simp_all add: box mem' box_hd_def box_tl_def)
  then have "box_used box mem' = 0" "box_content box mem' = []"
    by (simp_all add: box_used_def ring_used_def box_content_def)
  moreover have "mailbox_layout box"
    using assms by (simp add: box mailbox_layout_def)
  ultimately show "mailbox_ok box mem'" "mailbox_mails box mem' = []" "box_used box mem' = 0"
    using hd tl assms by (simp_all add: mailbox_ok_def mailbox_mails_def box)
  show area: "mailbox_area box = {base ..< base + 8 + unat n}"
    by (simp add: mailbox_area_def box)
  show "mem' a = mem a" if "a \<notin> mailbox_area box"
    using that assms(2) by (auto simp: area mem' iowrite32_outside)
qed

section \<open>Writing\<close>

definition used_size_of :: "mailbox \<Rightarrow> iomem \<Rightarrow> size_t" where
  "used_size_of box mem =
     (let head_value = ioread32 (box_head box) mem; tail_value = ioread32 (box_tail box) mem
      in if tail_value \<ge> head_value then ucast (tail_value - head_value)
         else box_size box + ucast tail_value - ucast head_value)"

lemma unat_used_size:
  assumes "mailbox_ok box mem"
  shows "unat (used_size_of box mem) = box_used box mem"
proof -
  let ?h = "ioread32 (box_head box) mem" and ?t = "ioread32 (box_tail box) mem"
  let ?S = "unat (box_size box)"
  have le: "unat ?h < ?S" "unat ?t < ?S" "?S \<le> 2 ^ 16"
    using assms unfolding mailbox_ok_def mailbox_layout_def box_hd_def box_tl_def by blast+
  have c: "unat (ucast x :: size_t) = unat x" for x :: u32
    by (rule unat_ucast_le) simp
  show ?thesis
  proof (cases "?h \<le> ?t")
    case True
    then have "unat ?h \<le> unat ?t" by (simp add: word_le_nat_alt)
    with True c show ?thesis
      by (simp add: used_size_of_def box_used_def ring_used_def box_hd_def box_tl_def unat_diff_le)
  next
    case False
    then have "unat ?t < unat ?h" by (simp add: word_le_nat_alt)
    moreover have "unat (box_size box + ucast ?t) = ?S + unat ?t"
      using le c by (simp add: unat_add_small)
    ultimately show ?thesis
      using False c le
      by (simp add: used_size_of_def box_used_def ring_used_def box_hd_def box_tl_def unat_diff_le)
  qed
qed

text \<open>The code's test, in numbers: header and body must leave at least four bytes free.\<close>

lemma mailbox_space_iff:
  assumes "mailbox_ok box mem" "unat n < 2 ^ 16"
  shows "not_enough_space_in_mailbox (box_size box) (used_size_of box mem) 
      (n + word_of_int header_size) \<longleftrightarrow>
    unat (box_size box) < box_used box mem + unat n + 8"
proof -
  have "unat (n + 4) = unat n + 4" "unat (n + 4 + 4) = unat n + 8"
    using assms(2) by (simp_all add: unat_add_small add.assoc)
  moreover have "unat (box_size box - used_size_of box mem) =
      unat (box_size box) - box_used box mem"
    using unat_used_size [OF assms(1)] box_used_less [OF assms(1)] by (simp add: unat_diff_le)
  ultimately show ?thesis
    using box_used_less [OF assms(1)]
    by (auto simp: not_enough_space_in_mailbox_def header_size_def word_less_nat_alt)
qed

lemma unat_body_size_less: "unat (body_size m) < 2 ^ 16"
  using unsigned_less [of "body_size m", where ?'a = nat] by simp

lemma unat_mail_size: "unat (ucast (al5_mail_get_size m) :: size_t) = unat (body_size m)"
proof -
  have "unat (ucast (al5_mail_get_size m) :: size_t) = unat (al5_mail_get_size m)"
    by (rule unat_ucast_le) simp
  also have "\<dots> = unat (body_size m)"
    unfolding al5_mail_get_size_def by (rule unat_ucast_le) simp
  finally show ?thesis .
qed

lemma al5_mailbox_write_full:
  assumes "mailbox_ok box mem" "unat (box_size box) < box_used box mem + unat (body_size m) + 8"
  shows "al5_mailbox_write box m mem = Some (- EAGAIN, box, mem)"
  using assms mailbox_space_iff [OF assms(1), of "ucast (al5_mail_get_size m)"]
    unat_mail_size [of m] unat_body_size_less [of m]
  by (simp add: al5_mailbox_write_def Let_def used_size_of_def)

text \<open>The two transfers of one mail are one transfer of its frame; \<open>bs\<close> is what the last,
  partial word's cells held before.\<close>

definition mail_frame :: "al5_mail \<Rightarrow> u8 list" where
  "mail_frame m = serialize_header (msg_uid m) (body_size m)
     @ take (rounddown4 (unat (body_size m))) (body m)"

lemma ring_put_append:
  assumes "t < S" "length xs + length ys \<le> S"
  shows "ring_put base S ((t + length xs) mod S) ys (ring_put base S t xs mem) =
    ring_put base S t (xs @ ys) mem"
proof (rule ext)
  fix a
  show "ring_put base S ((t + length xs) mod S) ys (ring_put base S t xs mem) a =
      ring_put base S t (xs @ ys) mem a"
  proof (cases "base \<le> a \<and> a < base + S")
    case False
    then show ?thesis by (auto simp: ring_put_def)
  next
    case True
    define x where "x = a - base"
    with True have x: "x < S" by linarith
    show ?thesis
    proof (cases "length xs = S")
      case True
      with assms have "ys = []" by simp
      with assms True show ?thesis by (simp add: ring_put_def)
    next
      case False
      with assms have xs: "length xs < S" by simp
      have "ring_index S ((t + length xs) mod S) x =
          (if length xs \<le> ring_index S t x then ring_index S t x - length xs
           else ring_index S t x + S - length xs)"
        using assms(1) x xs by (auto simp: ring_index_def mod_add_less)
      then show ?thesis
        using True assms x xs
        by (auto simp: ring_put_def x_def [symmetric] nth_append)
    qed
  qed
qed

lemma u16_roundtrip:
  "(ucast (ucast w :: u32) :: u16) = w" "(ucast (ucast (ucast w :: u32) :: size_t) :: u16) = w"
  by (rule bit_word_eqI, simp add: bit_simps)+

lemma length_mail_frame:
  "mail_wf m \<Longrightarrow> length (mail_frame m) = 4 + rounddown4 (unat (body_size m))"
  using rounddown4_le [of "unat (body_size m)"] by (simp add: mail_frame_def mail_wf_def)

lemma pull_tail_eq:
  assumes "mailbox_ok box mem"
  shows "pull_tail box mem = box\<lparr>local_tail := of_nat (box_tl box mem)\<rparr>"
    "unat (of_nat (box_tl box mem) :: u16) = box_tl box mem"
proof -
  have "box_tl box mem < 2 ^ 16"
    using assms unfolding mailbox_ok_def mailbox_layout_def by linarith
  then show "unat (of_nat (box_tl box mem) :: u16) = box_tl box mem"
    by (simp add: unat_of_nat)
  show "pull_tail box mem = box\<lparr>local_tail := of_nat (box_tl box mem)\<rparr>"
    by (simp add: pull_tail_def box_tl_def)
qed

lemma al5_mailbox_write_fits:
  fixes box mem m
  defines "S \<equiv> unat (box_size box)" and "t \<equiv> box_tl box mem" and "n \<equiv> unat (body_size m)"
  defines "t' \<equiv> (t + 4 + roundup4 n) mod S"
  assumes ok: "mailbox_ok box mem" and wf: "mail_wf m"
    and room: "box_used box mem + n + 8 \<le> S"
  shows "al5_mailbox_write box m mem =
    Some (0, box\<lparr>local_tail := of_nat t'\<rparr>,
          iowrite32 (of_nat t') (box_tail box) (ring_put (box_data box) S t (mail_frame m) mem))"
proof -
  have lay: "mailbox_layout box" and t: "t < S" "4 dvd t" and S: "4 dvd S" "0 < S" "S \<le> 2 ^ 16"
    using ok unfolding mailbox_ok_def mailbox_layout_def S_def t_def by blast+
  let ?sz = "ucast (al5_mail_get_size m) :: size_t"
  have sz: "unat ?sz = n" unfolding n_def by (rule unat_mail_size)
  have n: "n < 2 ^ 16" "n \<le> length (body m)"
    using wf unat_body_size_less [of m] by (simp_all add: n_def mail_wf_def)
  have sp: "\<not> not_enough_space_in_mailbox (box_size box) (used_size_of box mem)
      (?sz + word_of_int header_size)"
    using mailbox_space_iff [OF ok, of ?sz] sz n room by (simp add: S_def)
  let ?hd = "serialize_header (msg_uid m) (body_size m)"
  have hd: "serialize_header (ucast (al5_mail_get_uid m)) (ucast ?sz) = ?hd"
    by (simp add: al5_mail_get_uid_def al5_mail_get_size_def u16_roundtrip)
  let ?b0 = "box\<lparr>local_tail := of_nat t\<rparr>"
  define t1 where "t1 = (t + 4) mod S"
  let ?mem1 = "ring_put (box_data box) S t ?hd mem"
  have ut: "unat (of_nat t :: u16) = t" using pull_tail_eq(2) [OF ok] by (simp add: t_def)
  have w1: "write_data ?b0 ?hd (word_of_int header_size) mem =
      Some (box\<lparr>local_tail := of_nat t1\<rparr>, ?mem1)"
    using write_data_eq [of ?b0 "word_of_int header_size" ?hd mem] lay t ut room
    by (simp add: header_size_def S_def t1_def)
  have t1: "t1 < S" "4 dvd t1" "t1 < 2 ^ 16"
    using S t by (auto simp: t1_def intro!: dvd4_mod intro: less_le_trans [OF mod_less_divisor])
  let ?bd = "take (rounddown4 n) (body m)"
  have ut1: "unat (of_nat t1 :: u16) = t1" using t1 by (simp add: unat_of_nat)
  have t2: "(t1 + roundup4 n) mod S = t'"
    by (simp add: t1_def t'_def mod_add_left_eq add.assoc)
  have w2: "write_data (box\<lparr>local_tail := of_nat t1\<rparr>) (body m) ?sz ?mem1 =
      Some (box\<lparr>local_tail := of_nat t'\<rparr>, ring_put (box_data box) S t1 ?bd ?mem1)"
    using write_data_eq [of "box\<lparr>local_tail := of_nat t1\<rparr>" ?sz "body m" ?mem1]
      lay t1 ut1 sz n room t2 by (simp add: S_def)
  have "4 + length ?bd \<le> S"
    using rounddown4_le [of n] n room by simp
  then have fr: "ring_put (box_data box) S t1 ?bd ?mem1 =
      ring_put (box_data box) S t (mail_frame m) mem"
    using ring_put_append [OF t(1), of ?hd ?bd "box_data box" mem]
    by (simp add: t1_def mail_frame_def n_def)
  have "t' < 2 ^ 16" using S unfolding t'_def by (meson less_le_trans mod_less_divisor)
  then have "ucast (of_nat t' :: u16) = (of_nat t' :: u32)"
    by (simp add: word_unat_eq_iff unat_ucast_le unat_of_nat)
  then show ?thesis
    using sp hd w1 w2 fr pull_tail_eq(1) [OF ok]
    by (simp add: al5_mailbox_write_def Let_def used_size_of_def t_def push_tail_def
        al5_mail_get_body_def)
qed

lemma al5_mailbox_write_refines:
  assumes ok: "mailbox_ok box mem" and wf: "mail_wf m"
    and room: "box_used box mem + unat (body_size m) + 8 \<le> unat (box_size box)"
  obtains box' mem' where "al5_mailbox_write box m mem = Some (0, box', mem')"
    "\<exists>x. box' = box\<lparr>local_tail := x\<rparr>"
    "mailbox_ok box' mem'" "mailbox_mails box' mem' = mailbox_mails box mem @ [wire_of m]"
    "box_hd box' mem' = box_hd box mem"
    "box_used box' mem' = box_used box mem + 4 + roundup4 (unat (body_size m))"
    "\<And>a. a \<notin> {box_tail box ..< box_head box + 8 + unat (box_size box)} \<Longrightarrow> mem' a = mem a"
proof -
  define S where "S = unat (box_size box)"
  define h where "h = box_hd box mem"
  define t where "t = box_tl box mem"
  define n where "n = unat (body_size m)"
  define u where "u = box_used box mem"
  define t' where "t' = (t + 4 + roundup4 n) mod S"
  define D where "D = box_data box"
  define mem1 where "mem1 = ring_put D S t (mail_frame m) mem"
  define mem' where "mem' = iowrite32 (of_nat t') (box_tail box) mem1"
  have lay: "mailbox_layout box" and t: "t < S" "4 dvd t" and h: "h < S" "4 dvd h"
    and S: "4 dvd S" "0 < S" "S \<le> 2 ^ 16"
    using ok unfolding mailbox_ok_def mailbox_layout_def S_def t_def h_def by blast+
  have addrs: "box_tail box = box_head box + 4" "D = box_head box + 8"
    using lay by (simp_all add: mailbox_layout_def D_def)
  have u: "u = ring_used S h t" "4 dvd u" "u < S" "(h + u) mod S = t"
    using box_used_dvd [OF ok] box_used_less [OF ok] ring_used_tail [OF h(1) t(1)]
    by (simp_all add: u_def S_def h_def t_def box_used_def)
  have fit: "u + (4 + roundup4 n) < S"
  proof -
    have "u + 4 + roundup4 n < S + 0"
      using room roundup4_bounds(2) [of n] by (simp add: u_def n_def S_def)
    then show ?thesis by simp
  qed
  have t'_S: "t' < S" "4 dvd t'"
    using S t unfolding t'_def by (auto intro!: dvd4_mod)
  have hd': "box_hd box mem' = h"
    unfolding h_def box_hd_def mem'_def
    by (intro arg_cong [where f = unat] ioread32_cong)
       (simp add: addrs iowrite32_outside mem1_def ring_put_outside)
  have tl': "box_tl box mem' = t'"
    using t'_S S by (simp add: box_tl_def mem'_def unat_of_nat)
  have used': "box_used box mem' = u + (4 + roundup4 n)"
    using ring_used_advance_tail [OF h(1) t(1), of "4 + roundup4 n"] fit u
    by (simp add: box_used_def hd' tl' S_def [symmetric] t'_def add.assoc)
  have ring': "ring_get D S x k mem' = ring_get D S x k mem1" for x k
    using S by (intro ring_get_cong) (simp_all add: mem'_def iowrite32_outside addrs)
  have fl: "length (mail_frame m) = 4 + rounddown4 n"
    using length_mail_frame [OF wf] by (simp add: n_def)
  have fl': "u + length (mail_frame m) \<le> S"
    using fit fl rounddown4_le_roundup4 [of n] by simp
  have old: "ring_get D S h u mem1 = ring_get D S h u mem"
    using ring_get_put_behind [OF h(1) fl', of D mem] u by (simp add: mem1_def)
  have "ring_get D S t (4 + roundup4 n) mem1 = mail_frame m
      @ ring_get D S ((t + (4 + rounddown4 n)) mod S) (roundup4 n - rounddown4 n) mem1"
    using ring_get_add [of D S t "4 + rounddown4 n" "roundup4 n - rounddown4 n" mem1]
      ring_get_put [of t S "mail_frame m" D mem] t fl fl' rounddown4_le_roundup4 [of n]
    by (simp add: mem1_def)
  then obtain junk where new: "ring_get D S t (4 + roundup4 n) mem1 = mail_frame m @ junk"
    "length junk = roundup4 n - rounddown4 n"
    by simp
  let ?bd = "take (rounddown4 n) (body m)"
  have bd: "length (?bd @ junk) = roundup4 (unat (body_size m))"
    using new fl rounddown4_le_roundup4 [of n] by (simp add: mail_frame_def n_def)
  have content': "box_content box mem' =
      box_content box mem @ serialize_header (msg_uid m) (body_size m) @ ?bd @ junk"
    using ring_get_add [of D S h u "4 + roundup4 n" mem1] u old new
    by (simp add: box_content_def used' hd' ring' S_def [symmetric] D_def [symmetric]
        h_def [symmetric] u_def [symmetric] mail_frame_def n_def [symmetric])
  have "wire_body n (?bd @ junk) = wire_body n (body m)"
    using bd wf rounddown4_le [of n]
    by (simp add: wire_body_def mail_wf_def n_def)
  then have parse': "parse_mails (box_content box mem') =
      Some (mailbox_mails box mem @ [wire_of m])"
    using parse_mails_append [OF mailbox_parse [OF ok]] parse_mails_single [OF bd, of "msg_uid m"]
    by (simp add: content' wire_of_def n_def)
  have ok': "mailbox_ok box mem'"
    using lay h t'_S parse' by (simp add: mailbox_ok_def hd' tl' S_def [symmetric])
  have mails': "mailbox_mails box mem' = mailbox_mails box mem @ [wire_of m]"
    using parse' by (simp add: mailbox_mails_def)
  show thesis
  proof
    show "al5_mailbox_write box m mem = Some (0, box\<lparr>local_tail := of_nat t'\<rparr>, mem')"
      using al5_mailbox_write_fits [OF ok wf] room
      by (simp add: mem'_def mem1_def t'_def t_def S_def n_def D_def)
    show "mem' a = mem a" if "a \<notin> {box_tail box ..< box_head box + 8 + unat (box_size box)}" for a
      using that by (auto simp: mem'_def mem1_def addrs iowrite32_outside ring_put_outside S_def)
  qed (use ok' mails' hd' used' in \<open>auto simp: h_def u_def n_def\<close>)
qed

section \<open>Reading\<close>

text \<open>The first mail of a well-formed content is its header and body.\<close>

lemma parse_mails_Cons:
  assumes "parse_mails bs = Some (w # ws)"
  obtains hdr n rest where "bs = hdr @ rest" "length hdr = 4"
    "n = unat (unserialize_body_size hdr)" "roundup4 n \<le> length rest"
    "w = (unserialize_msg_uid hdr, wire_body n rest)"
    "parse_mails (drop (roundup4 n) rest) = Some ws"
proof -
  from assms obtain b0 b1 b2 b3 rest where bs: "bs = [b0, b1, b2, b3] @ rest"
    by (cases bs rule: parse_mails.cases) auto
  let ?h = "[b0, b1, b2, b3]"
  let ?n = "unat (unserialize_body_size ?h)"
  from assms have "roundup4 ?n \<le> length rest" "w = (unserialize_msg_uid ?h, wire_body ?n rest)"
    "parse_mails (drop (roundup4 ?n) rest) = Some ws"
    by (auto simp: bs Let_def split: if_splits)
  with bs show thesis by (intro that [of ?h rest ?n]) simp_all
qed

lemma mail_write_whole:
  assumes "length rest = unat n" "length bs = unat n"
  shows "al5_mail_write (partial_mail uid [] rest) bs n = Some (mail_of uid bs)"
  using assms unsigned_less [of n, where ?'a = nat]
  by (simp add: al5_mail_write_partial partial_mail_complete)

lemma al5_mailbox_read_eq:
  fixes box mem
  defines "S \<equiv> unat (box_size box)" and "h \<equiv> box_hd box mem"
  assumes ok: "mailbox_ok box mem" and k: "km_ok k" "km_nofail k"
    and content: "box_content box mem = hdr @ rest" "length hdr = 4"
    and n: "n = unat (unserialize_body_size hdr)" "roundup4 n \<le> length rest"
  shows "al5_mailbox_read box mem k =
    Some (mail_of_wire (unserialize_msg_uid hdr, wire_body n rest),
          iowrite32 (of_nat ((h + (4 + roundup4 n)) mod S)) (box_head box)
            (iowrite32 (of_nat ((h + 4) mod S)) (box_head box) mem), km_step 3 1 k)"
proof -
  have lay: "mailbox_layout box" and h: "h < S" "4 dvd h" and S: "4 dvd S" "0 < S" "S \<le> 2 ^ 16"
    and addrs: "box_tail box = box_head box + 4" "box_data box = box_head box + 8"
    using ok unfolding mailbox_ok_def mailbox_layout_def S_def h_def by blast+
  define D where "D = box_data box"
  define h1 where "h1 = (h + 4) mod S"
  define mem1 where "mem1 = iowrite32 (of_nat h1) (box_head box) mem"
  have used: "box_used box mem = 4 + length rest"
    using content(2) arg_cong [OF content(1), of length] unfolding box_content_def by simp
  then have fit: "4 + length rest < S"
    using box_used_less [OF ok] by (simp add: S_def)
  have c: "ring_get D S h (4 + length rest) mem = hdr @ rest"
    using content used by (simp add: box_content_def S_def h_def D_def)
  have hdr: "ring_get D S h 4 mem = hdr"
    using ring_get_take [of 4 "4 + length rest" D S h mem] c content by simp
  have rest: "ring_get D S h1 (length rest) mem = rest"
    using ring_get_drop [of 4 "4 + length rest" D S h mem] c content by (simp add: h1_def)
  have h1: "h1 < S" "4 dvd h1" using S h by (auto simp: h1_def intro!: dvd4_mod)
  have r1: "read_data box (word_of_int header_size) mem k = Some (Some hdr, mem1, km_step 1 1 k)"
    using read_data_eq [OF lay, of mem "word_of_int header_size" k] h k fit hdr
    by (simp add: header_size_def S_def [symmetric] h_def box_hd_def D_def mem1_def h1_def)
  have hd1: "unat (ioread32 (box_head box) mem1) = h1"
    using h1 S by (simp add: mem1_def unat_of_nat)
  let ?sz = "unserialize_body_size hdr"
  have sz: "unat (ucast ?sz :: size_t) = n" "unat (ucast ?sz :: u32) = n"
    unfolding n(1) by (rule unat_ucast_le; simp)+
  have "ring_get D S h1 (rounddown4 n) mem1 = ring_get D S h1 (rounddown4 n) mem"
    using S by (intro ring_get_cong) (simp_all add: mem1_def iowrite32_outside addrs D_def)
  also have "\<dots> = take (rounddown4 n) rest"
    using ring_get_take [of "rounddown4 n" "length rest" D S h1 mem] rest
      rounddown4_le_roundup4 [of n] n(2) by simp
  finally have body: "ring_get D S h1 (rounddown4 n) mem1 @ replicate (n - rounddown4 n) 0 =
      wire_body n rest"
    by (simp add: wire_body_def)
  have k3: "km_ok (km_step 2 2 k)" "km_nofail (km_step 2 2 k)" 
    "km_ok (km_step 1 1 k)" "km_nofail (km_step 1 1 k)"
    using k by simp_all
  obtain junk where create: "al5_mail_create (ucast (unserialize_msg_uid hdr)) (ucast ?sz)
      (km_step 1 1 k) = (Some (partial_mail (ucast (unserialize_msg_uid hdr)) [] junk), km_step 2 2 k)"
    "length junk = n"
    using k3(3,4)
    by (rule al5_mail_create_Some
        [where uid = "ucast (unserialize_msg_uid hdr)" and n = "ucast ?sz"])
       (simp add: sz numeral_2_eq_2)
  have "n \<le> S" using n(2) fit roundup4_bounds(1) [of n] by simp
  then have r2: "read_data box (ucast ?sz) mem1 (km_step 2 2 k) =
      Some (Some (wire_body n rest),
        iowrite32 (of_nat ((h1 + roundup4 n) mod S)) (box_head box) mem1, km_step 3 3 k)"
    using read_data_eq [OF lay, of mem1 "ucast ?sz" "km_step 2 2 k"] h1 k3 sz body
    by (simp add: S_def [symmetric] hd1 D_def)
  have "(h1 + roundup4 n) mod S = (h + (4 + roundup4 n)) mod S"
    by (simp add: h1_def mod_add_left_eq add.assoc)
  moreover have "length (wire_body n rest) = n"
    using n(2) rounddown4_le_roundup4 [of n] by simp
  ultimately show ?thesis
    using r1 r2 create sz
    by (simp add: al5_mailbox_read_def mail_write_whole mail_of_wire_def block_of_def
        kfree_block_def kfree_step mem1_def h1_def)
qed

lemma al5_mailbox_read_refines:
  assumes ok: "mailbox_ok box mem" and k: "km_ok k" "km_nofail k"
    and mails: "mailbox_mails box mem = w # ws"
  obtains mem' where "al5_mailbox_read box mem k = Some (mail_of_wire w, mem', km_step 3 1 k)"
    "mailbox_ok box mem'" "mailbox_mails box mem' = ws" "box_tl box mem' = box_tl box mem"
    "\<And>a. a \<notin> {box_head box ..< box_tail box} \<Longrightarrow> mem' a = mem a"
proof -
  define S where "S = unat (box_size box)"
  define h where "h = box_hd box mem"
  have lay: "mailbox_layout box" and h: "h < S" "4 dvd h" and S: "4 dvd S" "0 < S" "S \<le> 2 ^ 16"
    and t: "box_tl box mem < S" "4 dvd box_tl box mem"
    and addrs: "box_tail box = box_head box + 4" "box_data box = box_head box + 8"
    using ok unfolding mailbox_ok_def mailbox_layout_def S_def h_def by blast+
  obtain hdr n rest where c: "box_content box mem = hdr @ rest" "length hdr = 4"
    and n: "n = unat (unserialize_body_size hdr)" "roundup4 n \<le> length rest"
    and w: "w = (unserialize_msg_uid hdr, wire_body n rest)"
    and ws: "parse_mails (drop (roundup4 n) rest) = Some ws"
    using mailbox_parse [OF ok] unfolding mails by (rule parse_mails_Cons)
  define m where "m = 4 + roundup4 n"
  define mem' where "mem' = iowrite32 (of_nat ((h + m) mod S)) (box_head box)
      (iowrite32 (of_nat ((h + 4) mod S)) (box_head box) mem)"
  have used: "box_used box mem = 4 + length rest"
    using c(2) arg_cong [OF c(1), of length] unfolding box_content_def by simp
  have outside: "mem' a = mem a" if "a \<notin> {box_head box ..< box_tail box}" for a
    using that by (auto simp: mem'_def addrs iowrite32_outside)
  have h': "(h + m) mod S < S" "4 dvd (h + m) mod S"
    using S h by (auto simp: m_def intro!: dvd4_mod)
  have "(h + m) mod S < 2 ^ 32"
    using h'(1) S(3) by simp
  then have hd': "box_hd box mem' = (h + m) mod S"
    by (simp add: box_hd_def mem'_def unat_of_nat)
  have tl': "box_tl box mem' = box_tl box mem"
    unfolding box_tl_def
    by (intro arg_cong [where f = unat] ioread32_cong outside) (simp add: addrs)
  have used': "box_used box mem' = box_used box mem - m"
    using ring_used_advance_head [OF h(1) t(1), of m] n(2) used
    by (simp add: box_used_def hd' tl' S_def [symmetric] h_def [symmetric] m_def)
  have "box_content box mem' = ring_get (box_data box) S ((h + m) mod S) (box_used box mem - m) mem"
    unfolding box_content_def used' hd' S_def [symmetric]
    using S by (intro ring_get_cong outside) (simp_all add: addrs)
  also have "\<dots> = drop m (box_content box mem)"
    using used n(2) by (simp add: box_content_def S_def h_def ring_get_drop m_def)
  also have "\<dots> = drop (roundup4 n) rest"
    by (simp add: c m_def)
  finally have "parse_mails (box_content box mem') = Some ws"
    by (simp add: ws)
  then have "mailbox_ok box mem'" "mailbox_mails box mem' = ws"
    using lay h' t by (simp_all add: mailbox_ok_def mailbox_mails_def hd' tl' S_def)
  moreover have "al5_mailbox_read box mem k = Some (mail_of_wire w, mem', km_step 3 1 k)"
    using al5_mailbox_read_eq [OF ok k c n] by (simp add: w mem'_def m_def S_def h_def)
  ultimately show thesis
    using tl' outside by (intro that)
qed

end
