(* ===== verification/Mail_Channel.thy ===== *)
theory Mail_Channel
  imports Mailbox_Correct
begin

text \<open>
  What the rest of the driver relies on in a mailbox: a bounded queue of mails. The locale
  states the contract, proves its consequences for runs of sends and receives once, and is
  interpreted on the mailbox of the code.
\<close>

section \<open>Runs of sends and receives\<close>

text \<open>Sends a list of mails until one is refused: the number sent, and the state.\<close>

fun send_all :: "('m \<Rightarrow> 's \<Rightarrow> (int \<times> 's) option) \<Rightarrow> 'm list \<Rightarrow> 's \<Rightarrow> (nat \<times> 's) option" where
  "send_all put [] s = Some (0, s)"
| "send_all put (m # ms) s = do {
     (err, s) \<leftarrow> put m s;
     if err \<noteq> 0 then Some (0, s)
     else do { (n, s) \<leftarrow> send_all put ms s; Some (Suc n, s) }
   }"

fun recv_n :: "('s \<Rightarrow> ('m \<times> 's) option) \<Rightarrow> nat \<Rightarrow> 's \<Rightarrow> ('m list \<times> 's) option" where
  "recv_n get 0 s = Some ([], s)"
| "recv_n get (Suc n) s = do {
     (m, s) \<leftarrow> get s;
     (ms, s) \<leftarrow> recv_n get n s;
     Some (m # ms, s)
   }"

section \<open>The contract\<close>

locale mail_channel =
  fixes ok :: "'s \<Rightarrow> bool"
    and mails :: "'s \<Rightarrow> wire list"
    and room :: "'s \<Rightarrow> nat"
    and put :: "al5_mail \<Rightarrow> 's \<Rightarrow> (int \<times> 's) option"
    and get :: "'s \<Rightarrow> (al5_mail \<times> 's) option"
  assumes put_fits: "ok s \<Longrightarrow> mail_wf m \<Longrightarrow> unat (body_size m) + 8 \<le> room s \<Longrightarrow>
      \<exists>s'. put m s = Some (0, s') \<and> ok s' \<and> mails s' = mails s @ [wire_of m] \<and>
        room s' + 4 + roundup4 (unat (body_size m)) = room s"
    and put_full: "ok s \<Longrightarrow> room s < unat (body_size m) + 8 \<Longrightarrow> put m s = Some (- EAGAIN, s)"
    and get_first: "ok s \<Longrightarrow> mails s = w # ws \<Longrightarrow>
      \<exists>s'. get s = Some (mail_of_wire w, s') \<and> ok s' \<and> mails s' = ws"
begin

text \<open>A send never has undefined behaviour: it is accepted, or refused without an effect.\<close>

lemma put_cases:
  assumes "ok s" "mail_wf m"
  obtains (sent) s' where "put m s = Some (0, s')" "ok s'" "mails s' = mails s @ [wire_of m]"
  | (refused) "put m s = Some (- EAGAIN, s)"
  using put_fits [OF assms] put_full [OF assms(1), of m]
  by (cases "unat (body_size m) + 8 \<le> room s") (blast, fastforce)

lemma send_all_mails:
  assumes "ok s" "\<forall>m \<in> set ms. mail_wf m"
  shows "\<exists>n s'. send_all put ms s = Some (n, s') \<and> ok s' \<and> n \<le> length ms \<and>
    mails s' = mails s @ map wire_of (take n ms) \<and>
    (n < length ms \<longrightarrow> put (ms ! n) s' = Some (- EAGAIN, s'))"
  using assms
proof (induction ms arbitrary: s)
  case Nil
  then show ?case by simp
next
  case (Cons m ms)
  from Cons.prems have "mail_wf m" by simp
  with Cons.prems(1) show ?case
  proof (cases rule: put_cases)
    case (sent s')
    with Cons.IH [of s'] Cons.prems obtain n s'' where
      "send_all put ms s' = Some (n, s'')" "ok s''" "n \<le> length ms"
      "mails s'' = mails s' @ map wire_of (take n ms)"
      "n < length ms \<longrightarrow> put (ms ! n) s'' = Some (- EAGAIN, s'')" by auto
    with sent show ?thesis by (intro exI [of _ "Suc n"] exI [of _ s'']) simp
  next
    case refused
    with Cons.prems show ?thesis by (intro exI [of _ 0] exI [of _ s]) simp
  qed
qed

lemma recv_n_mails:
  "ok s \<Longrightarrow> n \<le> length (mails s) \<Longrightarrow>
   \<exists>s'. recv_n get n s = Some (map mail_of_wire (take n (mails s)), s') \<and> ok s' \<and>
     mails s' = drop n (mails s)"
proof (induction n arbitrary: s)
  case 0
  then show ?case by simp
next
  case (Suc n)
  then obtain w ws where "mails s = w # ws" by (cases "mails s") auto
  with Suc.prems get_first obtain s' where
    "get s = Some (mail_of_wire w, s')" "ok s'" "mails s' = ws" by blast
  with Suc.IH [of s'] Suc.prems \<open>mails s = w # ws\<close> show ?case by fastforce
qed

text \<open>First in, first out: what was accepted is received, behind what was there before.\<close>

lemma fifo:
  assumes "ok s" "\<forall>m \<in> set ms. mail_wf m"
  shows "\<exists>n s' s''. send_all put ms s = Some (n, s') \<and> n \<le> length ms \<and>
    (n < length ms \<longrightarrow> put (ms ! n) s' = Some (- EAGAIN, s')) \<and>
    recv_n get (length (mails s) + n) s' =
      Some (map mail_of_wire (mails s @ map wire_of (take n ms)), s'') \<and> ok s'' \<and> mails s'' = []"
proof -
  from send_all_mails [OF assms] obtain n s' where s': "send_all put ms s = Some (n, s')"
    "ok s'" "n \<le> length ms" "n < length ms \<longrightarrow> put (ms ! n) s' = Some (- EAGAIN, s')"
    and m: "mails s' = mails s @ map wire_of (take n ms)" by auto
  then have len: "length (mails s') = length (mails s) + n" by simp
  with recv_n_mails [OF s'(2), of "length (mails s')"] m s' show ?thesis by fastforce
qed

end

section \<open>The mailbox of the code is such a channel\<close>

type_synonym mbox_state = "mailbox \<times> iomem \<times> kmem"

fun mbox_ok :: "mbox_state \<Rightarrow> bool" where
  "mbox_ok (box, mem, k) \<longleftrightarrow> mailbox_ok box mem \<and> km_ok k \<and> km_nofail k"

fun mbox_mails :: "mbox_state \<Rightarrow> wire list" where
  "mbox_mails (box, mem, k) = mailbox_mails box mem"

fun mbox_room :: "mbox_state \<Rightarrow> nat" where
  "mbox_room (box, mem, k) = unat (box_size box) - box_used box mem"

fun mbox_put :: "al5_mail \<Rightarrow> mbox_state \<Rightarrow> (int \<times> mbox_state) option" where
  "mbox_put m (box, mem, k) = do {
     (err, box, mem) \<leftarrow> al5_mailbox_write box m mem;
     Some (err, box, mem, k)
   }"

fun mbox_get :: "mbox_state \<Rightarrow> (al5_mail \<times> mbox_state) option" where
  "mbox_get (box, mem, k) = do {
     (m, mem, k) \<leftarrow> al5_mailbox_read box mem k;
     Some (m, box, mem, k)
   }"

interpretation mbox: mail_channel mbox_ok mbox_mails mbox_room mbox_put mbox_get
proof unfold_locales
  fix s :: mbox_state and m :: al5_mail
  assume "mbox_ok s" "mail_wf m" "unat (body_size m) + 8 \<le> mbox_room s"
  moreover obtain box mem k where s: "s = (box, mem, k)" by (cases s)
  ultimately have ok: "mailbox_ok box mem" "mail_wf m" and k: "km_ok k" "km_nofail k"
    and room: "box_used box mem + unat (body_size m) + 8 \<le> unat (box_size box)"
    by simp_all
  from ok room show "\<exists>s'. mbox_put m s = Some (0, s') \<and> mbox_ok s' \<and>
      mbox_mails s' = mbox_mails s @ [wire_of m] \<and>
      mbox_room s' + 4 + roundup4 (unat (body_size m)) = mbox_room s"
  proof (rule al5_mailbox_write_refines)
    fix box' mem'
    assume w: "al5_mailbox_write box m mem = Some (0, box', mem')"
      "\<exists>x. box' = box\<lparr>local_tail := x\<rparr>" "mailbox_ok box' mem'"
      "mailbox_mails box' mem' = mailbox_mails box mem @ [wire_of m]"
      "box_used box' mem' = box_used box mem + 4 + roundup4 (unat (body_size m))"
    with box_used_less [OF w(3)] k show ?thesis
      by (auto simp: s intro!: exI [of _ "(box', mem', k)"])
  qed
next
  fix s :: mbox_state and m :: al5_mail
  assume "mbox_ok s" "mbox_room s < unat (body_size m) + 8"
  moreover obtain box mem k where "s = (box, mem, k)" by (cases s)
  ultimately show "mbox_put m s = Some (- EAGAIN, s)"
    by (simp add: al5_mailbox_write_full)
next
  fix s :: mbox_state and w :: wire and ws :: "wire list"
  assume "mbox_ok s" "mbox_mails s = w # ws"
  moreover obtain box mem k where s: "s = (box, mem, k)" by (cases s)
  ultimately have ok: "mailbox_ok box mem" and k: "km_ok k" "km_nofail k"
    and m: "mailbox_mails box mem = w # ws" by simp_all
  from ok k m show "\<exists>s'. mbox_get s = Some (mail_of_wire w, s') \<and> mbox_ok s' \<and> mbox_mails s' = ws"
    by (rule al5_mailbox_read_refines)
       (auto simp: s k intro!: exI [of _ "(box, _, km_step 3 1 k)"])
qed

section \<open>Properties of the mailbox\<close>

text \<open>A concrete mailbox of 64 bytes, just initialised, for the witnesses.\<close>

definition box64 :: mailbox where
  "box64 = fst (al5_mailbox_init 0 64 (\<lambda>_. 0))"

definition box64_mem :: iomem where
  "box64_mem = snd (al5_mailbox_init 0 64 (\<lambda>_. 0))"

lemma box64_init: "al5_mailbox_init 0 64 (\<lambda>_. 0) = (box64, box64_mem)"
  by (simp add: box64_def box64_mem_def)

lemma box64_ok: "mailbox_ok box64 box64_mem" "mailbox_mails box64 box64_mem = []"
    "box_used box64 box64_mem = 0" "box_size box64 = 64"
proof -
  have "4 dvd unat (64 :: size_t)" "0 < unat (64 :: size_t)" "unat (64 :: size_t) \<le> 2 ^ 16"
    by simp_all
  from al5_mailbox_init_ok [OF this box64_init]
  show "mailbox_ok box64 box64_mem" "mailbox_mails box64 box64_mem = []"
    "box_used box64 box64_mem = 0" by simp_all
  show "box_size box64 = 64" by (simp add: box64_def al5_mailbox_init_def)
qed

text \<open>C1: the mailbox is a first-in first-out channel. Writing any list of mails into it with
  \<open>al5_mailbox_write\<close> accepts a prefix of them, which is only shorter than the list when the
  next mail is refused with \<open>-EAGAIN\<close>; reading with \<open>al5_mailbox_read\<close> then returns, without
  undefined behaviour and across any number of wrap-arounds, the mails that were there before
  and the accepted ones, in order, and leaves the mailbox empty.\<close>

theorem mailbox_fifo:
  assumes "mailbox_ok box mem" "km_ok k" "km_nofail k" "\<forall>m \<in> set ms. mail_wf m"
  shows "\<exists>n s' s''. send_all mbox_put ms (box, mem, k) = Some (n, s') \<and> n \<le> length ms \<and>
    (n < length ms \<longrightarrow> mbox_put (ms ! n) s' = Some (- EAGAIN, s')) \<and>
    recv_n mbox_get (length (mailbox_mails box mem) + n) s' =
      Some (map mail_of_wire (mailbox_mails box mem @ map wire_of (take n ms)), s'') \<and>
    mbox_mails s'' = []"
  using mbox.fifo [of "(box, mem, k)" ms] assms by auto

theorem mailbox_fifo_witness:
  "\<exists>n s' s''. send_all mbox_put [mail_of 7 (le32 1), mail_of 8 []] (box64, box64_mem, kmem0) =
      Some (n, s') \<and> n \<le> length [mail_of 7 (le32 1), mail_of 8 []] \<and>
    (n < length [mail_of 7 (le32 1), mail_of 8 []] \<longrightarrow>
      mbox_put ([mail_of 7 (le32 1), mail_of 8 []] ! n) s' = Some (- EAGAIN, s')) \<and>
    recv_n mbox_get (length (mailbox_mails box64 box64_mem) + n) s' =
      Some (map mail_of_wire (mailbox_mails box64 box64_mem @
        map wire_of (take n [mail_of 7 (le32 1), mail_of 8 []])), s'') \<and>
    mbox_mails s'' = []"
  by (rule mailbox_fifo) (simp_all add: box64_ok)

text \<open>C18: the space test of \<open>al5_mailbox_write\<close> is exact and the write atomic. A mail of \<open>n\<close>
  body bytes is accepted iff \<open>n + 8\<close> bytes are free (header, body and the word that keeps a
  full ring apart from an empty one); accepted, it is appended to the mails in the ring and
  nothing outside the tail word and the data area changes; refused, neither the mailbox nor
  device memory changes.\<close>

theorem al5_mailbox_write_exact:
  assumes "mailbox_ok box mem" "mail_wf m"
  shows "if box_used box mem + unat (body_size m) + 8 \<le> unat (box_size box)
    then \<exists>box' mem'. al5_mailbox_write box m mem = Some (0, box', mem') \<and> mailbox_ok box' mem' \<and>
      mailbox_mails box' mem' = mailbox_mails box mem @ [wire_of m] \<and>
      box_used box' mem' = box_used box mem + 4 + roundup4 (unat (body_size m)) \<and>
      (\<forall>a. a \<notin> {box_tail box ..< box_head box + 8 + unat (box_size box)} \<longrightarrow> mem' a = mem a)
    else al5_mailbox_write box m mem = Some (- EAGAIN, box, mem)"
proof (cases "box_used box mem + unat (body_size m) + 8 \<le> unat (box_size box)")
  case True
  note room = this
  from assms True show ?thesis
  proof (rule al5_mailbox_write_refines)
    fix box' mem'
    assume "al5_mailbox_write box m mem = Some (0, box', mem')" "mailbox_ok box' mem'"
      "mailbox_mails box' mem' = mailbox_mails box mem @ [wire_of m]"
      "box_used box' mem' = box_used box mem + 4 + roundup4 (unat (body_size m))"
      "\<And>a. a \<notin> {box_tail box ..< box_head box + 8 + unat (box_size box)} \<Longrightarrow> mem' a = mem a"
    then show ?thesis unfolding if_P [OF room] by blast
  qed
next
  case False
  then show ?thesis using assms(1) by (simp add: al5_mailbox_write_full)
qed

theorem al5_mailbox_write_exact_witness:
  "\<exists>box' mem'. al5_mailbox_write box64 (mail_of 7 (le32 1)) box64_mem = Some (0, box', mem') \<and>
     mailbox_mails box' mem' = [wire_of (mail_of 7 (le32 1))]"
  using al5_mailbox_write_exact [of box64 box64_mem "mail_of 7 (le32 1)"] box64_ok
  by (auto simp: mail_of_sel)



end
