(* ===== verification/Dma.thy ===== *)
theory Dma
  imports Prelude
begin

text \<open>
  Coherent DMA buffers and their export as dma-bufs (\<open>common/al_alloc.c\<close>,
  \<open>common/al_dmabuf.c\<close>, \<open>common/al_alloc_ioctl.c\<close>). The kernel's DMA, scatter-list and dma-buf
  functions are outside the repository: the model records which of them the code calls, with
  which arguments and in which order, and takes their answers as a parameter. The callbacks the
  driver gives to the dma-buf framework (attach, detach, map, release, ...) are definitions of
  their own, called by the framework.
\<close>

section \<open>The kernel's side\<close>

datatype dma_dir = DMA_BIDIRECTIONAL | DMA_TO_DEVICE | DMA_FROM_DEVICE | DMA_NONE

text \<open>\<open>struct al5_dma_buffer\<close>; a pointer is an integer, zero for NULL, negative for an
  \<open>ERR_PTR\<close>.\<close>

record al5_dma_buffer =
  dma_size :: u32
  dma_handle :: u64
  cpu_handle :: int

text \<open>An entry of a scatter list: page, length, offset.\<close>

type_synonym sg_entry = "int \<times> u32 \<times> u32"

text \<open>\<open>struct al5_dmabuf_priv\<close>: the buffer and its scatter table, NULL or a list of entries.\<close>

record al5_dmabuf_priv =
  priv_buffer :: al5_dma_buffer
  sgt_base :: "sg_entry list option"

datatype dma_call =
    Dma_alloc_coherent u32
  | Dma_free_coherent u32 int u64
  | Dma_get_sgtable al5_dma_buffer
  | Sg_alloc_table nat
  | Sg_free_table
  | Dma_map_sg nat dma_dir
  | Dma_unmap_sg nat dma_dir
  | Dma_mmap_coherent int u64 u64
  | Get_device
  | Put_device
  | Dma_buf_export int al5_dmabuf_priv
  | Dma_buf_fd int
  | Dma_buf_get int
  | Dma_buf_put int
  | Dma_buf_attach int
  | Dma_buf_detach int int
  | Dma_buf_map_attachment int
  | Dma_buf_unmap_attachment int int

text \<open>The answer of the \<open>n\<close>-th call: \<open>d_answer\<close> is its return value (an errno if negative, a
  pointer, descriptor or count otherwise), \<open>d_value\<close> the word it stores through a pointer (the
  bus address of \<open>dma_alloc_coherent\<close> and of a mapped scatter list, the size of a dma-buf),
  \<open>d_table\<close> the scatter list it fills. \<open>d_trace\<close> holds the calls made so far with their return
  values.\<close>

record dsys =
  d_answer :: "nat \<Rightarrow> int"
  d_value :: "nat \<Rightarrow> u64"
  d_table :: "nat \<Rightarrow> sg_entry list"
  d_trace :: "(dma_call \<times> int) list"

definition dcall :: "dma_call \<Rightarrow> dsys \<Rightarrow> int \<times> dsys" where
  "dcall c d = (let r = d_answer d (length (d_trace d)) in (r, d\<lparr>d_trace := d_trace d @ [(c, r)]\<rparr>))"

text \<open>The word and the list stored by the call made last.\<close>

definition last_value :: "dsys \<Rightarrow> u64" where
  "last_value d = d_value d (length (d_trace d) - 1)"

definition last_table :: "dsys \<Rightarrow> sg_entry list" where
  "last_table d = d_table d (length (d_trace d) - 1)"

text \<open>What a reader sees of a longer trace.\<close>

definition d_events :: "dsys \<Rightarrow> dsys \<Rightarrow> (dma_call \<times> int) list" where
  "d_events d d' = drop (length (d_trace d)) (d_trace d')"

section \<open>Buffers\<close>

definition sizeof_dma_buffer :: nat where
  "sizeof_dma_buffer = 24"

definition al5_alloc_dma :: "size_t \<Rightarrow> kmem \<Rightarrow> dsys \<Rightarrow> al5_dma_buffer option \<times> kmem \<times> dsys" where
  "al5_alloc_dma sz k d =
     (case kmalloc sizeof_dma_buffer k of
        (None, k) \<Rightarrow> (None, k, d)
      | (Some _, k) \<Rightarrow>
          (let bsize = ucast sz;
               (cpu, d) = dcall (Dma_alloc_coherent bsize) d
           in if cpu = 0 then (None, kfree k, d)
              else (Some \<lparr>dma_size = bsize, dma_handle = last_value d, cpu_handle = cpu\<rparr>, k, d)))"

definition dma_free_coherent :: "al5_dma_buffer \<Rightarrow> dsys \<Rightarrow> dsys" where
  "dma_free_coherent b d = snd (dcall (Dma_free_coherent (dma_size b) (cpu_handle b) (dma_handle b)) d)"

definition al5_free_dma :: "al5_dma_buffer option \<Rightarrow> kmem \<Rightarrow> dsys \<Rightarrow> kmem \<times> dsys" where
  "al5_free_dma buf k d =
     (case buf of None \<Rightarrow> (k, d) | Some b \<Rightarrow> (kfree k, dma_free_coherent b d))"

section \<open>The dma-buf callbacks\<close>

record al5_dmabuf_attachment =
  att_sgt :: "sg_entry list"
  att_dir :: dma_dir

definition sizeof_attachment :: nat where
  "sizeof_attachment = 24"

text \<open>The loop that copies the page, length and offset of \<open>orig_nents\<close> entries; \<open>sg_next\<close> past
  the last entry is NULL and following it undefined.\<close>

fun sg_copy :: "nat \<Rightarrow> sg_entry list \<Rightarrow> sg_entry list \<Rightarrow> sg_entry list option" where
  "sg_copy 0 rd wr = Some wr"
| "sg_copy (Suc n) (r # rd) (w # wr) = map_option (Cons r) (sg_copy n rd wr)"
| "sg_copy (Suc n) _ _ = None"

text \<open>\<open>sg_alloc_table\<close> gives a table of \<open>orig_nents\<close> blank entries.\<close>

definition al5_dmabuf_attach ::
    "al5_dmabuf_priv \<Rightarrow> kmem \<Rightarrow> dsys \<Rightarrow> (int \<times> al5_dmabuf_attachment option \<times> kmem \<times> dsys) option"
  where
  "al5_dmabuf_attach dinfo k d =
     (case kzalloc sizeof_attachment k of
        (None, k) \<Rightarrow> Some (- ENOMEM, None, k, d)
      | (Some _, k) \<Rightarrow> do {
          base \<leftarrow> deref (sgt_base dinfo);
          let (ret, d) = dcall (Sg_alloc_table (length base)) d;
          if ret \<noteq> 0 then Some (- ENOMEM, None, kfree k, d)
          else do {
            sgt \<leftarrow> sg_copy (length base) base (replicate (length base) (0, 0, 0));
            Some (0, Some \<lparr>att_sgt = sgt, att_dir = DMA_NONE\<rparr>, k, d)
          }
        })"

definition al5_dmabuf_detach ::
    "al5_dmabuf_attachment option \<Rightarrow> kmem \<Rightarrow> dsys \<Rightarrow> al5_dmabuf_attachment option \<times> kmem \<times> dsys"
  where
  "al5_dmabuf_detach attach k d =
     (case attach of
        None \<Rightarrow> (None, k, d)
      | Some att \<Rightarrow>
          (let (_, d) = (if att_dir att \<noteq> DMA_NONE
                         then dcall (Dma_unmap_sg (length (att_sgt att)) (att_dir att)) d
                         else (0, d));
               (_, d) = dcall Sg_free_table d
           in (None, kfree k, d)))"

text \<open>The result is the scatter table, or an errno. The mutex of the dma-buf is taken at the
  start and released on every path, so the callback is one step.\<close>

definition al5_dmabuf_map ::
    "al5_dmabuf_attachment option \<Rightarrow> dma_dir \<Rightarrow> dsys
      \<Rightarrow> ((int + sg_entry list) \<times> al5_dmabuf_attachment option \<times> dsys) option" where
  "al5_dmabuf_map attach dir d = do {
     att \<leftarrow> deref attach;
     let n = length (att_sgt att);
     if att_dir att = dir then Some (Inr (att_sgt att), attach, d)
     else do {
       let (att, d) = (if att_dir att \<noteq> DMA_NONE
                       then (att\<lparr>att_dir := DMA_NONE\<rparr>, snd (dcall (Dma_unmap_sg n (att_dir att)) d))
                       else (att, d));
       let (nents, d) = dcall (Dma_map_sg n dir) d;
       if nents = 0 then Some (Inl (- EIO), Some att, d)
       else Some (Inr (att_sgt att), Some (att\<lparr>att_dir := dir\<rparr>), d)
     }
   }"

definition al5_dmabuf_unmap :: "dsys \<Rightarrow> dsys" where
  "al5_dmabuf_unmap d = d"

text \<open>The part of a memory area the code uses; \<open>vm_flags\<close> gains the two flags.\<close>

record vm_area =
  vm_start :: u64
  vm_end :: u64
  vm_pgoff :: u64
  vm_flags :: u64

definition VM_DONTEXPAND :: u64 where "VM_DONTEXPAND = 0x00040000"
definition VM_DONTDUMP :: u64 where "VM_DONTDUMP = 0x04000000"

text \<open>\<open>dinfo\<close> is compared with NULL only after it has been followed.\<close>

definition al5_dmabuf_mmap ::
    "al5_dmabuf_priv option \<Rightarrow> vm_area \<Rightarrow> dsys \<Rightarrow> (int \<times> vm_area \<times> dsys) option" where
  "al5_dmabuf_mmap dinfo vma d = do {
     let vsize = vm_end vma - vm_start vma;
     di \<leftarrow> deref dinfo;
     let buffer = priv_buffer di;
     let vma = vma\<lparr>vm_pgoff := 0\<rparr>;
     let (ret, d) = dcall (Dma_mmap_coherent (cpu_handle buffer) (dma_handle buffer) vsize) d;
     if ret < 0 then Some (ret, vma, d)
     else Some (0, vma\<lparr>vm_flags := vm_flags vma OR (VM_DONTEXPAND OR VM_DONTDUMP)\<rparr>, d)
   }"

definition al5_dmabuf_release :: "al5_dmabuf_priv \<Rightarrow> kmem \<Rightarrow> dsys \<Rightarrow> kmem \<times> dsys" where
  "al5_dmabuf_release dinfo k d =
     (let (k, d) = (if sgt_base dinfo \<noteq> None then (kfree k, snd (dcall Sg_free_table d)) else (k, d));
          d = dma_free_coherent (priv_buffer dinfo) d;
          (_, d) = dcall Put_device d
      in (kfree (kfree k), d))"

definition page_size :: nat where
  "page_size = 4096"

definition al5_dmabuf_kmap :: "al5_dmabuf_priv \<Rightarrow> nat \<Rightarrow> int" where
  "al5_dmabuf_kmap dinfo page_num = cpu_handle (priv_buffer dinfo) + int (page_num * page_size)"

definition al5_dmabuf_vmap :: "al5_dmabuf_priv \<Rightarrow> int" where
  "al5_dmabuf_vmap dinfo = cpu_handle (priv_buffer dinfo)"

section \<open>The table of callbacks\<close>

record dma_buf_ops =
  op_attach :: "al5_dmabuf_priv \<Rightarrow> kmem \<Rightarrow> dsys \<Rightarrow> (int \<times> al5_dmabuf_attachment option \<times> kmem \<times> dsys) option"
  op_detach :: "al5_dmabuf_attachment option \<Rightarrow> kmem \<Rightarrow> dsys \<Rightarrow> al5_dmabuf_attachment option \<times> kmem \<times> dsys"
  op_map_dma_buf :: "al5_dmabuf_attachment option \<Rightarrow> dma_dir \<Rightarrow> dsys
    \<Rightarrow> ((int + sg_entry list) \<times> al5_dmabuf_attachment option \<times> dsys) option"
  op_unmap_dma_buf :: "dsys \<Rightarrow> dsys"
  op_map_atomic :: "al5_dmabuf_priv \<Rightarrow> nat \<Rightarrow> int"
  op_map :: "al5_dmabuf_priv \<Rightarrow> nat \<Rightarrow> int"
  op_vmap :: "al5_dmabuf_priv \<Rightarrow> int"
  op_mmap :: "al5_dmabuf_priv option \<Rightarrow> vm_area \<Rightarrow> dsys \<Rightarrow> (int \<times> vm_area \<times> dsys) option"
  op_release :: "al5_dmabuf_priv \<Rightarrow> kmem \<Rightarrow> dsys \<Rightarrow> kmem \<times> dsys"

text \<open>Older kernels have other names for the fields of the two page mappings.\<close>

definition al5_dmabuf_ops :: dma_buf_ops where
  "al5_dmabuf_ops =
     \<lparr>op_attach = al5_dmabuf_attach, op_detach = al5_dmabuf_detach,
      op_map_dma_buf = al5_dmabuf_map, op_unmap_dma_buf = al5_dmabuf_unmap,
      op_map_atomic = al5_dmabuf_kmap, op_map = al5_dmabuf_kmap, op_vmap = al5_dmabuf_vmap,
      op_mmap = al5_dmabuf_mmap, op_release = al5_dmabuf_release\<rparr>"

text \<open>What is handed to the framework; a module stands for its name, which the Makefile of
  \<open>common/\<close> gives.\<close>

record dma_buf_export_info =
  exp_owner :: string
  exp_name :: string
  exp_ops :: dma_buf_ops
  exp_flags :: int
  exp_resv :: int
  exp_size :: int
  exp_priv :: al5_dmabuf_priv

definition O_RDWR :: int where "O_RDWR = 2"

definition define_export_info :: "int \<Rightarrow> al5_dmabuf_priv \<Rightarrow> dma_buf_export_info" where
  "define_export_info sz priv =
     \<lparr>exp_owner = ''allegro'', exp_name = ''allegro'', exp_ops = al5_dmabuf_ops, exp_flags = O_RDWR,
      exp_resv = 0, exp_size = sz, exp_priv = priv\<rparr>"

lemma define_export_info_sel [simp]:
  "exp_size (define_export_info sz priv) = sz" "exp_priv (define_export_info sz priv) = priv"
  "exp_ops (define_export_info sz priv) = al5_dmabuf_ops"
  by (simp_all add: define_export_info_def)

section \<open>Exporting\<close>

definition sizeof_dmabuf_priv :: nat where
  "sizeof_dmabuf_priv = 32"

definition sizeof_sg_table :: nat where
  "sizeof_sg_table = 16"

definition al5_get_base_sgt ::
    "al5_dma_buffer \<Rightarrow> kmem \<Rightarrow> dsys \<Rightarrow> sg_entry list option \<times> kmem \<times> dsys" where
  "al5_get_base_sgt buf k d =
     (case kzalloc sizeof_sg_table k of
        (None, k) \<Rightarrow> (None, k, d)
      | (Some _, k) \<Rightarrow>
          (let (ret, d) = dcall (Dma_get_sgtable buf) d
           in if ret < 0 then (None, kfree k, d) else (Some (last_table d), k, d)))"

text \<open>\<open>IS_ERR(buf)\<close> tests the buffer, a valid pointer, and not the result of the export: the
  branch is never taken and an \<open>ERR_PTR\<close> is returned to the caller. The private data are passed
  by address, so the framework sees them as they are at the export.\<close>

definition al5_get_dmabuf ::
    "al5_dmabuf_priv \<Rightarrow> kmem \<Rightarrow> dsys \<Rightarrow> int \<times> al5_dmabuf_priv \<times> kmem \<times> dsys" where
  "al5_get_dmabuf dinfo k d =
     (let (sgt, k, d) = (if sgt_base dinfo = None then al5_get_base_sgt (priv_buffer dinfo) k d
                         else (sgt_base dinfo, k, d));
          dinfo = dinfo\<lparr>sgt_base := sgt\<rparr>
      in if sgt = None then (0, dinfo, k, d)
         else let exp_info = define_export_info (int_of_u32 (dma_size (priv_buffer dinfo))) dinfo;
                  (dbuf, d) = dcall (Dma_buf_export (exp_size exp_info) (exp_priv exp_info)) d
              in (dbuf, dinfo, k, d))"

definition al5_dmabuf_wrap :: "al5_dma_buffer \<Rightarrow> kmem \<Rightarrow> dsys \<Rightarrow> int \<times> kmem \<times> dsys" where
  "al5_dmabuf_wrap buffer k d =
     (case kzalloc sizeof_dmabuf_priv k of
        (None, k) \<Rightarrow> (- ENOMEM, k, d)
      | (Some _, k) \<Rightarrow>
          (let (_, d) = dcall Get_device d;
               (sgt, k, d) = al5_get_base_sgt buffer k d;
               (dbuf, dinfo, k, d) =
                 al5_get_dmabuf \<lparr>priv_buffer = buffer, sgt_base = sgt\<rparr> k d
           in if dbuf \<le> 0 then (- EINVAL, k, d) else (dbuf, k, d)))"

definition al5_create_dmabuf_fd :: "al5_dma_buffer \<Rightarrow> kmem \<Rightarrow> dsys \<Rightarrow> int \<times> kmem \<times> dsys" where
  "al5_create_dmabuf_fd buffer k d =
     (let (dbuf, k, d) = al5_dmabuf_wrap buffer k d
      in if dbuf < 0 then (dbuf, k, d)
         else let (fd, d) = dcall (Dma_buf_fd dbuf) d in (fd, k, d))"

text \<open>Returns the error and the value stored through the \<open>fd\<close> pointer, if any.\<close>

definition al5_allocate_dmabuf ::
    "int \<Rightarrow> kmem \<Rightarrow> dsys \<Rightarrow> int \<times> u32 option \<times> kmem \<times> dsys" where
  "al5_allocate_dmabuf sz k d =
     (case al5_alloc_dma (word_of_int sz) k d of
        (None, k, d) \<Rightarrow> (- ENOMEM, None, k, d)
      | (Some buffer, k, d) \<Rightarrow>
          (let (fd, k, d) = al5_create_dmabuf_fd buffer k d
           in (0, Some (u32_of_int fd), k, d)))"

section \<open>Looking up a descriptor\<close>

record al5_buffer_info =
  bus_address :: u32
  info_size :: u32

text \<open>\<open>dma_buf_get\<close>, \<open>dma_buf_attach\<close> and \<open>dma_buf_map_attachment\<close> in this order, undone in the
  reverse one. The size of the dma-buf is the word \<open>dma_buf_get\<close> stores, the bus address the one
  \<open>dma_buf_map_attachment\<close> stores.\<close>

definition al5_get_dmabuf_info ::
    "u32 \<Rightarrow> dsys \<Rightarrow> int \<times> al5_buffer_info option \<times> dsys" where
  "al5_get_dmabuf_info fd d =
     (let (dbuf, d) = dcall (Dma_buf_get (int_of_u32 fd)) d
      in if dbuf < 0 then (- EINVAL, None, d)
         else let bufsize = ucast (last_value d);
                  (attach, d) = dcall (Dma_buf_attach dbuf) d
         in if attach < 0 then (- EINVAL, None, snd (dcall (Dma_buf_put dbuf) d))
            else let (sgt, d) = dcall (Dma_buf_map_attachment attach) d
            in if sgt < 0
               then (- EINVAL, None,
                     snd (dcall (Dma_buf_put dbuf) (snd (dcall (Dma_buf_detach dbuf attach) d))))
               else (0, Some \<lparr>bus_address = ucast (last_value d), info_size = bufsize\<rparr>,
                     snd (dcall (Dma_buf_put dbuf) (snd (dcall (Dma_buf_detach dbuf attach)
                       (snd (dcall (Dma_buf_unmap_attachment attach sgt) d)))))))"

definition al5_dmabuf_get_address :: "u32 \<Rightarrow> dsys \<Rightarrow> int \<times> u32 option \<times> dsys" where
  "al5_dmabuf_get_address fd d =
     (let (dbuf, d) = dcall (Dma_buf_get (int_of_u32 fd)) d
      in if dbuf < 0 then (- EINVAL, None, d)
         else let (attach, d) = dcall (Dma_buf_attach dbuf) d
         in if attach < 0 then (- EINVAL, None, snd (dcall (Dma_buf_put dbuf) d))
            else let (sgt, d) = dcall (Dma_buf_map_attachment attach) d
            in if sgt < 0
               then (- EINVAL, None,
                     snd (dcall (Dma_buf_put dbuf) (snd (dcall (Dma_buf_detach dbuf attach) d))))
               else (0, Some (ucast (last_value d)),
                     snd (dcall (Dma_buf_put dbuf) (snd (dcall (Dma_buf_detach dbuf attach)
                       (snd (dcall (Dma_buf_unmap_attachment attach sgt) d)))))))"

section \<open>The ioctls on descriptors\<close>

record al5_dma_info =
  dma_fd :: u32
  dma_len :: u32
  phy_addr :: u32

text \<open>\<open>arg\<close> is the user's structure, \<^const>\<open>None\<close> if it cannot be read; \<open>wr\<close> tells whether the
  user's memory can be written. The result holds what is stored there.\<close>

definition al5_ioctl_get_dma_fd ::
    "al5_dma_info option \<Rightarrow> bool \<Rightarrow> kmem \<Rightarrow> dsys \<Rightarrow> int \<times> al5_dma_info option \<times> kmem \<times> dsys" where
  "al5_ioctl_get_dma_fd arg wr k d =
     (case arg of
        None \<Rightarrow> (- EFAULT, None, k, d)
      | Some info \<Rightarrow>
          (let (err, fd, k, d) = al5_allocate_dmabuf (int_of_u32 (dma_len info)) k d
           in if err \<noteq> 0 then (err, None, k, d)
              else let info = (case fd of None \<Rightarrow> info | Some fd \<Rightarrow> info\<lparr>dma_fd := fd\<rparr>);
                       (err, a, d) = al5_dmabuf_get_address (dma_fd info) d
              in if err \<noteq> 0 then (err, None, k, d)
                 else let info = (case a of None \<Rightarrow> info | Some a \<Rightarrow> info\<lparr>phy_addr := a\<rparr>)
                 in if \<not> wr then (- EFAULT, None, k, d) else (0, Some info, k, d)))"

definition al5_ioctl_get_dmabuf_dma_addr ::
    "al5_dma_info option \<Rightarrow> bool \<Rightarrow> dsys \<Rightarrow> int \<times> al5_dma_info option \<times> dsys" where
  "al5_ioctl_get_dmabuf_dma_addr arg wr d =
     (case arg of
        None \<Rightarrow> (- EFAULT, None, d)
      | Some info \<Rightarrow>
          (let (err, a, d) = al5_dmabuf_get_address (dma_fd info) d
           in if err \<noteq> 0 then (err, None, d)
              else let info = (case a of None \<Rightarrow> info | Some a \<Rightarrow> info\<lparr>phy_addr := a\<rparr>)
              in if \<not> wr then (- EFAULT, None, d) else (0, Some info, d)))"

section \<open>Resources\<close>

text \<open>What a call acquires (or, negative, gives back) of each kind of resource.
  \<open>dma_buf_export\<close> and a successful \<open>dma_buf_get\<close> give the caller a reference; \<open>dma_buf_put\<close>
  drops one and a successful \<open>dma_buf_fd\<close> moves one into the descriptor.\<close>

datatype resource = Coherent | Sg_table | Sg_mapping | Device_ref | Buf_ref | Attachment | Mapping

fun dma_effect :: "resource \<Rightarrow> dma_call \<times> int \<Rightarrow> int" where
  "dma_effect R (Dma_alloc_coherent _, r) = (if R = Coherent \<and> r \<noteq> 0 then 1 else 0)"
| "dma_effect R (Dma_free_coherent _ _ _, r) = (if R = Coherent then - 1 else 0)"
| "dma_effect R (Dma_get_sgtable _, r) = (if R = Sg_table \<and> 0 \<le> r then 1 else 0)"
| "dma_effect R (Sg_alloc_table _, r) = (if R = Sg_table \<and> r = 0 then 1 else 0)"
| "dma_effect R (Sg_free_table, r) = (if R = Sg_table then - 1 else 0)"
| "dma_effect R (Dma_map_sg _ _, r) = (if R = Sg_mapping \<and> r \<noteq> 0 then 1 else 0)"
| "dma_effect R (Dma_unmap_sg _ _, r) = (if R = Sg_mapping then - 1 else 0)"
| "dma_effect R (Dma_mmap_coherent _ _ _, r) = 0"
| "dma_effect R (Get_device, r) = (if R = Device_ref then 1 else 0)"
| "dma_effect R (Put_device, r) = (if R = Device_ref then - 1 else 0)"
| "dma_effect R (Dma_buf_export _ _, r) = (if R = Buf_ref \<and> 0 < r then 1 else 0)"
| "dma_effect R (Dma_buf_fd _, r) = (if R = Buf_ref \<and> 0 \<le> r then - 1 else 0)"
| "dma_effect R (Dma_buf_get _, r) = (if R = Buf_ref \<and> 0 \<le> r then 1 else 0)"
| "dma_effect R (Dma_buf_put _, r) = (if R = Buf_ref then - 1 else 0)"
| "dma_effect R (Dma_buf_attach _, r) = (if R = Attachment \<and> 0 \<le> r then 1 else 0)"
| "dma_effect R (Dma_buf_detach _ _, r) = (if R = Attachment then - 1 else 0)"
| "dma_effect R (Dma_buf_map_attachment _, r) = (if R = Mapping \<and> 0 \<le> r then 1 else 0)"
| "dma_effect R (Dma_buf_unmap_attachment _ _, r) = (if R = Mapping then - 1 else 0)"

definition dma_live :: "resource \<Rightarrow> dsys \<Rightarrow> int" where
  "dma_live R d = sum_list (map (dma_effect R) (d_trace d))"

lemma dcall_live:
  "dcall c d = (r, d') \<Longrightarrow> dma_live R d' = dma_live R d + dma_effect R (c, r)"
  by (auto simp: dcall_def Let_def dma_live_def)

lemma dcall_snd_live [simp]:
  "dma_live R (snd (dcall c d)) = dma_live R d + dma_effect R (c, fst (dcall c d))"
  using dcall_live [of c d] by (metis prod.collapse)

lemma dma_free_coherent_live [simp]:
  "dma_live R (dma_free_coherent b d) = dma_live R d - (if R = Coherent then 1 else 0)"
  by (simp add: dma_free_coherent_def)

lemma kzalloc_kmem: "kzalloc n k = (r, k') \<Longrightarrow> k' = km_step 1 (if r = None then 0 else 1) k"
  by (auto simp: kzalloc_def dest!: kmalloc_kmem split: prod.splits)

text \<open>The lookups, the attachment and the mapping are undone on every path.\<close>

lemma al5_get_dmabuf_info_live:
  "al5_get_dmabuf_info fd d = (err, info, d') \<Longrightarrow>
   dma_live R d' = dma_live R d \<and> (err = 0 \<longleftrightarrow> info \<noteq> None) \<and> (err = 0 \<or> err = - EINVAL)"
  by (auto simp: al5_get_dmabuf_info_def Let_def split_def split: if_splits)

lemma al5_dmabuf_get_address_live:
  "al5_dmabuf_get_address fd d = (err, a, d') \<Longrightarrow>
   dma_live R d' = dma_live R d \<and> (err = 0 \<longleftrightarrow> a \<noteq> None) \<and> (err = 0 \<or> err = - EINVAL)"
  by (auto simp: al5_dmabuf_get_address_def Let_def split_def split: if_splits)

text \<open>What building a scatter table, exporting and wrapping acquire.\<close>

lemma al5_get_base_sgt_live:
  "al5_get_base_sgt b k d = (sgt, k', d') \<Longrightarrow>
   km_live k' = km_live k + (if sgt = None then 0 else 1) \<and> km_oracle k' = km_oracle k \<and>
   dma_live R d' = dma_live R d + (if R = Sg_table \<and> sgt \<noteq> None then 1 else 0)"
  by (auto simp: al5_get_base_sgt_def Let_def kfree_step dest!: dcall_live [where R = R] kzalloc_kmem
      split: prod.splits if_splits option.splits)

lemma al5_alloc_dma_live:
  "al5_alloc_dma sz k d = (b, k', d') \<Longrightarrow>
   km_live k' = km_live k + (if b = None then 0 else 1) \<and> km_oracle k' = km_oracle k \<and>
   dma_live R d' = dma_live R d + (if R = Coherent \<and> b \<noteq> None then 1 else 0)"
  by (auto simp: al5_alloc_dma_def Let_def kfree_step dest!: dcall_live [where R = R] kmalloc_kmem
      split: prod.splits if_splits option.splits)

lemma al5_free_dma_live:
  "al5_free_dma b k d = (k', d') \<Longrightarrow>
   km_live k' = km_live k - (if b = None then 0 else 1) \<and> km_oracle k' = km_oracle k \<and>
   dma_live R d' = dma_live R d - (if R = Coherent \<and> b \<noteq> None then 1 else 0)"
  by (auto simp: al5_free_dma_def kfree_step split: option.splits)

text \<open>The trace of a call, and the export at its end.\<close>

lemma dcall_trace: "dcall c d = (r, d') \<Longrightarrow> d_trace d' = d_trace d @ [(c, r)]"
  by (auto simp: dcall_def Let_def)

lemma al5_get_dmabuf_live:
  assumes "al5_get_dmabuf di k d = (h, di', k', d')" "0 < h"
  shows "\<exists>t. di' = di\<lparr>sgt_base := Some t\<rparr> \<and>
    last (d_trace d') = (Dma_buf_export (int_of_u32 (dma_size (priv_buffer di))) di', h) \<and>
    km_live k' = km_live k + (if sgt_base di = None then 1 else 0) \<and> km_oracle k' = km_oracle k \<and>
    (\<forall>R. dma_live R d' = dma_live R d + (if R = Sg_table \<and> sgt_base di = None then 1 else 0)
       + (if R = Buf_ref then 1 else 0))"
proof (cases "sgt_base di")
  case None
  obtain sgt k1 d1 where b: "al5_get_base_sgt (priv_buffer di) k d = (sgt, k1, d1)"
    by (cases "al5_get_base_sgt (priv_buffer di) k d") auto
  with None assms obtain t where t: "sgt = Some t"
    by (cases sgt) (auto simp: al5_get_dmabuf_def)
  let ?di = "di\<lparr>sgt_base := Some t\<rparr>"
  from None b t assms have e: "dcall (Dma_buf_export (int_of_u32 (dma_size (priv_buffer di))) ?di) d1
      = (h, d')" and [simp]: "di' = ?di" "k' = k1"
    by (auto simp: al5_get_dmabuf_def Let_def split: prod.splits)
  have "dma_live R d1 = dma_live R d + (if R = Sg_table then 1 else 0)" for R
    using al5_get_base_sgt_live [OF b, of R] t by simp
  with al5_get_base_sgt_live [OF b] t None dcall_live [OF e] dcall_trace [OF e] assms(2)
  show ?thesis by (intro exI [of _ t]) simp
next
  case (Some t)
  then have e: "dcall (Dma_buf_export (int_of_u32 (dma_size (priv_buffer di))) di) d = (h, d')"
    and [simp]: "k' = k" "di' = di"
    using assms by (cases di, auto simp: al5_get_dmabuf_def Let_def split: prod.splits)+
  show ?thesis
    using Some dcall_live [OF e] dcall_trace [OF e] assms(2) by (cases di) auto
qed

lemma al5_dmabuf_wrap_live:
  assumes "al5_dmabuf_wrap b k d = (h, k', d')" "0 < h"
  shows "\<exists>n t. last (d_trace d') = (Dma_buf_export n \<lparr>priv_buffer = b, sgt_base = Some t\<rparr>, h) \<and>
    km_live k' = km_live k + 2 \<and> km_oracle k' = km_oracle k \<and>
    (\<forall>R. dma_live R d' = dma_live R d + (if R \<in> {Device_ref, Sg_table, Buf_ref} then 1 else 0))"
proof -
  from assms obtain bs k1 where k1: "kzalloc sizeof_dmabuf_priv k = (Some bs, k1)"
    by (cases "kzalloc sizeof_dmabuf_priv k"; cases "fst (kzalloc sizeof_dmabuf_priv k)")
       (auto simp: al5_dmabuf_wrap_def)
  obtain r d1 where d1: "dcall Get_device d = (r, d1)" by (cases "dcall Get_device d")
  obtain sgt k2 d2 where b: "al5_get_base_sgt b k1 d1 = (sgt, k2, d2)"
    by (cases "al5_get_base_sgt b k1 d1") auto
  let ?di = "\<lparr>priv_buffer = b, sgt_base = sgt\<rparr>"
  obtain h' di k3 d3 where g: "al5_get_dmabuf ?di k2 d2 = (h', di, k3, d3)"
    by (cases "al5_get_dmabuf ?di k2 d2") auto
  with assms k1 d1 b have [simp]: "h' = h" "k3 = k'" "d3 = d'"
    by (auto simp: al5_dmabuf_wrap_def Let_def split: if_splits)
  from al5_get_dmabuf_live [OF g] assms(2) obtain t n where
    t: "last (d_trace d') = (Dma_buf_export n \<lparr>priv_buffer = b, sgt_base = Some t\<rparr>, h)"
    "km_live k' = km_live k2 + (if sgt = None then 1 else 0)" "km_oracle k' = km_oracle k2"
    "\<And>R. dma_live R d' = dma_live R d2 + (if R = Sg_table \<and> sgt = None then 1 else 0)
       + (if R = Buf_ref then 1 else 0)" by auto
  have "km_live k' = km_live k + 2" "km_oracle k' = km_oracle k"
    using t(2,3) al5_get_base_sgt_live [OF b] kzalloc_kmem [OF k1] by auto
  moreover have "dma_live R d' = dma_live R d +
      (if R \<in> {Device_ref, Sg_table, Buf_ref} then 1 else 0)" for R
    using t(4) [of R] al5_get_base_sgt_live [OF b, of R] dcall_live [OF d1, of R] by auto
  ultimately show ?thesis using t(1) by auto
qed

lemma al5_dmabuf_wrap_failed:
  assumes "al5_dmabuf_wrap b k d = (h, k', d')" "h < 0"
  shows "dma_live Buf_ref d' = dma_live Buf_ref d"
  using assms
  by (auto simp: al5_dmabuf_wrap_def al5_get_dmabuf_def al5_get_base_sgt_def Let_def
      dest!: dcall_live [where R = Buf_ref] split: prod.splits if_splits option.splits)

lemma al5_dmabuf_wrap_oracle: "al5_dmabuf_wrap b k d = (h, k', d') \<Longrightarrow> km_oracle k' = km_oracle k"
  by (auto simp: al5_dmabuf_wrap_def al5_get_dmabuf_def al5_get_base_sgt_def kfree_step Let_def
      dest!: kzalloc_kmem split: prod.splits if_splits option.splits)

lemma dcall_snd_trace [simp]: "d_trace (snd (dcall c d)) = d_trace d @ [(c, fst (dcall c d))]"
  using dcall_trace [of c d] by (metis prod.collapse)

lemma al5_dmabuf_release_eq:
  "al5_dmabuf_release di k d =
    (kfree (kfree (if sgt_base di = None then k else kfree k)),
     snd (dcall Put_device (dma_free_coherent (priv_buffer di)
       (if sgt_base di = None then d else snd (dcall Sg_free_table d)))))"
  by (simp add: al5_dmabuf_release_def split_def Let_def)

lemma al5_dmabuf_release_live:
  assumes "al5_dmabuf_release di k d = (k', d')"
  shows "km_live k' = km_live k - 2 - (if sgt_base di = None then 0 else 1)"
    "dma_live R d' = dma_live R d - (if R \<in> {Coherent, Device_ref} then 1 else 0)
      - (if R = Sg_table \<and> sgt_base di \<noteq> None then 1 else 0)"
    "\<exists>r. (Dma_free_coherent (dma_size (priv_buffer di)) (cpu_handle (priv_buffer di))
       (dma_handle (priv_buffer di)), r) \<in> set (d_events d d')"
proof -
  have k': "k' = kfree (kfree (if sgt_base di = None then k else kfree k))"
    and d': "d' = snd (dcall Put_device (dma_free_coherent (priv_buffer di)
       (if sgt_base di = None then d else snd (dcall Sg_free_table d))))"
    using assms by (simp_all add: al5_dmabuf_release_eq)
  show "km_live k' = km_live k - 2 - (if sgt_base di = None then 0 else 1)"
    by (simp add: k' kfree_step)
  show "dma_live R d' = dma_live R d - (if R \<in> {Coherent, Device_ref} then 1 else 0)
      - (if R = Sg_table \<and> sgt_base di \<noteq> None then 1 else 0)"
    by (cases R) (simp_all add: d')
  show "\<exists>r. (Dma_free_coherent (dma_size (priv_buffer di)) (cpu_handle (priv_buffer di))
       (dma_handle (priv_buffer di)), r) \<in> set (d_events d d')"
    by (simp add: d' d_events_def dma_free_coherent_def)
qed

section \<open>Attachments\<close>

text \<open>A run of map callbacks on one attachment, as users of the dma-buf make them.\<close>

fun map_all ::
    "dma_dir list \<Rightarrow> al5_dmabuf_attachment option \<Rightarrow> dsys \<Rightarrow> (al5_dmabuf_attachment option \<times> dsys) option"
  where
  "map_all [] att d = Some (att, d)"
| "map_all (dir # dirs) att d = do {
     (_, att, d) \<leftarrow> al5_dmabuf_map att dir d;
     map_all dirs att d
   }"

definition mappings :: "al5_dmabuf_attachment \<Rightarrow> int" where
  "mappings att = (if att_dir att = DMA_NONE then 0 else 1)"

lemma sg_copy_all: "length wr = length rd \<Longrightarrow> sg_copy (length rd) rd wr = Some rd"
  by (induction rd arbitrary: wr) (auto simp: length_Suc_conv)

lemma al5_dmabuf_map_live:
  assumes "dir \<noteq> DMA_NONE"
  shows "\<exists>r att' d'. al5_dmabuf_map (Some att) dir d = Some (r, Some att', d') \<and>
    att_sgt att' = att_sgt att \<and>
    dma_live R d' = dma_live R d + (if R = Sg_mapping then mappings att' - mappings att else 0) \<and>
    (r = Inr (att_sgt att) \<and> att_dir att' = dir \<or> r = Inl (- EIO) \<and> att_dir att' = DMA_NONE)"
  using assms
  by (auto simp: al5_dmabuf_map_def mappings_def Let_def split_def)

lemma map_all_live:
  "DMA_NONE \<notin> set dirs \<Longrightarrow> \<exists>att' d'. map_all dirs (Some att) d = Some (Some att', d') \<and>
    dma_live R d' = dma_live R d + (if R = Sg_mapping then mappings att' - mappings att else 0)"
proof (induction dirs arbitrary: att d)
  case Nil
  then show ?case by simp
next
  case (Cons dir dirs)
  from Cons.prems al5_dmabuf_map_live [of dir att d R] obtain r att1 d1 where
    m: "al5_dmabuf_map (Some att) dir d = Some (r, Some att1, d1)"
    "dma_live R d1 = dma_live R d + (if R = Sg_mapping then mappings att1 - mappings att else 0)"
    by auto
  from Cons.IH [of att1 d1] Cons.prems obtain att' d' where
    "map_all dirs (Some att1) d1 = Some (Some att', d')"
    "dma_live R d' = dma_live R d1 + (if R = Sg_mapping then mappings att' - mappings att1 else 0)"
    by auto
  with m show ?case by auto
qed

lemma al5_dmabuf_detach_live:
  "al5_dmabuf_detach (Some att) k d = (a, k', d') \<Longrightarrow>
   a = None \<and> km_live k' = km_live k - 1 \<and>
   dma_live R d' = dma_live R d - (if R = Sg_mapping then mappings att else 0)
     - (if R = Sg_table then 1 else 0)"
  by (auto simp: al5_dmabuf_detach_def mappings_def Let_def split_def kfree_step)

section \<open>Properties\<close>

text \<open>C33: the lookups of a descriptor give back everything they acquire, whatever the framework
  answers: the reference of \<open>dma_buf_get\<close>, the attachment and the mapping. They return 0
  exactly when they return the information, else \<open>-EINVAL\<close>.\<close>

theorem dmabuf_lookup_balanced:
  "(case al5_get_dmabuf_info fd d of (err, info, d') \<Rightarrow>
      dma_live R d' = dma_live R d \<and> (err = 0 \<longleftrightarrow> info \<noteq> None) \<and> err \<in> {0, - EINVAL}) \<and>
   (case al5_dmabuf_get_address fd d of (err, a, d') \<Rightarrow>
      dma_live R d' = dma_live R d \<and> (err = 0 \<longleftrightarrow> a \<noteq> None) \<and> err \<in> {0, - EINVAL})"
  using al5_get_dmabuf_info_live [of fd d _ _ _ R] al5_dmabuf_get_address_live [of fd d _ _ _ R]
  by (auto split: prod.split)

text \<open>The life cycle of an exported buffer. When \<open>al5_alloc_dma\<close> and \<open>al5_dmabuf_wrap\<close>
  succeed, the private data they export describe that buffer, and the release callback on them
  frees everything the two calls acquired (the blocks, the coherent memory with its own size
  and handles, the scatter table and the device reference), leaving the reference of the
  dma-buf to its holder.\<close>

theorem dmabuf_lifecycle:
  assumes "al5_alloc_dma sz k d = (Some b, k1, d1)" "al5_dmabuf_wrap b k1 d1 = (h, k2, d2)" "0 < h"
  shows "\<exists>n di k3 d3 r. last (d_trace d2) = (Dma_buf_export n di, h) \<and>
    al5_dmabuf_release di k2 d2 = (k3, d3) \<and> km_live k3 = km_live k \<and>
    (\<forall>R. dma_live R d3 = dma_live R d + (if R = Buf_ref then 1 else 0)) \<and>
    (Dma_free_coherent (dma_size b) (cpu_handle b) (dma_handle b), r) \<in> set (d_events d2 d3)"
proof -
  from al5_dmabuf_wrap_live [OF assms(2,3)] obtain n t where
    t: "last (d_trace d2) = (Dma_buf_export n \<lparr>priv_buffer = b, sgt_base = Some t\<rparr>, h)"
    "km_live k2 = km_live k1 + 2"
    "\<And>R. dma_live R d2 = dma_live R d1 + (if R \<in> {Device_ref, Sg_table, Buf_ref} then 1 else 0)"
    by auto
  let ?di = "\<lparr>priv_buffer = b, sgt_base = Some t\<rparr>"
  obtain k3 d3 where r: "al5_dmabuf_release ?di k2 d2 = (k3, d3)"
    by (cases "al5_dmabuf_release ?di k2 d2")
  have "km_live k3 = km_live k"
    using al5_dmabuf_release_live(1) [OF r] al5_alloc_dma_live [OF assms(1)] t(2) by simp
  moreover have "dma_live R d3 = dma_live R d + (if R = Buf_ref then 1 else 0)" for R
    using al5_dmabuf_release_live(2) [OF r, of R] al5_alloc_dma_live [OF assms(1), of R] t(3) by auto
  ultimately show ?thesis
    using t(1) r al5_dmabuf_release_live(3) [OF r] by fastforce
qed

text \<open>Answers for the witnesses: every call succeeds with the value 7.\<close>

definition dsys7 :: dsys where
  "dsys7 = \<lparr>d_answer = (\<lambda>_. 7), d_value = (\<lambda>_. 0x1000), d_table = (\<lambda>_. [(1, 4096, 0)]), d_trace = []\<rparr>"

definition buffer7 :: al5_dma_buffer where
  "buffer7 = \<lparr>dma_size = 64, dma_handle = 0x1000, cpu_handle = 7\<rparr>"

theorem dmabuf_lifecycle_witness:
  "\<exists>k1 d1 k2 d2 n di k3 d3 r. al5_alloc_dma 64 kmem0 dsys7 = (Some buffer7, k1, d1) \<and>
    al5_dmabuf_wrap buffer7 k1 d1 = (7, k2, d2) \<and> last (d_trace d2) = (Dma_buf_export n di, 7) \<and>
    al5_dmabuf_release di k2 d2 = (k3, d3) \<and> km_live k3 = km_live kmem0 \<and>
    (\<forall>R. dma_live R d3 = dma_live R dsys7 + (if R = Buf_ref then 1 else 0)) \<and>
    (Dma_free_coherent (dma_size buffer7) (cpu_handle buffer7) (dma_handle buffer7), r)
      \<in> set (d_events d2 d3)"
proof -
  obtain k1 d1 where 1: "al5_alloc_dma 64 kmem0 dsys7 = (Some buffer7, k1, d1)"
    "d_answer d1 = (\<lambda>_. 7)" "km_oracle k1 = km_oracle kmem0"
    by (simp add: al5_alloc_dma_def kmalloc_def kmem0_def dcall_def dsys7_def Let_def buffer7_def
        last_value_def)
  obtain k2 d2 where 2: "al5_dmabuf_wrap buffer7 k1 d1 = (7, k2, d2)"
    using 1(2,3) by (simp add: al5_dmabuf_wrap_def kzalloc_def kmalloc_def kmem0_def dcall_def
        Let_def al5_get_base_sgt_def al5_get_dmabuf_def)
  show ?thesis using 1(1) 2 dmabuf_lifecycle [OF 1(1) 2] by auto
qed

text \<open>An attachment holds at most one mapping. After any run of map callbacks with real
  directions, successful or not, the detach callback unmaps what is still mapped, frees the
  copied scatter table and the attachment: nothing stays acquired. The attachment starts with
  a copy of the exporter's scatter list.\<close>

theorem dmabuf_attachment_balanced:
  assumes "al5_dmabuf_attach di k d = Some (0, Some att, k1, d1)" "DMA_NONE \<notin> set dirs"
  shows "\<exists>att' d2 k3 d3. sgt_base di = Some (att_sgt att) \<and>
    map_all dirs (Some att) d1 = Some (att', d2) \<and> al5_dmabuf_detach att' k1 d2 = (None, k3, d3) \<and>
    km_live k3 = km_live k \<and> dma_live R d3 = dma_live R d"
proof -
  obtain z k' where z: "kzalloc sizeof_attachment k = (z, k')"
    by (cases "kzalloc sizeof_attachment k")
  with assms(1) obtain bs where bs: "z = Some bs"
    by (cases z) (auto simp: al5_dmabuf_attach_def)
  with assms(1) z obtain base where base: "sgt_base di = Some base"
    by (cases "sgt_base di") (auto simp: al5_dmabuf_attach_def)
  obtain r d' where r: "dcall (Sg_alloc_table (length base)) d = (r, d')"
    by (cases "dcall (Sg_alloc_table (length base)) d")
  from assms(1) z bs base r have "r = 0" and [simp]: "k' = k1" "d' = d1"
    and att: "att = \<lparr>att_sgt = base, att_dir = DMA_NONE\<rparr>"
    by (auto simp: al5_dmabuf_attach_def sg_copy_all split: if_splits)
  with r have d1: "dcall (Sg_alloc_table (length base)) d = (0, d1)" by simp
  have k1: "k1 = km_step 1 1 k" using kzalloc_kmem [OF z] bs by simp
  from map_all_live [OF assms(2), of att d1 R] obtain att' d2 where
    m: "map_all dirs (Some att) d1 = Some (Some att', d2)"
    "dma_live R d2 = dma_live R d1 + (if R = Sg_mapping then mappings att' else 0)"
    by (auto simp: att mappings_def)
  obtain a k3 d3 where x: "al5_dmabuf_detach (Some att') k1 d2 = (a, k3, d3)"
    by (cases "al5_dmabuf_detach (Some att') k1 d2") auto
  show ?thesis
    using al5_dmabuf_detach_live [OF x, of R] m dcall_live [OF d1, of R] base k1 x att
    by (auto intro!: exI [of _ "Some att'"])
qed

definition dsys0 :: dsys where
  "dsys0 = dsys7\<lparr>d_answer := (\<lambda>i. if i = 0 then 0 else 7)\<rparr>"

theorem dmabuf_attachment_balanced_witness:
  "\<exists>att k1 d1 att' d2 k3 d3.
    al5_dmabuf_attach \<lparr>priv_buffer = buffer7, sgt_base = Some [(1, 4096, 0)]\<rparr> kmem0 dsys0 =
      Some (0, Some att, k1, d1) \<and>
    map_all [DMA_TO_DEVICE, DMA_BIDIRECTIONAL] (Some att) d1 = Some (att', d2) \<and>
    al5_dmabuf_detach att' k1 d2 = (None, k3, d3) \<and>
    km_live k3 = km_live kmem0 \<and> dma_live Sg_mapping d3 = dma_live Sg_mapping dsys0"
proof -
  let ?di = "\<lparr>priv_buffer = buffer7, sgt_base = Some [(1, 4096, 0)]\<rparr>"
  obtain att k1 d1 where 1: "al5_dmabuf_attach ?di kmem0 dsys0 = Some (0, Some att, k1, d1)"
    by (simp add: al5_dmabuf_attach_def kzalloc_def kmalloc_def kmem0_def dcall_def dsys0_def
        dsys7_def Let_def)
  from dmabuf_attachment_balanced [OF this, of "[DMA_TO_DEVICE, DMA_BIDIRECTIONAL]" Sg_mapping]
  show ?thesis using 1 by auto
qed

text \<open>A failed export leaks. When \<open>dma_buf_export\<close> fails, \<open>al5_dmabuf_wrap\<close> returns
  \<open>-EINVAL\<close> but keeps the private block, the scatter table and the device reference.\<close>

theorem al5_dmabuf_wrap_leak:
  assumes "km_ok k" "km_nofail k" and "d_answer d (Suc (length (d_trace d))) = 0"
    and "d_answer d (Suc (Suc (length (d_trace d)))) < 0"
  shows "\<exists>k' d'. al5_dmabuf_wrap b k d = (- EINVAL, k', d') \<and> km_live k' = km_live k + 2 \<and>
    dma_live Device_ref d' = dma_live Device_ref d + 1 \<and>
    dma_live Sg_table d' = dma_live Sg_table d + 1"
  using assms
  by (simp add: al5_dmabuf_wrap_def kzalloc_Some al5_get_base_sgt_def al5_get_dmabuf_def dcall_def
      Let_def dma_live_def)

theorem al5_dmabuf_wrap_leak_witness:
  "\<exists>k' d'. al5_dmabuf_wrap buffer7 kmem0 (dsys7\<lparr>d_answer := \<lambda>i. if i = 1 then 0 else - 12\<rparr>) =
      (- EINVAL, k', d') \<and> km_live k' = km_live kmem0 + 2 \<and>
    dma_live Device_ref d' = dma_live Device_ref (dsys7\<lparr>d_answer := \<lambda>i. if i = 1 then 0 else - 12\<rparr>) + 1 \<and>
    dma_live Sg_table d' = dma_live Sg_table (dsys7\<lparr>d_answer := \<lambda>i. if i = 1 then 0 else - 12\<rparr>) + 1"
  by (rule al5_dmabuf_wrap_leak) (simp_all add: dsys7_def)

end
