(* ===== verification/Mcu_Interface.thy ===== *)
theory Mcu_Interface
  imports Mail_Channel Dma
begin

text \<open>
  The interface to the firmware (\<open>common/mcu_interface.c\<close>): one mailbox in each direction and
  the interrupt register that signals a message. The spin locks are taken and released inside
  each function; every function here runs under them from its first to its last access, so it
  is one step. \<open>hw\<close> is what the functions of the upper layers change below the driver's own
  structures: device memory, the interface, the allocator and the record of DMA calls.
\<close>

record mcu_mailbox_interface =
  mcu_to_cpu :: mailbox
  cpu_to_mcu :: mailbox
  interrupt_register :: addr

record mcu_mailbox_config =
  cmd_base :: addr
  status_base :: addr
  cmd_size :: size_t
  status_size :: size_t

record hw =
  hw_mem :: iomem
  hw_mcu :: mcu_mailbox_interface
  hw_k :: kmem
  hw_d :: dsys

section \<open>Creation\<close>

text \<open>
  The structure on a 64-bit kernel: four pointers and two 4-byte spin locks. \<open>store_field\<close> is a
  store of \<open>width\<close> bytes at an offset of a block of \<open>block_size\<close> bytes. The code allocates
  \<open>sizeof(*mcu)\<close> where \<open>mcu\<close> is a pointer to a pointer: \<open>alloc_size\<close> is 8 there, and a parameter
  here so that the intended size can be compared with it.
\<close>

definition sizeof_mcu_interface :: nat where
  "sizeof_mcu_interface = 8 + 8 + 4 + 4 + 8 + 8"

definition sizeof_pointer :: nat where
  "sizeof_pointer = 8"

definition sizeof_mailbox :: nat where
  "sizeof_mailbox = 8 + 8 + 8 + 8 + 8"

definition store_field :: "nat \<Rightarrow> nat \<Rightarrow> nat \<Rightarrow> unit option" where
  "store_field block_size off width = (if off + width \<le> block_size then Some () else None)"

definition mcu_interface_create_sized ::
    "nat \<Rightarrow> mcu_mailbox_config \<Rightarrow> addr \<Rightarrow> iomem \<Rightarrow> kmem
      \<Rightarrow> (int \<times> mcu_mailbox_interface option \<times> iomem \<times> kmem) option" where
  "mcu_interface_create_sized alloc_size config irq_reg mem k =
     (let (p, k) = kmalloc alloc_size k
      in if p = None then Some (- ENOMEM, None, mem, k)
         else let (b1, k) = kmalloc sizeof_mailbox k
         in do {
           _ \<leftarrow> store_field alloc_size 0 8;
           if b1 = None then Some (- ENOMEM, None, mem, k)
           else let (b2, k) = kmalloc sizeof_mailbox k
           in do {
             _ \<leftarrow> store_field alloc_size 8 8;
             if b2 = None then Some (- ENOMEM, None, mem, k)
             else let (cmd, mem) = al5_mailbox_init (cmd_base config) (cmd_size config) mem;
                      (status, mem) = al5_mailbox_init (status_base config) (status_size config) mem
             in do {
               _ \<leftarrow> store_field alloc_size 16 4;
               _ \<leftarrow> store_field alloc_size 20 4;
               _ \<leftarrow> store_field alloc_size 24 8;
               _ \<leftarrow> store_field alloc_size 32 8;
               Some (0, Some \<lparr>mcu_to_cpu = status, cpu_to_mcu = cmd, interrupt_register = irq_reg\<rparr>,
                     mem, k)
             }
           }
         })"

definition al5_mcu_interface_create ::
    "mcu_mailbox_config \<Rightarrow> addr \<Rightarrow> iomem \<Rightarrow> kmem
      \<Rightarrow> (int \<times> mcu_mailbox_interface option \<times> iomem \<times> kmem) option" where
  "al5_mcu_interface_create = mcu_interface_create_sized sizeof_pointer"

definition al5_mcu_interface_destroy :: "mcu_mailbox_interface \<Rightarrow> kmem \<Rightarrow> kmem" where
  "al5_mcu_interface_destroy mcu k = kfree (kfree (kfree k))"

section \<open>Messages and signals\<close>

definition al5_mcu_send :: "al5_mail \<Rightarrow> hw \<Rightarrow> (int \<times> hw) option" where
  "al5_mcu_send mail s = do {
     (error, box, mem) \<leftarrow> al5_mailbox_write (cpu_to_mcu (hw_mcu s)) mail (hw_mem s);
     Some (error, s\<lparr>hw_mcu := (hw_mcu s)\<lparr>cpu_to_mcu := box\<rparr>, hw_mem := mem\<rparr>)
   }"

definition al5_mcu_recv :: "hw \<Rightarrow> (al5_mail \<times> hw) option" where
  "al5_mcu_recv s = do {
     (mail, mem, k) \<leftarrow> al5_mailbox_read (mcu_to_cpu (hw_mcu s)) (hw_mem s) (hw_k s);
     Some (mail, s\<lparr>hw_mem := mem, hw_k := k\<rparr>)
   }"

definition al5_mcu_is_empty :: "hw \<Rightarrow> bool" where
  "al5_mcu_is_empty s \<longleftrightarrow>
     ioread32 (box_head (mcu_to_cpu (hw_mcu s))) (hw_mem s) =
     ioread32 (box_tail (mcu_to_cpu (hw_mcu s))) (hw_mem s)"

definition al5_signal_mcu :: "hw \<Rightarrow> hw" where
  "al5_signal_mcu s = s\<lparr>hw_mem := iowrite32 1 (interrupt_register (hw_mcu s)) (hw_mem s)\<rparr>"

definition mcu_cache_offset :: u32 where
  "mcu_cache_offset = 0x80000000"

definition al5_mcu_get_virtual_address :: "u32 \<Rightarrow> u32" where
  "al5_mcu_get_virtual_address physicalAddress = physicalAddress + mcu_cache_offset"

section \<open>Well-formed interfaces\<close>

definition mcu_disjoint :: "mcu_mailbox_interface \<Rightarrow> bool" where
  "mcu_disjoint mcu \<longleftrightarrow>
     mailbox_area (cpu_to_mcu mcu) \<inter> mailbox_area (mcu_to_cpu mcu) = {} \<and>
     {interrupt_register mcu ..< interrupt_register mcu + 4} \<inter>
       (mailbox_area (cpu_to_mcu mcu) \<union> mailbox_area (mcu_to_cpu mcu)) = {}"

definition hw_ok :: "hw \<Rightarrow> bool" where
  "hw_ok s \<longleftrightarrow>
     mailbox_ok (cpu_to_mcu (hw_mcu s)) (hw_mem s) \<and>
     mailbox_ok (mcu_to_cpu (hw_mcu s)) (hw_mem s) \<and>
     mcu_disjoint (hw_mcu s) \<and> km_ok (hw_k s)"

text \<open>The abstract view: the messages sent and not yet read by the firmware, the messages
  received and not yet read by the driver, the bytes free for sending.\<close>

definition outbox :: "hw \<Rightarrow> wire list" where
  "outbox s = mailbox_mails (cpu_to_mcu (hw_mcu s)) (hw_mem s)"

definition inbox :: "hw \<Rightarrow> wire list" where
  "inbox s = mailbox_mails (mcu_to_cpu (hw_mcu s)) (hw_mem s)"

definition outroom :: "hw \<Rightarrow> nat" where
  "outroom s = unat (box_size (cpu_to_mcu (hw_mcu s)))
     - box_used (cpu_to_mcu (hw_mcu s)) (hw_mem s)"

lemma mailbox_layout_of_ok: "mailbox_ok box mem \<Longrightarrow> mailbox_layout box"
  by (simp add: mailbox_ok_def)

lemma mcu_disjoint_local_tail:
  "mcu_disjoint (mcu\<lparr>cpu_to_mcu := (cpu_to_mcu mcu)\<lparr>local_tail := x\<rparr>\<rparr>) = mcu_disjoint mcu"
  by (simp add: mcu_disjoint_def)

text \<open>\<open>hw_frame s s'\<close>: the interface's registers and the received messages are as before; every
  function that only sends or allocates keeps them.\<close>

definition hw_frame :: "hw \<Rightarrow> hw \<Rightarrow> bool" where
  "hw_frame s s' \<longleftrightarrow> (hw_ok s \<longrightarrow> hw_ok s' \<and> inbox s' = inbox s) \<and>
     mcu_to_cpu (hw_mcu s') = mcu_to_cpu (hw_mcu s) \<and>
     interrupt_register (hw_mcu s') = interrupt_register (hw_mcu s) \<and>
     km_oracle (hw_k s') = km_oracle (hw_k s)"

lemma hw_frame_kmem:
  "km_oracle k = km_oracle (hw_k s) \<Longrightarrow> hw_frame s (s\<lparr>hw_k := k\<rparr>)"
  by (auto simp: hw_frame_def hw_ok_def km_ok_def inbox_def)

lemma hw_frame_refl [simp]: "hw_frame s s"
  by (simp add: hw_frame_def)

lemma hw_frame_trans: "hw_frame s t \<Longrightarrow> hw_frame t u \<Longrightarrow> hw_frame s u"
  by (auto simp: hw_frame_def)

lemma hw_frame_ok: "hw_frame s s' \<Longrightarrow> hw_ok s \<Longrightarrow> hw_ok s'"
  by (simp add: hw_frame_def)

text \<open>A change of the allocator alone.\<close>

lemma hw_k_update [simp]:
  "outbox (s\<lparr>hw_k := k\<rparr>) = outbox s" "inbox (s\<lparr>hw_k := k\<rparr>) = inbox s"
  "outroom (s\<lparr>hw_k := k\<rparr>) = outroom s"
  by (simp_all add: outbox_def inbox_def outroom_def)

lemma hw_d_update [simp]:
  "outbox (s\<lparr>hw_d := d\<rparr>) = outbox s" "inbox (s\<lparr>hw_d := d\<rparr>) = inbox s"
  "outroom (s\<lparr>hw_d := d\<rparr>) = outroom s" "hw_ok (s\<lparr>hw_d := d\<rparr>) = hw_ok s"
  "hw_frame s (s\<lparr>hw_d := d\<rparr>)"
  by (simp_all add: outbox_def inbox_def outroom_def hw_ok_def hw_frame_def)

lemma hw_ok_km_step [simp]: "hw_ok (s\<lparr>hw_k := km_step n j (hw_k s)\<rparr>) = hw_ok s"
  by (simp add: hw_ok_def)

lemma hw_frame_km_step [simp]: "hw_frame s (s\<lparr>hw_k := km_step n j (hw_k s)\<rparr>)"
  by (simp add: hw_frame_def)

section \<open>Sending\<close>

lemma al5_mcu_send_fits:
  assumes ok: "hw_ok s" and wf: "mail_wf m" and room: "unat (body_size m) + 8 \<le> outroom s"
  obtains s' where "al5_mcu_send m s = Some (0, s')" "hw_frame s s'"
    "outbox s' = outbox s @ [wire_of m]" "hw_k s' = hw_k s"
    "outroom s' + 4 + roundup4 (unat (body_size m)) = outroom s"
proof -
  let ?box = "cpu_to_mcu (hw_mcu s)" and ?in = "mcu_to_cpu (hw_mcu s)"
  have bok: "mailbox_ok ?box (hw_mem s)" and iok: "mailbox_ok ?in (hw_mem s)"
    and dj: "mcu_disjoint (hw_mcu s)" and k: "km_ok (hw_k s)"
    using ok by (simp_all add: hw_ok_def)
  have "box_used ?box (hw_mem s) + unat (body_size m) + 8 \<le> unat (box_size ?box)"
    using room by (simp add: outroom_def)
  with bok wf show thesis
  proof (rule al5_mailbox_write_refines)
    fix box' mem'
    assume w: "al5_mailbox_write ?box m (hw_mem s) = Some (0, box', mem')"
      "mailbox_ok box' mem'" "mailbox_mails box' mem' = mailbox_mails ?box (hw_mem s) @ [wire_of m]"
      "box_used box' mem' = box_used ?box (hw_mem s) + 4 + roundup4 (unat (body_size m))"
      and box': "\<exists>x. box' = ?box\<lparr>local_tail := x\<rparr>"
      and fr: "\<And>a. a \<notin> {box_tail ?box ..< box_head ?box + 8 + unat (box_size ?box)}
        \<Longrightarrow> mem' a = hw_mem s a"
    let ?s' = "s\<lparr>hw_mcu := (hw_mcu s)\<lparr>cpu_to_mcu := box'\<rparr>, hw_mem := mem'\<rparr>"
    have same: "mem' a = hw_mem s a" if "a \<in> mailbox_area ?in" for a
    proof (rule fr)
      show "a \<notin> {box_tail ?box ..< box_head ?box + 8 + unat (box_size ?box)}"
        using that dj mailbox_layout_of_ok [OF bok]
        by (auto simp: mcu_disjoint_def mailbox_area_def mailbox_layout_def disjoint_iff)
    qed
    have in': "mailbox_ok ?in mem'" "mailbox_mails ?in mem' = mailbox_mails ?in (hw_mem s)"
      using mailbox_cong [OF mailbox_layout_of_ok [OF iok] same] iok by simp_all
    have "mcu_disjoint ((hw_mcu s)\<lparr>cpu_to_mcu := box'\<rparr>)"
      using dj box' by (auto simp: mcu_disjoint_local_tail)
    with w in' k ok have "hw_frame s ?s'"
      by (simp add: hw_frame_def hw_ok_def inbox_def)
    moreover have "al5_mcu_send m s = Some (0, ?s')"
      using w by (simp add: al5_mcu_send_def)
    ultimately show thesis
      using w box' box_used_less [OF w(2)] by (intro that [of ?s']) (auto simp: outbox_def outroom_def)
  qed
qed

lemma al5_mcu_send_full:
  assumes "hw_ok s" "outroom s < unat (body_size m) + 8"
  shows "al5_mcu_send m s = Some (- EAGAIN, s)"
  using assms al5_mailbox_write_full [of "cpu_to_mcu (hw_mcu s)" "hw_mem s" m]
  by (simp add: al5_mcu_send_def hw_ok_def outroom_def)

lemma al5_mcu_send_cases:
  assumes "hw_ok s" "mail_wf m"
  obtains (sent) s' where "al5_mcu_send m s = Some (0, s')" "hw_frame s s'"
      "outbox s' = outbox s @ [wire_of m]" "hw_k s' = hw_k s"
  | (refused) "al5_mcu_send m s = Some (- EAGAIN, s)"
proof (cases "unat (body_size m) + 8 \<le> outroom s")
  case True
  with assms show thesis by (rule al5_mcu_send_fits) (rule sent)
next
  case False
  with assms(1) show thesis by (intro refused al5_mcu_send_full) simp_all
qed

section \<open>Receiving\<close>

lemma parse_mails_Nil_iff: "parse_mails bs = Some [] \<longleftrightarrow> bs = []"
  by (cases bs rule: parse_mails.cases) (auto simp: Let_def)

lemma ring_used_0: "h < S \<Longrightarrow> t < S \<Longrightarrow> ring_used S h t = 0 \<longleftrightarrow> h = t"
  by (auto simp: ring_used_def)

lemma mailbox_mails_Nil_used:
  assumes "mailbox_ok box mem"
  shows "mailbox_mails box mem = [] \<longleftrightarrow> box_used box mem = 0"
proof -
  have "mailbox_mails box mem = [] \<longleftrightarrow> box_content box mem = []"
    using mailbox_parse [OF assms] parse_mails_Nil_iff by (metis option.inject)
  also have "\<dots> \<longleftrightarrow> box_used box mem = 0"
    by (simp add: box_content_def ring_get_def)
  finally show ?thesis .
qed

lemma mailbox_mails_Nil_iff:
  assumes "mailbox_ok box mem"
  shows "mailbox_mails box mem = [] \<longleftrightarrow>
    ioread32 (box_head box) mem = ioread32 (box_tail box) mem"
proof -
  have "mailbox_mails box mem = [] \<longleftrightarrow> box_used box mem = 0"
    by (rule mailbox_mails_Nil_used [OF assms])
  also have "\<dots> \<longleftrightarrow> box_hd box mem = box_tl box mem"
    using assms unfolding box_used_def by (intro ring_used_0) (simp_all add: mailbox_ok_def)
  finally show ?thesis by (simp add: box_hd_def box_tl_def word_unat_eq_iff [symmetric])
qed

text \<open>The emptiness test of the interrupt handler, in terms of the messages.\<close>

lemma al5_mcu_is_empty_iff: "hw_ok s \<Longrightarrow> al5_mcu_is_empty s \<longleftrightarrow> inbox s = []"
  by (simp add: al5_mcu_is_empty_def inbox_def hw_ok_def mailbox_mails_Nil_iff)

text \<open>Receiving takes the first message and leaves the other direction alone. The net effect on
  the allocator is the one block of the mail.\<close>

lemma al5_mcu_recv_first:
  assumes ok: "hw_ok s" and k: "km_nofail (hw_k s)" and first: "inbox s = w # ws"
  obtains s' where "al5_mcu_recv s = Some (mail_of_wire w, s')" "hw_ok s'" "inbox s' = ws"
    "outbox s' = outbox s" "outroom s' = outroom s" "hw_mcu s' = hw_mcu s"
    "hw_k s' = km_step 3 1 (hw_k s)"
proof -
  let ?box = "cpu_to_mcu (hw_mcu s)" and ?in = "mcu_to_cpu (hw_mcu s)"
  have bok: "mailbox_ok ?box (hw_mem s)" and iok: "mailbox_ok ?in (hw_mem s)"
    and dj: "mcu_disjoint (hw_mcu s)" and kok: "km_ok (hw_k s)"
    using ok by (simp_all add: hw_ok_def)
  have "mailbox_mails ?in (hw_mem s) = w # ws"
    using first by (simp add: inbox_def)
  with iok kok k show thesis
  proof (rule al5_mailbox_read_refines)
    fix mem'
    assume r: "al5_mailbox_read ?in (hw_mem s) (hw_k s) =
        Some (mail_of_wire w, mem', km_step 3 1 (hw_k s))"
      "mailbox_ok ?in mem'" "mailbox_mails ?in mem' = ws"
      and fr: "\<And>a. a \<notin> {box_head ?in ..< box_tail ?in} \<Longrightarrow> mem' a = hw_mem s a"
    have same: "mem' a = hw_mem s a" if "a \<in> mailbox_area ?box" for a
    proof (rule fr)
      have "a \<notin> mailbox_area ?in" using that dj by (auto simp: mcu_disjoint_def)
      then show "a \<notin> {box_head ?in ..< box_tail ?in}"
        using mailbox_layout_of_ok [OF iok] by (auto simp: mailbox_area_def mailbox_layout_def)
    qed
    let ?s' = "s\<lparr>hw_mem := mem', hw_k := km_step 3 1 (hw_k s)\<rparr>"
    have out: "mailbox_ok ?box mem'" "mailbox_mails ?box mem' = mailbox_mails ?box (hw_mem s)"
      "box_used ?box mem' = box_used ?box (hw_mem s)"
      using mailbox_cong [OF mailbox_layout_of_ok [OF bok] same] bok by simp_all
    show thesis
    proof (rule that [of ?s'])
      show "al5_mcu_recv s = Some (mail_of_wire w, ?s')"
        using r(1) by (simp add: al5_mcu_recv_def)
    qed (use r out dj kok in \<open>simp_all add: hw_ok_def inbox_def outbox_def outroom_def\<close>)
  qed
qed

section \<open>Signalling\<close>

lemma al5_signal_mcu_frame:
  "hw_frame s (al5_signal_mcu s) \<and>
   (hw_ok s \<longrightarrow> outbox (al5_signal_mcu s) = outbox s \<and> outroom (al5_signal_mcu s) = outroom s)"
proof -
  let ?box = "cpu_to_mcu (hw_mcu s)" and ?in = "mcu_to_cpu (hw_mcu s)"
  let ?mem = "iowrite32 1 (interrupt_register (hw_mcu s)) (hw_mem s)"
  have same: "?mem a = hw_mem s a" 
    if "mcu_disjoint (hw_mcu s)" "a \<in> mailbox_area ?box \<union> mailbox_area ?in" for a
  proof -
    have "a \<notin> {interrupt_register (hw_mcu s) ..< interrupt_register (hw_mcu s) + 4}"
      using that by (auto simp: mcu_disjoint_def)
    then show ?thesis by (auto simp: iowrite32_outside)
  qed
  have "mailbox_ok b ?mem = mailbox_ok b (hw_mem s) \<and>
      mailbox_mails b ?mem = mailbox_mails b (hw_mem s) \<and>
      box_used b ?mem = box_used b (hw_mem s)"
    if "hw_ok s" "b = ?box \<or> b = ?in" for b
    using that same mailbox_cong [of b ?mem "hw_mem s"] by (auto simp: hw_ok_def mailbox_ok_def)
  then show ?thesis
    by (auto simp: hw_frame_def hw_ok_def al5_signal_mcu_def inbox_def outbox_def outroom_def)
qed

lemma al5_signal_mcu_signals: 
  "ioread32 (interrupt_register (hw_mcu s)) (hw_mem (al5_signal_mcu s)) = 1"
  by (simp add: al5_signal_mcu_def)

lemma al5_signal_mcu_sel [simp]:
  "hw_mcu (al5_signal_mcu s) = hw_mcu s" "hw_k (al5_signal_mcu s) = hw_k s"
  "hw_d (al5_signal_mcu s) = hw_d s"
  by (simp_all add: al5_signal_mcu_def)

section \<open>Creation\<close>

text \<open>With the intended size the interface starts with two empty mailboxes.\<close>

lemma mcu_interface_create_sized_ok:
  assumes k: "km_nofail k" and sz: "sizeof_mcu_interface \<le> n"
    and cmd: "al5_mailbox_init (cmd_base config) (cmd_size config) mem = (cmd, mem1)"
    and status: "al5_mailbox_init (status_base config) (status_size config) mem1 = (status, mem2)"
  shows "mcu_interface_create_sized n config irq mem k =
    Some (0, Some \<lparr>mcu_to_cpu = status, cpu_to_mcu = cmd, interrupt_register = irq\<rparr>, mem2,
          km_step 3 3 k)"
proof -
  have m: "\<exists>bs. kmalloc i (km_step j l k) = (Some bs, km_step (Suc j) (l + 1) k)" for i j l
    using k by (auto simp: kmalloc_def Let_def km_step_def km_nofail_def)
  from m [of n 0 0] m [of sizeof_mailbox 1 1] m [of sizeof_mailbox 2 2]
  show ?thesis
    using sz cmd status
    by (auto simp: mcu_interface_create_sized_def store_field_def sizeof_mcu_interface_def
        numeral_eq_Suc)
qed

text \<open>With the size the code passes, no call succeeds: once the first two blocks are there, the
  store to the second field is outside the first one.\<close>

lemma al5_mcu_interface_create_overrun:
  assumes "km_oracle k (km_calls k) sizeof_pointer \<noteq> None"
    and "km_oracle k (Suc (km_calls k)) sizeof_mailbox \<noteq> None"
  shows "al5_mcu_interface_create config irq mem k = None"
  using assms
  by (auto simp: al5_mcu_interface_create_def mcu_interface_create_sized_def kmalloc_def Let_def
      store_field_def sizeof_pointer_def)

text \<open>With the size of the structure the interface is in order.\<close>

lemma mcu_interface_create_areas:
  assumes k: "km_ok k" "km_nofail k"
    and sizes: "4 dvd unat (cmd_size c)" "0 < unat (cmd_size c)" "unat (cmd_size c) \<le> 2 ^ 16"
      "4 dvd unat (status_size c)" "0 < unat (status_size c)" "unat (status_size c) \<le> 2 ^ 16"
    and areas: "cmd_base c + 8 + unat (cmd_size c) \<le> status_base c"
      "status_base c + 8 + unat (status_size c) \<le> irq" and n: "sizeof_mcu_interface \<le> n"
  shows "\<exists>mcu mem'. mcu_interface_create_sized n c irq mem k =
      Some (0, Some mcu, mem', km_step 3 3 k) \<and>
    mailbox_area (cpu_to_mcu mcu) = {cmd_base c ..< cmd_base c + 8 + unat (cmd_size c)} \<and>
    mailbox_area (mcu_to_cpu mcu) = {status_base c ..< status_base c + 8 + unat (status_size c)} \<and>
    interrupt_register mcu = irq \<and>
    (\<forall>d. let s = \<lparr>hw_mem = mem', hw_mcu = mcu, hw_k = km_step 3 3 k, hw_d = d\<rparr>
      in hw_ok s \<and> outbox s = [] \<and> inbox s = [])"
proof -
  obtain cmd mem1 status mem2 where
    i1: "al5_mailbox_init (cmd_base c) (cmd_size c) mem = (cmd, mem1)" and
    i2: "al5_mailbox_init (status_base c) (status_size c) mem1 = (status, mem2)"
    by (metis surj_pair)
  note c1 = al5_mailbox_init_ok [OF sizes(1-3) i1]
  note c2 = al5_mailbox_init_ok [OF sizes(4-6) i2]
  have same: "mem2 a = mem1 a" if "a \<in> mailbox_area cmd" for a
    using that areas c1(4) c2(4) by (intro c2(5)) auto
  have lay: "mailbox_layout cmd" using c1(1) by (rule mailbox_layout_of_ok)
  have m: "mailbox_ok cmd mem2" "mailbox_mails cmd mem2 = []"
    using mailbox_cong [OF lay same] c1 by simp_all
  have dj: "mcu_disjoint \<lparr>mcu_to_cpu = status, cpu_to_mcu = cmd, interrupt_register = irq\<rparr>"
    using areas c1(4) c2(4) by (auto simp: mcu_disjoint_def)
  have "mcu_interface_create_sized n c irq mem k =
      Some (0, Some \<lparr>mcu_to_cpu = status, cpu_to_mcu = cmd, interrupt_register = irq\<rparr>, mem2,
            km_step 3 3 k)"
    using k(2) n i1 i2 by (rule mcu_interface_create_sized_ok)
  then show ?thesis
    using m c1(4) c2 dj k by (simp add: hw_ok_def outbox_def inbox_def Let_def)
qed

section \<open>Properties of the interface\<close>

text \<open>C38: \<open>al5_mcu_interface_create\<close> passes the size of a pointer where the structure needs 40
  bytes. With that size every call in which the first two allocations succeed stores outside
  the block (it has undefined behaviour); with the structure's size the same code ends in two
  well-formed, empty mailboxes that are disjoint when the configured areas are.\<close>

theorem al5_mcu_interface_create_size:
  assumes k: "km_ok k" "km_nofail k"
    and sizes: "4 dvd unat (cmd_size c)" "0 < unat (cmd_size c)" "unat (cmd_size c) \<le> 2 ^ 16"
      "4 dvd unat (status_size c)" "0 < unat (status_size c)" "unat (status_size c) \<le> 2 ^ 16"
    and areas: "cmd_base c + 8 + unat (cmd_size c) \<le> status_base c"
      "status_base c + 8 + unat (status_size c) \<le> irq"
  shows "al5_mcu_interface_create c irq mem k = None \<and>
    (\<exists>mcu mem'. mcu_interface_create_sized sizeof_mcu_interface c irq mem k =
       Some (0, Some mcu, mem', km_step 3 3 k) \<and>
       (let s = \<lparr>hw_mem = mem', hw_mcu = mcu, hw_k = km_step 3 3 k, hw_d = d\<rparr>
        in hw_ok s \<and> outbox s = [] \<and> inbox s = []))"
proof -
  have "al5_mcu_interface_create c irq mem k = None"
    using k(2) by (intro al5_mcu_interface_create_overrun) (simp_all add: km_nofail_def)
  then show ?thesis
    using mcu_interface_create_areas [OF k sizes areas order_refl, of mem] by (auto simp: Let_def)
qed

text \<open>The layout \<open>al5_codec_set_up\<close> uses, for registers at 0.\<close>

definition config_7000 :: mcu_mailbox_config where
  "config_7000 = \<lparr>cmd_base = 0x7000, status_base = 0x7800, cmd_size = 0x7f8, status_size = 0x7f8\<rparr>"

theorem al5_mcu_interface_create_size_witness:
  "al5_mcu_interface_create config_7000 0x9100 (\<lambda>_. 0) kmem0 = None \<and>
    (\<exists>mcu mem'. mcu_interface_create_sized sizeof_mcu_interface config_7000 0x9100 (\<lambda>_. 0) kmem0 =
       Some (0, Some mcu, mem', km_step 3 3 kmem0) \<and>
       (let s = \<lparr>hw_mem = mem', hw_mcu = mcu, hw_k = km_step 3 3 kmem0, hw_d = dsys7\<rparr>
        in hw_ok s \<and> outbox s = [] \<and> inbox s = []))"
  by (rule al5_mcu_interface_create_size) (simp_all add: config_7000_def)

end
