(* ===== verification/Al_List.thy ===== *)
theory Al_List
  imports Prelude
begin

text \<open>
  The linked list of mails (\<open>common/al_list.c\<close>), on an explicit heap of nodes: a list is a
  pointer to its first node, and \<open>push\<close> walks to the last node to append. The locale
  \<open>mail_list\<close> is the contract the queues rely on; it is interpreted on the heap of nodes and on
  the plain lists the upper layers of the model keep in place of it.
\<close>

section \<open>The code\<close>

record 'm al5_list =
  list_mail :: 'm
  list_next :: "addr option"

type_synonym 'm node_heap = "addr \<rightharpoonup> 'm al5_list"

definition al5_list_init :: "addr option" where
  "al5_list_init = None"

definition al5_list_empty :: "addr option \<Rightarrow> bool" where
  "al5_list_empty l \<longleftrightarrow> l = None"

text \<open>The walk of \<open>push\<close>, which would not end on a cyclic list.\<close>

partial_function (option) last_node :: "'m node_heap \<Rightarrow> addr \<Rightarrow> addr option" where
  "last_node h p =
     (case h p of
        None \<Rightarrow> None
      | Some n \<Rightarrow> (case list_next n of None \<Rightarrow> Some p | Some q \<Rightarrow> last_node h q))"

text \<open>\<open>new\<close> is the pointer \<open>kmalloc\<close> returns in this call; it is not compared with NULL.\<close>

definition al5_list_push ::
    "addr option \<Rightarrow> addr option \<Rightarrow> 'm \<Rightarrow> 'm node_heap \<Rightarrow> (addr option \<times> 'm node_heap) option"
  where
  "al5_list_push new l mail h =
     (case l of
        None \<Rightarrow> do {
          a \<leftarrow> deref new;
          Some (Some a, h(a \<mapsto> \<lparr>list_mail = mail, list_next = None\<rparr>))
        }
      | Some first_pos \<Rightarrow> do {
          p \<leftarrow> last_node h first_pos;
          n \<leftarrow> h p;
          a \<leftarrow> deref new;
          Some (Some first_pos,
                h(p \<mapsto> n\<lparr>list_next := Some a\<rparr>, a \<mapsto> \<lparr>list_mail = mail, list_next = None\<rparr>))
        })"

definition al5_list_pop ::
    "addr option \<Rightarrow> 'm node_heap \<Rightarrow> ('m option \<times> addr option \<times> 'm node_heap) option" where
  "al5_list_pop l h =
     (case l of
        None \<Rightarrow> Some (None, None, h)
      | Some p \<Rightarrow> do {
          n \<leftarrow> h p;
          Some (Some (list_mail n), list_next n, h(p := None))
        })"

text \<open>The mails are freed in the order they are popped; the result lists them. The final
  \<open>kfree\<close> of the NULL list pointer does nothing.\<close>

partial_function (option) al5_list_empty_and_destroy ::
    "'m list \<Rightarrow> addr option \<Rightarrow> 'm node_heap \<Rightarrow> ('m list \<times> 'm node_heap) option" where
  "al5_list_empty_and_destroy freed l h =
     (if al5_list_empty l then Some (freed, h)
      else (case al5_list_pop l h of
              None \<Rightarrow> None
            | Some (mail, l, h) \<Rightarrow>
                (case mail of
                   None \<Rightarrow> al5_list_empty_and_destroy freed l h
                 | Some m \<Rightarrow> al5_list_empty_and_destroy (freed @ [m]) l h)))"

section \<open>Well-formed lists\<close>

text \<open>\<open>list_at h l xs\<close>: from \<open>l\<close>, the nodes at the addresses of \<open>xs\<close> hold its mails.\<close>

fun list_at :: "'m node_heap \<Rightarrow> addr option \<Rightarrow> (addr \<times> 'm) list \<Rightarrow> bool" where
  "list_at h l [] \<longleftrightarrow> l = None"
| "list_at h l ((a, m) # xs) \<longleftrightarrow>
     l = Some a \<and> (\<exists>q. h a = Some \<lparr>list_mail = m, list_next = q\<rparr> \<and> list_at h q xs) \<and>
     a \<notin> fst ` set xs"

lemma list_at_cong:
  "(\<And>a. a \<in> fst ` set xs \<Longrightarrow> h' a = h a) \<Longrightarrow> list_at h' l xs = list_at h l xs"
  by (induction xs arbitrary: l) auto

lemma list_at_upd_other [simp]: "a \<notin> fst ` set xs \<Longrightarrow> list_at (h(a := n)) l xs = list_at h l xs"
  by (rule list_at_cong) auto

lemma list_at_node: "list_at h l xs \<Longrightarrow> (a, m) \<in> set xs \<Longrightarrow> \<exists>q. h a = Some \<lparr>list_mail = m, list_next = q\<rparr>"
  by (induction xs arbitrary: l) auto

lemma list_at_dom: "list_at h l xs \<Longrightarrow> a \<in> fst ` set xs \<Longrightarrow> h a \<noteq> None"
  using list_at_node by fastforce

lemma list_at_unique: "list_at h l xs \<Longrightarrow> list_at h l ys \<Longrightarrow> xs = ys"
proof (induction xs arbitrary: l ys)
  case Nil
  then show ?case by (cases ys) auto
next
  case (Cons x xs)
  then show ?case by (cases x; cases ys) auto
qed

text \<open>On a well-formed list the walk ends at its last node.\<close>

lemma last_node_list_at:
  "list_at h (Some p) xs \<Longrightarrow> xs \<noteq> [] \<Longrightarrow> last_node h p = Some (fst (last xs))"
proof (induction xs arbitrary: p)
  case Nil
  then show ?case by simp
next
  case (Cons x xs)
  obtain a m where x: "x = (a, m)" by (cases x)
  with Cons.prems obtain q where q: "p = a" "h a = Some \<lparr>list_mail = m, list_next = q\<rparr>"
    "list_at h q xs" by auto
  show ?case
  proof (cases xs)
    case Nil
    with q x show ?thesis by (simp add: last_node.simps)
  next
    case (Cons y ys)
    with q obtain b where "q = Some b" by (cases y) auto
    with q x Cons Cons.IH [of b] show ?thesis by (simp add: last_node.simps)
  qed
qed

text \<open>Hanging a new node behind the last one.\<close>

lemma list_at_append:
  assumes "list_at h l (xs @ [(p, m)])" "a \<notin> fst ` set (xs @ [(p, m)])"
  shows "list_at (h(p \<mapsto> \<lparr>list_mail = m, list_next = Some a\<rparr>,
                    a \<mapsto> \<lparr>list_mail = m', list_next = None\<rparr>)) l (xs @ [(p, m), (a, m')])"
  using assms by (induction xs arbitrary: l) auto

section \<open>The contract of a list of mails\<close>

locale mail_list =
  fixes ok :: "'s \<Rightarrow> bool"
    and mails :: "'s \<Rightarrow> 'm list"
    and fresh :: "'a \<Rightarrow> 's \<Rightarrow> bool"
    and is_empty :: "'s \<Rightarrow> bool"
    and push :: "'a \<Rightarrow> 'm \<Rightarrow> 's \<Rightarrow> 's option"
    and pop :: "'s \<Rightarrow> ('m option \<times> 's) option"
  assumes empty_iff: "ok s \<Longrightarrow> is_empty s \<longleftrightarrow> mails s = []"
    and push_last: "ok s \<Longrightarrow> fresh a s \<Longrightarrow>
      \<exists>s'. push a m s = Some s' \<and> ok s' \<and> mails s' = mails s @ [m]"
    and pop_none: "ok s \<Longrightarrow> mails s = [] \<Longrightarrow> pop s = Some (None, s)"
    and pop_first: "ok s \<Longrightarrow> mails s = m # ms \<Longrightarrow>
      \<exists>s'. pop s = Some (Some m, s') \<and> ok s' \<and> mails s' = ms"
begin

text \<open>A pop takes the oldest mail, whatever was pushed behind it.\<close>

lemma pop_oldest:
  assumes "ok s" "fresh a s" "mails s = x # xs"
  shows "\<exists>s' s''. push a m s = Some s' \<and> pop s' = Some (Some x, s'') \<and> ok s'' \<and>
    mails s'' = xs @ [m]"
  using push_last [OF assms(1,2), of m] assms(3) pop_first by fastforce

lemma push_pop_singleton:
  assumes "ok s" "fresh a s" "is_empty s"
  shows "\<exists>s' s''. push a m s = Some s' \<and> pop s' = Some (Some m, s'') \<and> ok s'' \<and> is_empty s''"
proof -
  from assms obtain s' where s': "push a m s = Some s'" "ok s'" "mails s' = [m]"
    using push_last [OF assms(1,2), of m] empty_iff [OF assms(1)] by auto
  from pop_first [OF s'(2,3)] obtain s'' where "pop s' = Some (Some m, s'')" "ok s''"
    "mails s'' = []" by auto
  with s' empty_iff show ?thesis by auto
qed

end

section \<open>The heap of nodes satisfies it\<close>

text \<open>A state is the list pointer and the heap. The mails are read off by a walk.\<close>

type_synonym 'm list_state = "addr option \<times> 'm node_heap"

partial_function (option) walk :: "'m node_heap \<Rightarrow> (addr \<times> 'm) list \<Rightarrow> addr option \<Rightarrow> (addr \<times> 'm) list option"
  where
  "walk h xs l =
     (case l of
        None \<Rightarrow> Some xs
      | Some p \<Rightarrow> (case h p of None \<Rightarrow> None
                    | Some n \<Rightarrow> walk h (xs @ [(p, list_mail n)]) (list_next n)))"

definition list_ok :: "'m list_state \<Rightarrow> bool" where
  "list_ok s \<longleftrightarrow> (\<exists>xs. list_at (snd s) (fst s) xs)"

definition list_mails :: "'m list_state \<Rightarrow> 'm list" where
  "list_mails s = map snd (the (walk (snd s) [] (fst s)))"

definition list_fresh :: "addr option \<Rightarrow> 'm list_state \<Rightarrow> bool" where
  "list_fresh new s \<longleftrightarrow> (\<exists>a. new = Some a \<and> snd s a = None)"

definition list_push :: "addr option \<Rightarrow> 'm \<Rightarrow> 'm list_state \<Rightarrow> 'm list_state option" where
  "list_push new m s = al5_list_push new (fst s) m (snd s)"

definition list_pop :: "'m list_state \<Rightarrow> ('m option \<times> 'm list_state) option" where
  "list_pop s = al5_list_pop (fst s) (snd s)"

lemma walk_list_at: "list_at h l xs \<Longrightarrow> walk h ys l = Some (ys @ xs)"
proof (induction xs arbitrary: l ys)
  case Nil
  then show ?case by (simp add: walk.simps)
next
  case (Cons x xs)
  then show ?case by (cases x) (auto simp: walk.simps)
qed

lemma list_mails_at: "list_at h l xs \<Longrightarrow> list_mails (l, h) = map snd xs"
  by (simp add: list_mails_def walk_list_at)

lemma al5_list_push_at:
  assumes "list_at h l xs" "h a = None"
  shows "\<exists>l' h'. al5_list_push (Some a) l m h = Some (l', h') \<and> list_at h' l' (xs @ [(a, m)])"
proof (cases xs rule: rev_cases)
  case Nil
  with assms show ?thesis by (simp add: al5_list_push_def)
next
  case (snoc ys y)
  obtain p x where y: "y = (p, x)" by (cases y)
  from assms snoc obtain q where l: "l = Some q" by (cases ys) (auto simp: y)
  have last: "last_node h q = Some p"
    using last_node_list_at [of h q xs] assms l snoc y by simp
  have hp: "h p = Some \<lparr>list_mail = x, list_next = None\<rparr>"
    using assms(1) unfolding snoc y by (induction ys arbitrary: l) auto
  have "a \<notin> fst ` set (ys @ [(p, x)])"
    using list_at_dom [OF assms(1)] assms(2) snoc y by blast
  with assms(1) have "list_at (h(p \<mapsto> \<lparr>list_mail = x, list_next = Some a\<rparr>,
      a \<mapsto> \<lparr>list_mail = m, list_next = None\<rparr>)) l (ys @ [(p, x), (a, m)])"
    unfolding snoc y by (rule list_at_append)
  with last hp l snoc y show ?thesis by (simp add: al5_list_push_def)
qed

interpretation node_list: mail_list list_ok list_mails list_fresh "al5_list_empty \<circ> fst"
  list_push list_pop
proof unfold_locales
  fix s :: "'m list_state"
  assume "list_ok s"
  then obtain xs where "list_at (snd s) (fst s) xs" by (auto simp: list_ok_def)
  moreover from this have "list_mails s = map snd xs"
    using list_mails_at [of "snd s" "fst s" xs] by simp
  ultimately show "(al5_list_empty \<circ> fst) s = (list_mails s = [])"
    by (cases xs) (auto simp: al5_list_empty_def)
next
  fix s :: "'m list_state" and a m
  assume "list_ok s" "list_fresh a s"
  then obtain xs b where "list_at (snd s) (fst s) xs" "a = Some b" "snd s b = None"
    by (auto simp: list_ok_def list_fresh_def)
  with al5_list_push_at [of "snd s" "fst s" xs b m] list_mails_at [of "snd s" "fst s" xs]
  show "\<exists>s'. list_push a m s = Some s' \<and> list_ok s' \<and> list_mails s' = list_mails s @ [m]"
    by (fastforce simp: list_push_def list_ok_def list_mails_at)
next
  fix s :: "'m list_state"
  assume "list_ok s" "list_mails s = []"
  then show "list_pop s = Some (None, s)"
    by (cases s; cases "fst s") (auto simp: list_ok_def list_mails_at list_pop_def
        al5_list_pop_def split: prod.splits)
next
  fix s :: "'m list_state" and m ms
  assume "list_ok s" and m: "list_mails s = m # ms"
  then obtain xs where xs: "list_at (snd s) (fst s) xs" by (auto simp: list_ok_def)
  with m list_mails_at [of "snd s" "fst s" xs] obtain a ys where "xs = (a, m) # ys" "map snd ys = ms"
    by auto
  with xs obtain q where q: "fst s = Some a" "snd s a = Some \<lparr>list_mail = m, list_next = q\<rparr>"
    "list_at ((snd s)(a := None)) q ys" by auto
  then show "\<exists>s'. list_pop s = Some (Some m, s') \<and> list_ok s' \<and> list_mails s' = ms"
    using \<open>map snd ys = ms\<close>
    by (auto simp: list_pop_def al5_list_pop_def list_ok_def list_mails_at)
qed

text \<open>Destroying a list frees its mails in order and leaves no node of it behind.\<close>

lemma al5_list_empty_and_destroy_at:
  "list_at h l xs \<Longrightarrow> al5_list_empty_and_destroy freed l h =
     Some (freed @ map snd xs, h |` (- fst ` set xs))"
proof (induction xs arbitrary: l h freed)
  case Nil
  then show ?case by (simp add: al5_list_empty_and_destroy.simps al5_list_empty_def)
next
  case (Cons x xs)
  obtain a m where x: "x = (a, m)" by (cases x)
  with Cons.prems obtain q where q: "l = Some a" "h a = Some \<lparr>list_mail = m, list_next = q\<rparr>"
    "list_at (h(a := None)) q xs" by auto
  have "al5_list_empty_and_destroy freed l h =
      al5_list_empty_and_destroy (freed @ [m]) q (h(a := None))"
    using q by (subst al5_list_empty_and_destroy.simps)
      (simp add: al5_list_empty_def al5_list_pop_def)
  also have "\<dots> = Some ((freed @ [m]) @ map snd xs, (h(a := None)) |` (- fst ` set xs))"
    using q(3) by (rule Cons.IH)
  also have "(h(a := None)) |` (- fst ` set xs) = h |` (- fst ` set (x # xs))"
    by (rule ext) (simp add: restrict_map_def x)
  finally show ?case by (simp add: x)
qed

text \<open>A failed allocation in \<open>push\<close> is followed through NULL.\<close>

lemma al5_list_push_null: "al5_list_push None l m h = None"
  by (cases l) (auto simp: al5_list_push_def split: option.splits bind_splits)

section \<open>Properties of the list\<close>

text \<open>C31: on a well-formed list \<open>al5_list_push\<close> ends, appends the mail behind all others and
  \<open>al5_list_pop\<close> then takes the oldest one; destroying a list frees its mails oldest first and
  removes exactly its own nodes. A failed allocation of the node is followed through NULL.\<close>

theorem al5_list_fifo:
  assumes "list_at h l xs" "h a = None"
  shows "(\<exists>l' h' l'' h''. al5_list_push (Some a) l m h = Some (l', h') \<and>
      al5_list_pop l' h' = Some (Some (snd (hd (xs @ [(a, m)]))), l'', h'') \<and>
      list_at h'' l'' (tl (xs @ [(a, m)]))) \<and>
    al5_list_empty_and_destroy [] l h = Some (map snd xs, h |` (- fst ` set xs)) \<and>
    al5_list_push None l m h = None"
proof -
  from al5_list_push_at [OF assms, of m] obtain l' h' where
    p: "al5_list_push (Some a) l m h = Some (l', h')" "list_at h' l' (xs @ [(a, m)])" by blast
  obtain b x ys where ys: "xs @ [(a, m)] = (b, x) # ys" by (cases xs) auto
  with p(2) obtain q where "l' = Some b" "h' b = Some \<lparr>list_mail = x, list_next = q\<rparr>"
    "list_at (h'(b := None)) q ys" by auto
  with p(1) ys have "\<exists>l' h' l'' h''. al5_list_push (Some a) l m h = Some (l', h') \<and>
      al5_list_pop l' h' = Some (Some (snd (hd (xs @ [(a, m)]))), l'', h'') \<and>
      list_at h'' l'' (tl (xs @ [(a, m)]))"
    by (auto simp: al5_list_pop_def)
  then show ?thesis
    using al5_list_empty_and_destroy_at [OF assms(1)] al5_list_push_null by auto
qed

theorem al5_list_fifo_witness:
  "\<exists>l' h' l'' h''. al5_list_push (Some 2) (Some 1) CHR ''b''
      [1 \<mapsto> \<lparr>list_mail = CHR ''a'', list_next = None\<rparr>] = Some (l', h') \<and>
    al5_list_pop l' h' = Some (Some CHR ''a'', l'', h'') \<and> list_at h'' l'' [(2, CHR ''b'')]"
  using al5_list_fifo [of "[1 \<mapsto> \<lparr>list_mail = CHR ''a'', list_next = None\<rparr>]" "Some 1"
      "[(1, CHR ''a'')]" 2 "CHR ''b''"]
  by simp

end
