(* ===== verification/Al_Queue.thy ===== *)
theory Al_Queue
  imports Al_List Mail
begin

text \<open>
  The queues of received mails (\<open>common/al_queue.c\<close>): a list of mails, and the flag \<open>locked\<close>
  whose clearing releases the waiters. The list is kept as the HOL list that the heap of nodes
  of \<open>Al_List\<close> represents, each node still being a block of the allocator.

  A pop waits first. Waiting is where other threads run, so the model takes the result of the
  wait and the queue as it is when the wait ends: \<open>wait_event_interruptible_timeout\<close> returns 0
  when the time is over and the condition still false, a positive number when the condition
  became true, \<open>-ERESTARTSYS\<close> on a signal.
\<close>

record al5_queue =
  q_list :: "al5_mail list"
  q_locked :: bool

definition sizeof_list_node :: nat where
  "sizeof_list_node = 16"

text \<open>\<open>al5_list_push\<close> and \<open>al5_list_pop\<close> on the represented list.\<close>

definition mails_push :: "al5_mail \<Rightarrow> al5_mail list \<Rightarrow> kmem \<Rightarrow> (al5_mail list \<times> kmem) option" where
  "mails_push mail l k =
     (let (node, k) = kmalloc sizeof_list_node k
      in do { _ \<leftarrow> deref node; Some (l @ [mail], k) })"

definition mails_pop :: "al5_mail list \<Rightarrow> kmem \<Rightarrow> al5_mail option \<times> al5_mail list \<times> kmem" where
  "mails_pop l k = (case l of [] \<Rightarrow> (None, [], k) | m # ms \<Rightarrow> (Some m, ms, kfree k))"

definition al5_queue_init :: al5_queue where
  "al5_queue_init = \<lparr>q_list = [], q_locked = True\<rparr>"

definition mail_is_available :: "al5_queue \<Rightarrow> bool" where
  "mail_is_available q \<longleftrightarrow> \<not> (q_list q = []) \<or> \<not> q_locked q"

text \<open>What the two waits may return in the state in which they end.\<close>

definition wait_timeout_result :: "int \<Rightarrow> al5_queue \<Rightarrow> bool" where
  "wait_timeout_result ret q \<longleftrightarrow>
     ret = - ERESTARTSYS \<or> (0 < ret \<and> mail_is_available q) \<or> (ret = 0 \<and> \<not> mail_is_available q)"

definition wait_result :: "int \<Rightarrow> al5_queue \<Rightarrow> bool" where
  "wait_result ret q \<longleftrightarrow> ret = - ERESTARTSYS \<or> (ret = 0 \<and> mail_is_available q)"

definition al5_queue_pop_timeout ::
    "int \<Rightarrow> al5_queue \<Rightarrow> kmem \<Rightarrow> int \<times> al5_mail option \<times> al5_queue \<times> kmem" where
  "al5_queue_pop_timeout ret q k =
     (let err = ret;
          err = (if err = 0 then - EINVAL
                 else if err > 0 then 0
                 else if err = - ERESTARTSYS then - EINTR
                 else err);
          (mail, l, k) = mails_pop (q_list q) k;
          err = (if mail \<noteq> None then 0 else if err \<noteq> 0 then err else - EINVAL)
      in (err, mail, q\<lparr>q_list := l\<rparr>, k))"

definition al5_queue_pop :: "al5_queue \<Rightarrow> kmem \<Rightarrow> al5_mail option \<times> al5_queue \<times> kmem" where
  "al5_queue_pop q k =
     (let (mail, l, k) = mails_pop (q_list q) k in (mail, q\<lparr>q_list := l\<rparr>, k))"

definition al5_queue_push :: "al5_queue \<Rightarrow> al5_mail \<Rightarrow> kmem \<Rightarrow> (al5_queue \<times> kmem) option" where
  "al5_queue_push q mail k = do {
     (l, k) \<leftarrow> mails_push mail (q_list q) k;
     Some (q\<lparr>q_list := l\<rparr>, k)
   }"

definition al5_queue_unlock :: "al5_queue \<Rightarrow> al5_queue" where
  "al5_queue_unlock q = q\<lparr>q_locked := False\<rparr>"

definition al5_queue_lock :: "al5_queue \<Rightarrow> al5_queue" where
  "al5_queue_lock q = q\<lparr>q_locked := True\<rparr>"

section \<open>The represented lists satisfy the list contract\<close>

lemma mails_push_eq:
  assumes "km_ok k" "km_nofail k"
  shows "mails_push m l k = Some (l @ [m], km_step 1 1 k)"
proof -
  obtain bs where "kmalloc sizeof_list_node k = (Some bs, km_step 1 1 k)"
    using assms by (rule kmalloc_Some)
  then show ?thesis by (simp add: mails_push_def)
qed

lemma mails_pop_simps [simp]:
  "mails_pop [] k = (None, [], k)"
  "mails_pop (m # ms) k = (Some m, ms, km_step 0 (- 1) k)"
  by (simp_all add: mails_pop_def kfree_step)

definition kmails_ok :: "al5_mail list \<times> kmem \<Rightarrow> bool" where
  "kmails_ok s \<longleftrightarrow> km_ok (snd s) \<and> km_nofail (snd s)"

definition kmails_push ::
    "unit \<Rightarrow> al5_mail \<Rightarrow> al5_mail list \<times> kmem \<Rightarrow> (al5_mail list \<times> kmem) option" where
  "kmails_push _ m s = mails_push m (fst s) (snd s)"

definition kmails_pop ::
    "al5_mail list \<times> kmem \<Rightarrow> (al5_mail option \<times> al5_mail list \<times> kmem) option" where
  "kmails_pop s = Some (mails_pop (fst s) (snd s))"

interpretation kmails: mail_list kmails_ok fst "\<lambda>_ _. True" "\<lambda>s. fst s = []"
  kmails_push kmails_pop
  by unfold_locales
     (auto simp: kmails_ok_def kmails_push_def kmails_pop_def mails_push_eq)

section \<open>What a pop returns\<close>

lemma al5_queue_pop_simps:
  "q_list q = [] \<Longrightarrow> al5_queue_pop q k = (None, q, k)"
  "q_list q = m # ms \<Longrightarrow> al5_queue_pop q k = (Some m, q\<lparr>q_list := ms\<rparr>, km_step 0 (- 1) k)"
  by (simp_all add: al5_queue_pop_def)

lemma al5_queue_push_eq:
  assumes "km_ok k" "km_nofail k"
  shows "al5_queue_push q m k = Some (q\<lparr>q_list := q_list q @ [m]\<rparr>, km_step 1 1 k)"
  using mails_push_eq [OF assms] by (simp add: al5_queue_push_def)

lemma al5_queue_pop_timeout_mail:
  "q_list q = m # ms \<Longrightarrow>
   al5_queue_pop_timeout ret q k = (0, Some m, q\<lparr>q_list := ms\<rparr>, km_step 0 (- 1) k)"
  by (simp add: al5_queue_pop_timeout_def)

lemma al5_queue_pop_timeout_none:
  assumes "q_list q = []" "wait_timeout_result ret q"
  shows "al5_queue_pop_timeout ret q k =
    ((if ret = - ERESTARTSYS then - EINTR else - EINVAL), None, q, k)"
  using assms by (auto simp: al5_queue_pop_timeout_def wait_timeout_result_def)

lemma al5_queue_lock_unlock [simp]:
  "q_list (al5_queue_lock q) = q_list q" "q_list (al5_queue_unlock q) = q_list q"
  "q_locked (al5_queue_lock q)" "\<not> q_locked (al5_queue_unlock q)"
  "mail_is_available (al5_queue_unlock q)"
  by (simp_all add: al5_queue_lock_def al5_queue_unlock_def mail_is_available_def)

section \<open>Properties of the queues\<close>

text \<open>When the wait of \<open>al5_queue_pop_timeout\<close> ends, the call returns 0 and the oldest mail
  whenever the queue holds one, whatever ended the wait; on an empty queue it returns
  \<open>-EINTR\<close> if a signal ended the wait, else \<open>-EINVAL\<close> (timeout, or a waiter released by
  \<open>al5_queue_unlock\<close>), with no mail and the queue unchanged.\<close>

theorem al5_queue_pop_timeout_spec:
  assumes "wait_timeout_result ret q"
  shows "al5_queue_pop_timeout ret q k =
    (case q_list q of
       m # ms \<Rightarrow> (0, Some m, q\<lparr>q_list := ms\<rparr>, km_step 0 (- 1) k)
     | [] \<Rightarrow> (if ret = - ERESTARTSYS then - EINTR else - EINVAL, None, q, k))"
  using assms
  by (cases "q_list q") (simp_all add: al5_queue_pop_timeout_mail al5_queue_pop_timeout_none)

theorem al5_queue_pop_timeout_spec_witness:
  "al5_queue_pop_timeout 1 (al5_queue_unlock al5_queue_init) kmem0 =
     (- EINVAL, None, al5_queue_unlock al5_queue_init, kmem0)"
  using al5_queue_pop_timeout_spec [of 1 "al5_queue_unlock al5_queue_init" kmem0]
  by (simp add: wait_timeout_result_def al5_queue_init_def al5_queue_unlock_def
      mail_is_available_def)

end
