(* ===== verification/Buffers_Pool.thy ===== *)
theory Buffers_Pool
  imports Dma
begin

text \<open>
  The pools of DMA buffers of an encoder channel (\<open>common/al_buffers_pool.c\<close>). The arrays
  \<open>buffers\<close> and \<open>handles\<close> are NULL or have the length they were allocated with; an entry not yet
  set is NULL. Reading outside an array, or through a NULL array, is undefined.
\<close>

section \<open>The code\<close>

record al5_buffers_pool =
  bp_count :: int
  bp_buffers :: "al5_dma_buffer option list option"
  bp_handles :: "int list option"

text \<open>The structure after \<open>memset\<close> with zero.\<close>

definition al5_bufpool_init :: al5_buffers_pool where
  "al5_bufpool_init = \<lparr>bp_count = 0, bp_buffers = None, bp_handles = None\<rparr>"

text \<open>\<open>kcalloc\<close> of \<open>n\<close> pointers: the \<open>int\<close> is converted to \<open>size_t\<close>, and a product that does not
  fit in it makes the call fail.\<close>

definition kcalloc_ptrs :: "int \<Rightarrow> kmem \<Rightarrow> bool \<times> kmem" where
  "kcalloc_ptrs n k =
     (let sz = 8 * unat (word_of_int n :: size_t)
      in if 2 ^ 64 \<le> sz then (False, k)
         else case kzalloc sz k of (r, k) \<Rightarrow> (r \<noteq> None, k))"

text \<open>An access to element \<open>i\<close> of an array.\<close>

definition array_get :: "'a list option \<Rightarrow> int \<Rightarrow> 'a option" where
  "array_get arr i = do {
     xs \<leftarrow> deref arr;
     if 0 \<le> i \<and> i < int (length xs) then Some (xs ! nat i) else None
   }"

definition array_set :: "'a list option \<Rightarrow> int \<Rightarrow> 'a \<Rightarrow> 'a list option option" where
  "array_set arr i x = do {
     xs \<leftarrow> deref arr;
     if 0 \<le> i \<and> i < int (length xs) then Some (Some (xs[nat i := x])) else None
   }"

text \<open>\<open>i < bufpool->count\<close>, one \<open>dma_buf_put\<close> per handle.\<close>

fun put_handles :: "nat \<Rightarrow> int \<Rightarrow> int list option \<Rightarrow> dsys \<Rightarrow> dsys option" where
  "put_handles 0 i handles d = Some d"
| "put_handles (Suc n) i handles d = do {
     h \<leftarrow> array_get handles i;
     put_handles n (i + 1) handles (snd (dcall (Dma_buf_put h) d))
   }"

definition kfree_array :: "'a list option \<Rightarrow> kmem \<Rightarrow> kmem" where
  "kfree_array arr k = (if arr \<noteq> None then kfree k else k)"

definition al5_bufpool_free ::
    "al5_buffers_pool \<Rightarrow> kmem \<Rightarrow> dsys \<Rightarrow> (al5_buffers_pool \<times> kmem \<times> dsys) option" where
  "al5_bufpool_free pool k d = do {
     d \<leftarrow> put_handles (nat (bp_count pool)) 0 (bp_handles pool) d;
     Some (al5_bufpool_init, kfree_array (bp_handles pool) (kfree_array (bp_buffers pool) k), d)
   }"

text \<open>The allocation loop from index \<open>i\<close>, for \<open>n\<close> more iterations; the result is whether it ended
  without a failure. A buffer whose export fails is freed, while those exported before are
  left to \<open>al5_bufpool_free\<close>.\<close>

fun fill_pool ::
    "nat \<Rightarrow> int \<Rightarrow> int \<Rightarrow> al5_buffers_pool \<Rightarrow> kmem \<Rightarrow> dsys
      \<Rightarrow> (bool \<times> al5_buffers_pool \<times> kmem \<times> dsys) option" where
  "fill_pool 0 i sz pool k d = Some (True, pool, k, d)"
| "fill_pool (Suc n) i sz pool k d = do {
     let (buf, k, d) = al5_alloc_dma (word_of_int sz) k d;
     bs \<leftarrow> array_set (bp_buffers pool) i buf;
     let pool = pool\<lparr>bp_buffers := bs\<rparr>;
     case buf of
       None \<Rightarrow> Some (False, pool, k, d)
     | Some b \<Rightarrow> do {
         let (h, k, d) = al5_dmabuf_wrap b k d;
         hs \<leftarrow> array_set (bp_handles pool) i h;
         let pool = pool\<lparr>bp_handles := hs\<rparr>;
         if h < 0
         then (let (k, d) = al5_free_dma (Some b) k d in Some (False, pool, k, d))
         else fill_pool n (i + 1) sz (pool\<lparr>bp_count := bp_count pool + 1\<rparr>) k d
       }
   }"

definition al5_bufpool_allocate ::
    "al5_buffers_pool \<Rightarrow> int \<Rightarrow> int \<Rightarrow> kmem \<Rightarrow> dsys
      \<Rightarrow> (int \<times> al5_buffers_pool \<times> kmem \<times> dsys) option" where
  "al5_bufpool_allocate pool count sz k d =
     (let pool = pool\<lparr>bp_count := 0\<rparr>;
          (ok, k) = kcalloc_ptrs count k
      in if \<not> ok then Some (- ENOMEM, pool\<lparr>bp_buffers := None\<rparr>, k, d)
         else let pool = pool\<lparr>bp_buffers := Some (replicate (nat count) None)\<rparr>;
                  (ok, k) = kcalloc_ptrs count k
         in if \<not> ok then Some (- ENOMEM, pool\<lparr>bp_handles := None\<rparr>, kfree k, d)
            else do {
              let pool = pool\<lparr>bp_handles := Some (replicate (nat count) 0)\<rparr>;
              (ok, pool, k, d) \<leftarrow> fill_pool (nat count) 0 sz pool k d;
              if ok then Some (0, pool, k, d)
              else do {
                (pool, k, d) \<leftarrow> al5_bufpool_free pool k d;
                Some (- ENOMEM, pool, k, d)
              }
            })"

text \<open>The search loop, for \<open>n\<close> more handles from index \<open>i\<close>.\<close>

fun find_handle :: "nat \<Rightarrow> int \<Rightarrow> int list option \<Rightarrow> int \<Rightarrow> int option" where
  "find_handle 0 i handles h = Some (- 1)"
| "find_handle (Suc n) i handles h = do {
     h' \<leftarrow> array_get handles i;
     if h = h' then Some i else find_handle n (i + 1) handles h
   }"

definition al5_bufpool_get_id ::
    "al5_buffers_pool \<Rightarrow> int \<Rightarrow> dsys \<Rightarrow> (int \<times> dsys) option" where
  "al5_bufpool_get_id pool fd d =
     (let (handle, d) = dcall (Dma_buf_get fd) d
      in if handle < 0 then Some (- 1, d)
         else do {
           i \<leftarrow> find_handle (nat (bp_count pool)) 0 (bp_handles pool) handle;
           Some (i, snd (dcall (Dma_buf_put handle) d))
         })"

definition al5_bufpool_reserve_fd ::
    "al5_buffers_pool \<Rightarrow> int \<Rightarrow> dsys \<Rightarrow> (int \<times> dsys) option" where
  "al5_bufpool_reserve_fd pool idx d = do {
     dbuf \<leftarrow> array_get (bp_handles pool) idx;
     let (fd, d) = dcall (Dma_buf_fd dbuf) d;
     let (_, d) = dcall (Dma_buf_get fd) d;
     Some (fd, d)
   }"

section \<open>Well-formed pools\<close>

text \<open>A pool owns \<open>count\<close> exported buffers, or nothing.\<close>

definition pool_ok :: "al5_buffers_pool \<Rightarrow> bool" where
  "pool_ok p \<longleftrightarrow> 0 \<le> bp_count p \<and>
     (case (bp_buffers p, bp_handles p) of
        (Some bs, Some hs) \<Rightarrow>
          length bs = nat (bp_count p) \<and> length hs = nat (bp_count p) \<and>
          (\<forall>b \<in> set bs. b \<noteq> None) \<and> (\<forall>h \<in> set hs. 0 < h)
      | (None, None) \<Rightarrow> bp_count p = 0
      | _ \<Rightarrow> False)"

definition pool_handles :: "al5_buffers_pool \<Rightarrow> int list" where
  "pool_handles p = (case bp_handles p of None \<Rightarrow> [] | Some hs \<Rightarrow> hs)"

definition pool_buffers :: "al5_buffers_pool \<Rightarrow> al5_dma_buffer list" where
  "pool_buffers p = (case bp_buffers p of None \<Rightarrow> [] | Some bs \<Rightarrow> map the bs)"

text \<open>The blocks of the two arrays.\<close>

definition pool_blocks :: "al5_buffers_pool \<Rightarrow> int" where
  "pool_blocks p = (if bp_buffers p = None then 0 else 2)"

lemma pool_ok_init [simp]: "pool_ok al5_bufpool_init"
  by (simp add: pool_ok_def al5_bufpool_init_def)

lemma pool_ok_cases:
  assumes "pool_ok p"
  obtains (empty) "p = al5_bufpool_init"
  | (full) bs hs where "bp_count p = int (length hs)" "bp_buffers p = Some (map Some bs)"
      "bp_handles p = Some hs" "length bs = length hs" "\<forall>h \<in> set hs. 0 < h"
proof (cases "bp_handles p")
  case None
  with assms show thesis
    by (intro empty) (cases p, auto simp: pool_ok_def al5_bufpool_init_def split: option.splits)
next
  case (Some hs)
  with assms obtain bs where bs: "bp_buffers p = Some bs" "length bs = nat (bp_count p)"
    "length hs = nat (bp_count p)" "\<forall>b \<in> set bs. b \<noteq> None" "\<forall>h \<in> set hs. 0 < h" "0 \<le> bp_count p"
    by (auto simp: pool_ok_def split: option.splits)
  then have "bs = map Some (map the bs)" by (auto intro: map_idI [symmetric] simp: comp_def)
  with bs Some show thesis by (intro full [of hs "map the bs"]) simp_all
qed

lemma array_get_nth: "i < length xs \<Longrightarrow> array_get (Some xs) (int i) = Some (xs ! i)"
  by (simp add: array_get_def)

lemma array_set_nth: "i < length xs \<Longrightarrow> array_set (Some xs) (int i) x = Some (Some (xs[i := x]))"
  by (simp add: array_set_def)

lemma put_handles_live:
  "n + i \<le> length hs \<Longrightarrow> \<exists>d'. put_handles n (int i) (Some hs) d = Some d' \<and>
    map fst (d_trace d') = map fst (d_trace d) @ map Dma_buf_put (take n (drop i hs)) \<and>
    (\<forall>R. dma_live R d' = dma_live R d - (if R = Buf_ref then int n else 0))"
proof (induction n arbitrary: i d)
  case 0
  then show ?case by simp
next
  case (Suc n)
  let ?d = "snd (dcall (Dma_buf_put (hs ! i)) d)"
  from Suc.IH [of "Suc i" ?d] Suc.prems obtain d' where d':
    "put_handles n (int (Suc i)) (Some hs) ?d = Some d'"
    "map fst (d_trace d') = map fst (d_trace ?d) @ map Dma_buf_put (take n (drop (Suc i) hs))"
    "\<And>R. dma_live R d' = dma_live R ?d - (if R = Buf_ref then int n else 0)"
    by auto
  moreover have "drop i hs = hs ! i # drop (Suc i) hs"
    using Suc.prems by (simp add: Cons_nth_drop_Suc)
  ultimately show ?case
    using Suc.prems by (simp add: array_get_nth add.commute)
qed

section \<open>Freeing\<close>

lemma al5_bufpool_free_live:
  assumes "pool_ok p"
  shows "\<exists>k' d'. al5_bufpool_free p k d = Some (al5_bufpool_init, k', d') \<and>
    km_oracle k' = km_oracle k \<and> km_live k' = km_live k - pool_blocks p \<and>
    map fst (d_trace d') = map fst (d_trace d) @ map Dma_buf_put (pool_handles p) \<and>
    (\<forall>R. dma_live R d' = dma_live R d - (if R = Buf_ref then bp_count p else 0))"
  using assms
proof (cases rule: pool_ok_cases)
  case empty
  then show ?thesis
    by (simp add: al5_bufpool_free_def al5_bufpool_init_def pool_handles_def pool_blocks_def
        kfree_array_def)
next
  case (full bs hs)
  with put_handles_live [of "length hs" 0 hs d] obtain d' where
    "put_handles (length hs) 0 (Some hs) d = Some d'"
    "map fst (d_trace d') = map fst (d_trace d) @ map Dma_buf_put hs"
    "\<forall>R. dma_live R d' = dma_live R d - (if R = Buf_ref then int (length hs) else 0)"
    by auto
  with full show ?thesis
    by (simp add: al5_bufpool_free_def pool_handles_def pool_blocks_def kfree_array_def kfree_step)
qed

section \<open>Filling\<close>

text \<open>The pool in the loop: the first \<open>length hs\<close> entries are set, \<open>n\<close> are not.\<close>

definition partial_pool :: "al5_dma_buffer list \<Rightarrow> int list \<Rightarrow> nat \<Rightarrow> al5_buffers_pool" where
  "partial_pool bs hs n =
     \<lparr>bp_count = int (length hs), bp_buffers = Some (map Some bs @ replicate n None),
      bp_handles = Some (hs @ replicate n 0)\<rparr>"

text \<open>The pool after a failure: at least \<open>count\<close> handles are set.\<close>

definition failed_pool :: "al5_buffers_pool \<Rightarrow> bool" where
  "failed_pool p \<longleftrightarrow> 0 \<le> bp_count p \<and> bp_buffers p \<noteq> None \<and>
     (case bp_handles p of None \<Rightarrow> False | Some hs \<Rightarrow> bp_count p \<le> int (length hs))"

lemma fill_pool_spec:
  assumes "length bs = length hs" "\<forall>h \<in> set hs. 0 < h"
    and "\<forall>b \<in> set bs. dma_size b = ucast (word_of_int sz :: size_t)"
  shows "\<exists>ok p k' d'.
    fill_pool n (int (length hs)) sz (partial_pool bs hs n) k d = Some (ok, p, k', d') \<and>
    km_oracle k' = km_oracle k \<and>
    dma_live Buf_ref d' = dma_live Buf_ref d + (bp_count p - int (length hs)) \<and>
    (if ok
     then pool_ok p \<and> bp_count p = int (length hs + n) \<and>
       km_live k' = km_live k + 3 * int n \<and>
       (\<forall>R \<in> {Coherent, Sg_table, Device_ref}. dma_live R d' = dma_live R d + int n) \<and>
       (\<forall>b \<in> set (pool_buffers p). dma_size b = ucast (word_of_int sz :: size_t))
     else failed_pool p)"
  using assms
proof (induction n arbitrary: bs hs k d)
  case 0
  then show ?case
    by (auto simp: partial_pool_def pool_ok_def pool_buffers_def)
next
  case (Suc n)
  let ?p = "partial_pool bs hs (Suc n)"
  obtain buf k1 d1 where a: "al5_alloc_dma (word_of_int sz) k d = (buf, k1, d1)"
    by (cases "al5_alloc_dma (word_of_int sz) k d") auto
  have set1: "array_set (bp_buffers ?p) (int (length hs)) x =
      Some (Some (map Some bs @ x # replicate n None))" for x
    using array_set_nth [of "length hs" "map Some bs @ replicate (Suc n) None" x] Suc.prems(1)
    by (simp add: partial_pool_def list_update_append del: replicate_Suc)
       (simp add: list_update_append)
  have set2: "array_set (bp_handles ?p) (int (length hs)) x = Some (Some (hs @ x # replicate n 0))"
    for x
    using array_set_nth [of "length hs" "hs @ replicate (Suc n) 0" x]
    by (simp add: partial_pool_def list_update_append del: replicate_Suc)
       (simp add: list_update_append)
  note al = al5_alloc_dma_live [OF a]
  show ?case
  proof (cases buf)
    case None
    then show ?thesis
      using a set1 al [of Buf_ref]
      by (intro exI [of _ False]) (simp add: partial_pool_def failed_pool_def)
  next
    case (Some b)
    have size_b: "dma_size b = ucast (word_of_int sz :: size_t)"
      using a Some by (auto simp: al5_alloc_dma_def Let_def split: option.splits prod.splits if_splits)
    obtain h k2 d2 where w: "al5_dmabuf_wrap b k1 d1 = (h, k2, d2)"
      by (cases "al5_dmabuf_wrap b k1 d1")
    have h0: "h \<noteq> 0"
      using w by (auto simp: al5_dmabuf_wrap_def Let_def split: option.splits prod.splits if_splits)
    show ?thesis
    proof (cases "h < 0")
      case True
      obtain k3 d3 where f: "al5_free_dma (Some b) k2 d2 = (k3, d3)"
        by (cases "al5_free_dma (Some b) k2 d2")
      have "dma_live Buf_ref d2 = dma_live Buf_ref d1"
        using w True by (rule al5_dmabuf_wrap_failed)
      then have "dma_live Buf_ref d3 = dma_live Buf_ref d"
        using al5_free_dma_live [OF f, of Buf_ref] al [of Buf_ref] Some by simp
      moreover have "km_oracle k3 = km_oracle k"
        using al5_free_dma_live [OF f] al5_dmabuf_wrap_oracle [OF w] al by simp
      ultimately show ?thesis
        using a set1 set2 w f True Some Suc.prems(1)
        by (intro exI [of _ False]) (simp add: partial_pool_def failed_pool_def)
    next
      case False
      with h0 have pos: "0 < h" by simp
      from al5_dmabuf_wrap_live [OF w pos] have wl: "km_live k2 = km_live k1 + 2"
        "km_oracle k2 = km_oracle k1"
        "\<And>R. dma_live R d2 = dma_live R d1 + (if R \<in> {Device_ref, Sg_table, Buf_ref} then 1 else 0)"
        by auto
      let ?p' = "partial_pool (bs @ [b]) (hs @ [h]) n"
      have step: "fill_pool (Suc n) (int (length hs)) sz ?p k d =
          fill_pool n (int (length (hs @ [h]))) sz ?p' k2 d2"
        using a set1 set2 w Some False by (simp add: partial_pool_def add.commute)
      from Suc.IH [of "bs @ [b]" "hs @ [h]" k2 d2] Suc.prems pos size_b
      obtain ok p k' d' where
        ih: "fill_pool n (int (length (hs @ [h]))) sz ?p' k2 d2 = Some (ok, p, k', d')"
        "km_oracle k' = km_oracle k2"
        "dma_live Buf_ref d' = dma_live Buf_ref d2 + (bp_count p - int (length (hs @ [h])))"
        "if ok then pool_ok p \<and> bp_count p = int (length (hs @ [h]) + n) \<and>
           km_live k' = km_live k2 + 3 * int n \<and>
           (\<forall>R \<in> {Coherent, Sg_table, Device_ref}. dma_live R d' = dma_live R d2 + int n) \<and>
           (\<forall>b \<in> set (pool_buffers p). dma_size b = ucast (word_of_int sz :: size_t))
         else failed_pool p"
        by auto
      have live: "dma_live R d2 = dma_live R d +
          (if R \<in> {Coherent, Device_ref, Sg_table, Buf_ref} then 1 else 0)" for R
        using wl(3) [of R] al [of R] Some by (cases R) auto
      show ?thesis
        using ih wl(1,2) live al Some unfolding step
        by (intro exI [of _ ok] exI [of _ p] exI [of _ k'] exI [of _ d']) (cases ok, simp_all)
    qed
  qed
qed

section \<open>Allocating\<close>

definition is_cint :: "int \<Rightarrow> bool" where
  "is_cint n \<longleftrightarrow> - (2 ^ 31) \<le> n \<and> n < 2 ^ 31"

lemma kcalloc_ptrs_kmem:
  "kcalloc_ptrs n k = (ok, k') \<Longrightarrow>
   km_live k' = km_live k + (if ok then 1 else 0) \<and> km_oracle k' = km_oracle k"
  by (auto simp: kcalloc_ptrs_def Let_def dest!: kzalloc_kmem split: if_splits prod.splits)

text \<open>A negative count is a huge \<open>size_t\<close>, which \<open>kcalloc\<close> refuses.\<close>

lemma kcalloc_ptrs_negative:
  assumes "is_cint n" "n < 0"
  shows "kcalloc_ptrs n k = (False, k)"
proof -
  have "n mod 2 ^ 64 = (n + 2 ^ 64) mod 2 ^ 64" by simp
  also have "\<dots> = n + 2 ^ 64"
    using assms by (intro mod_pos_pos_trivial) (simp_all add: is_cint_def)
  finally have "n mod 2 ^ 64 = n + 2 ^ 64" .
  then have "unat (word_of_int n :: size_t) = nat (n + 2 ^ 64)"
    by (simp add: unat_eq_nat_uint uint_word_of_int)
  moreover have "2 ^ 61 \<le> nat (n + 2 ^ 64)"
    using assms by (simp add: is_cint_def le_nat_iff)
  ultimately show ?thesis by (simp add: kcalloc_ptrs_def)
qed

lemma kcalloc_ptrs_nofail:
  assumes "km_nofail k" "0 \<le> n" "is_cint n"
  shows "fst (kcalloc_ptrs n k)"
proof -
  have "unat (word_of_int n :: size_t) = nat n"
    using assms by (simp add: is_cint_def unat_eq_nat_uint uint_word_of_int_eq take_bit_int_eq_self)
  moreover have "nat n < 2 ^ 31" using assms by (simp add: is_cint_def nat_less_iff)
  ultimately show ?thesis
    using assms(1) by (auto simp: kcalloc_ptrs_def kzalloc_def kmalloc_def Let_def km_nofail_def)
qed

lemma al5_bufpool_free_failed:
  assumes "failed_pool p"
  shows "\<exists>k' d'. al5_bufpool_free p k d = Some (al5_bufpool_init, k', d') \<and>
    km_oracle k' = km_oracle k \<and>
    (\<forall>R. dma_live R d' = dma_live R d - (if R = Buf_ref then bp_count p else 0))"
proof -
  from assms obtain hs where hs: "bp_handles p = Some hs" "nat (bp_count p) \<le> length hs"
    "0 \<le> bp_count p" by (auto simp: failed_pool_def split: option.splits)
  with put_handles_live [of "nat (bp_count p)" 0 hs d] show ?thesis
    by (auto simp: al5_bufpool_free_def kfree_array_def kfree_step)
qed

lemma al5_bufpool_allocate_cases:
  assumes "is_cint count"
  shows "\<exists>err p k' d'. al5_bufpool_allocate pool count sz k d = Some (err, p, k', d') \<and>
    km_oracle k' = km_oracle k \<and>
    (if err = 0
     then pool_ok p \<and> bp_count p = count \<and>
       (\<forall>b \<in> set (pool_buffers p). dma_size b = ucast (word_of_int sz :: size_t)) \<and>
       km_live k' = km_live k + 2 + 3 * count \<and>
       (\<forall>R \<in> {Coherent, Sg_table, Device_ref, Buf_ref}. dma_live R d' = dma_live R d + count)
     else err = - ENOMEM \<and> bp_count p = 0 \<and> dma_live Buf_ref d' = dma_live Buf_ref d \<and>
       (km_nofail k \<and> 0 \<le> count \<longrightarrow> p = al5_bufpool_init))"
proof -
  obtain ok1 k1 where c1: "kcalloc_ptrs count k = (ok1, k1)" by (cases "kcalloc_ptrs count k")
  obtain ok2 k2 where c2: "kcalloc_ptrs count k1 = (ok2, k2)" by (cases "kcalloc_ptrs count k1")
  note k1 = kcalloc_ptrs_kmem [OF c1] and k2 = kcalloc_ptrs_kmem [OF c2]
  have nofail: "ok1 \<and> ok2" if "km_nofail k" "0 \<le> count"
  proof -
    have "km_nofail k1" using k1 that(1) by (simp add: km_nofail_def)
    then show ?thesis
      using kcalloc_ptrs_nofail [of k count] kcalloc_ptrs_nofail [of k1 count] that assms c1 c2 by simp
  qed
  show ?thesis
  proof (cases "ok1 \<and> ok2")
    case False
    then show ?thesis
      using c1 c2 k1 k2 nofail
      by (cases ok1) (auto simp: al5_bufpool_allocate_def kfree_step Let_def)
  next
    case True
    with c1 kcalloc_ptrs_negative [OF assms, of k] have pos: "0 \<le> count"
      by (cases "count < 0") auto
    let ?n = "nat count"
    have start: "pool\<lparr>bp_count := 0, bp_buffers := Some (replicate ?n None),
        bp_handles := Some (replicate ?n 0)\<rparr> = partial_pool [] [] ?n"
      by (cases pool) (simp add: partial_pool_def)
    from fill_pool_spec [of "[]" "[]" sz ?n k2 d] obtain ok p k3 d3 where f:
      "fill_pool ?n 0 sz (partial_pool [] [] ?n) k2 d = Some (ok, p, k3, d3)"
      "km_oracle k3 = km_oracle k2" "dma_live Buf_ref d3 = dma_live Buf_ref d + bp_count p"
      "if ok then pool_ok p \<and> bp_count p = int ?n \<and> km_live k3 = km_live k2 + 3 * int ?n \<and>
        (\<forall>R \<in> {Coherent, Sg_table, Device_ref}. dma_live R d3 = dma_live R d + int ?n) \<and>
        (\<forall>b \<in> set (pool_buffers p). dma_size b = ucast (word_of_int sz :: size_t))
       else failed_pool p" by auto
    show ?thesis
    proof (cases ok)
      case True
      with \<open>ok1 \<and> ok2\<close> f c1 c2 k1 k2 pos start show ?thesis
        by (simp add: al5_bufpool_allocate_def Let_def)
    next
      case False
      with f al5_bufpool_free_failed [of p k3 d3] obtain k4 d4 where
        "al5_bufpool_free p k3 d3 = Some (al5_bufpool_init, k4, d4)"
        "km_oracle k4 = km_oracle k3" "dma_live Buf_ref d4 = dma_live Buf_ref d3 - bp_count p"
        by auto
      with False \<open>ok1 \<and> ok2\<close> f c1 c2 k1 k2 start show ?thesis
        by (simp add: al5_bufpool_allocate_def al5_bufpool_init_def Let_def)
    qed
  qed
qed

section \<open>Descriptors of pool buffers\<close>

lemma find_handle_first:
  assumes "n + i \<le> length hs"
  shows "find_handle n (int i) (Some hs) h =
    Some (case find ((=) h \<circ> (!) hs) [i..<i + n] of None \<Rightarrow> - 1 | Some j \<Rightarrow> int j)"
  using assms
proof (induction n arbitrary: i)
  case 0
  then show ?case by simp
next
  case (Suc n)
  have "[i..<i + Suc n] = i # [Suc i..<Suc i + n]"
    by (simp add: upt_rec)
  with Suc.IH [of "Suc i"] Suc.prems show ?case
    by (simp add: array_get_nth add.commute)
qed

lemma find_handle_distinct:
  assumes "distinct hs" "j < length hs"
  shows "find_handle (length hs) 0 (Some hs) (hs ! j) = Some (int j)"
proof -
  have "find ((=) (hs ! j) \<circ> (!) hs) [0..<length hs] = Some j"
    using assms
    by (subst find_Some_iff) (auto simp: nth_eq_iff_index_eq intro!: exI [of _ j])
  with find_handle_first [of "length hs" 0 hs "hs ! j"] show ?thesis by simp
qed

section \<open>Properties\<close>

text \<open>\<open>al5_bufpool_allocate\<close> always returns. On success the pool holds exactly \<open>count\<close>
  exported buffers of the asked size, with their blocks, tables and references accounted for;
  on failure it returns \<open>-ENOMEM\<close> with no reference to a dma-buf left behind, each one taken
  having been put.\<close>

theorem al5_bufpool_allocate_spec:
  assumes "is_cint count"
  shows "\<exists>err p k' d'. al5_bufpool_allocate pool count sz k d = Some (err, p, k', d') \<and>
    (if err = 0
     then pool_ok p \<and> bp_count p = count \<and>
       (\<forall>b \<in> set (pool_buffers p). dma_size b = ucast (word_of_int sz :: size_t)) \<and>
       km_live k' = km_live k + 2 + 3 * count \<and>
       (\<forall>R \<in> {Coherent, Sg_table, Device_ref, Buf_ref}. dma_live R d' = dma_live R d + count)
     else err = - ENOMEM \<and> bp_count p = 0 \<and> dma_live Buf_ref d' = dma_live Buf_ref d)"
proof -
  from al5_bufpool_allocate_cases [OF assms, of pool sz k d] obtain err p k' d' where
    "al5_bufpool_allocate pool count sz k d = Some (err, p, k', d')"
    "if err = 0
     then pool_ok p \<and> bp_count p = count \<and>
       (\<forall>b \<in> set (pool_buffers p). dma_size b = ucast (word_of_int sz :: size_t)) \<and>
       km_live k' = km_live k + 2 + 3 * count \<and>
       (\<forall>R \<in> {Coherent, Sg_table, Device_ref, Buf_ref}. dma_live R d' = dma_live R d + count)
     else err = - ENOMEM \<and> bp_count p = 0 \<and> dma_live Buf_ref d' = dma_live Buf_ref d \<and>
       (km_nofail k \<and> 0 \<le> count \<longrightarrow> p = al5_bufpool_init)"
    by blast
  then show ?thesis by (cases "err = 0") simp_all
qed

theorem al5_bufpool_allocate_spec_witness:
  "\<exists>err p k' d'. al5_bufpool_allocate al5_bufpool_init 2 64 kmem0 dsys7 = Some (err, p, k', d') \<and>
    (if err = 0
     then pool_ok p \<and> bp_count p = 2 \<and>
       (\<forall>b \<in> set (pool_buffers p). dma_size b = ucast (word_of_int 64 :: size_t)) \<and>
       km_live k' = km_live kmem0 + 2 + 3 * 2 \<and>
       (\<forall>R \<in> {Coherent, Sg_table, Device_ref, Buf_ref}. dma_live R d' = dma_live R dsys7 + 2)
     else err = - ENOMEM \<and> bp_count p = 0 \<and> dma_live Buf_ref d' = dma_live Buf_ref dsys7)"
  by (rule al5_bufpool_allocate_spec) (simp add: is_cint_def)

text \<open>Freeing a well-formed pool puts each of its handles exactly once, in order, frees both
  arrays and leaves the empty pool; freeing again does nothing more.\<close>

theorem al5_bufpool_free_spec:
  assumes "pool_ok p"
  shows "\<exists>k' d'. al5_bufpool_free p k d = Some (al5_bufpool_init, k', d') \<and>
    km_live k' = km_live k - pool_blocks p \<and>
    map fst (d_trace d') = map fst (d_trace d) @ map Dma_buf_put (pool_handles p) \<and>
    al5_bufpool_free al5_bufpool_init k' d' = Some (al5_bufpool_init, k', d')"
  using al5_bufpool_free_live [OF assms, of k d]
  by (fastforce simp: al5_bufpool_free_def al5_bufpool_init_def kfree_array_def)

definition pool2 :: al5_buffers_pool where
  "pool2 = \<lparr>bp_count = 2, bp_buffers = Some [Some buffer7, Some buffer7], bp_handles = Some [7, 8]\<rparr>"

lemma pool2_ok: "pool_ok pool2" "pool_handles pool2 = [7, 8]" "bp_count pool2 = 2"
  by (simp_all add: pool_ok_def pool2_def pool_handles_def)

theorem al5_bufpool_free_spec_witness:
  "\<exists>k' d'. al5_bufpool_free pool2 kmem0 dsys7 = Some (al5_bufpool_init, k', d') \<and>
    km_live k' = km_live kmem0 - 2 \<and> map fst (d_trace d') = [Dma_buf_put 7, Dma_buf_put 8]"
  using al5_bufpool_free_spec [OF pool2_ok(1), of kmem0 dsys7]
  by (auto simp: pool2_ok pool_blocks_def dsys7_def) (simp add: pool2_def)

text \<open>A descriptor leads back to its buffer. When the framework's \<open>dma_buf_get\<close> answers with
  the buffer of index \<open>j\<close>, \<open>al5_bufpool_get_id\<close> returns \<open>j\<close>; for a buffer of no index it
  returns -1. The reference taken for the comparison is put on both paths.\<close>

theorem al5_bufpool_get_id_spec:
  assumes "pool_ok p" "distinct (pool_handles p)"
    and "h = d_answer d (length (d_trace d))" "0 < h"
  shows "\<exists>i d'. al5_bufpool_get_id p fd d = Some (i, d') \<and> dma_live Buf_ref d' = dma_live Buf_ref d \<and>
    (if h \<in> set (pool_handles p)
     then 0 \<le> i \<and> i < bp_count p \<and> pool_handles p ! nat i = h else i = - 1)"
  using assms(1)
proof (cases rule: pool_ok_cases)
  case empty
  with assms(3,4) show ?thesis
    by (simp add: al5_bufpool_get_id_def al5_bufpool_init_def dcall_def Let_def dma_live_def
        pool_handles_def)
next
  case (full bs hs)
  then have hs: "pool_handles p = hs" by (simp add: pool_handles_def)
  show ?thesis
  proof (cases "h \<in> set hs")
    case True
    then obtain j where j: "j < length hs" "h = hs ! j" by (auto simp: in_set_conv_nth)
    have "find_handle (length hs) 0 (Some hs) h = Some (int j)"
      using find_handle_distinct [of hs j] assms(2) j hs by simp
    moreover obtain d1 where e: "dcall (Dma_buf_get fd) d = (h, d1)"
      using assms(3) by (simp add: dcall_def Let_def)
    ultimately have "al5_bufpool_get_id p fd d = Some (int j, snd (dcall (Dma_buf_put h) d1))"
      using assms(4) full(1,3) by (simp add: al5_bufpool_get_id_def)
    moreover have "dma_live Buf_ref (snd (dcall (Dma_buf_put h) d1)) = dma_live Buf_ref d"
      using dcall_live [OF e, of Buf_ref] assms(4) by simp
    ultimately show ?thesis
      using j True full(1) hs by simp
  next
    case False
    then have "find ((=) h \<circ> (!) hs) [0..<length hs] = None"
      by (auto simp: find_None_iff in_set_conv_nth)
    with find_handle_first [of "length hs" 0 hs h] False assms(3,4) full hs show ?thesis
      by (simp add: al5_bufpool_get_id_def dcall_def Let_def dma_live_def)
  qed
qed

theorem al5_bufpool_get_id_spec_witness:
  "\<exists>i d'. al5_bufpool_get_id pool2 3 dsys7 = Some (i, d') \<and>
    dma_live Buf_ref d' = dma_live Buf_ref dsys7 \<and>
    (if 7 \<in> set (pool_handles pool2)
     then 0 \<le> i \<and> i < bp_count pool2 \<and> pool_handles pool2 ! nat i = 7 else i = - 1)"
  by (rule al5_bufpool_get_id_spec) (simp_all add: pool2_ok dsys7_def)

text \<open>C37: a double free. When the second array of \<open>al5_bufpool_allocate\<close> cannot be allocated, the
  first is freed but the pool keeps the pointer to it; the \<open>al5_bufpool_free\<close> that the failure
  path of a channel runs later frees the same block again: two blocks go for the one that was
  allocated.\<close>

theorem al5_bufpool_double_free:
  assumes "0 \<le> count" "count < 2 ^ 31" "bp_handles pool = None"
    and "km_oracle k (km_calls k) (8 * nat count) \<noteq> None"
    and "km_oracle k (Suc (km_calls k)) (8 * nat count) = None"
  shows "\<exists>p k1 k2. al5_bufpool_allocate pool count sz k d = Some (- ENOMEM, p, k1, d) \<and>
    km_live k1 = km_live k \<and> al5_bufpool_free p k1 d = Some (al5_bufpool_init, k2, d) \<and>
    km_live k2 = km_live k - 1"
proof -
  have "unat (word_of_int count :: size_t) = nat count"
    using assms(1,2) by (simp add: unat_eq_nat_uint uint_word_of_int_eq take_bit_int_eq_self)
  with assms show ?thesis
    by (auto simp: al5_bufpool_allocate_def kcalloc_ptrs_def kzalloc_def kmalloc_def Let_def
        al5_bufpool_free_def kfree_array_def kfree_def)
qed

definition kmem_one :: kmem where
  "kmem_one = kmem0\<lparr>km_oracle := (\<lambda>i n. if i = 0 then Some (replicate n 0) else None)\<rparr>"

theorem al5_bufpool_double_free_witness:
  "\<exists>p k1 k2. al5_bufpool_allocate al5_bufpool_init 2 64 kmem_one dsys7 =
      Some (- ENOMEM, p, k1, dsys7) \<and> km_live k1 = km_live kmem_one \<and>
    al5_bufpool_free p k1 dsys7 = Some (al5_bufpool_init, k2, dsys7) \<and>
    km_live k2 = km_live kmem_one - 1"
  by (rule al5_bufpool_double_free) (simp_all add: al5_bufpool_init_def kmem_one_def kmem0_def)

end
