(* ===== verification/Al_User.thy ===== *)
theory Al_User
  imports Mcu_Interface Al_Queue Buffers_Pool
begin

text \<open>
  The user of an opened device file (\<open>common/al_user.c\<close>): its channel, one queue per kind of
  message, one mutex per kind of operation, two pools of buffers. The operations act on a user
  and on the state below it (\<^typ>\<open>hw\<close>).

  An operation can block on a mutex or on a queue, and other threads and the interrupt handler
  run meanwhile. \<open>env\<close> is that part: for each such call its result and the state in which it
  ends, as a function of the state in which it starts. A mutex that is still taken when
  \<open>mutex_lock_killable\<close> returns 0 would be taken twice, so the model has no result there.
\<close>

section \<open>The user\<close>

datatype user_mail =
    AL5_USER_MAIL_INIT
  | AL5_USER_MAIL_CREATE
  | AL5_USER_MAIL_DESTROY
  | AL5_USER_MAIL_STATUS
  | AL5_USER_MAIL_SC
  | AL5_USER_MAIL_DEBUG
  | AL5_USER_MAIL_REC

datatype user_operation =
    AL5_USER_INIT
  | AL5_USER_CREATE
  | AL5_USER_DESTROY
  | AL5_USER_XCODE
  | AL5_USER_STATUS
  | AL5_USER_SC
  | AL5_USER_DEBUG
  | AL5_USER_REC

text \<open>The two enumerations in order, for the loops over them.\<close>

definition user_mails :: "user_mail list" where
  "user_mails = [AL5_USER_MAIL_INIT, AL5_USER_MAIL_CREATE, AL5_USER_MAIL_DESTROY,
     AL5_USER_MAIL_STATUS, AL5_USER_MAIL_SC, AL5_USER_MAIL_DEBUG, AL5_USER_MAIL_REC]"

definition user_ops :: "user_operation list" where
  "user_ops = [AL5_USER_INIT, AL5_USER_CREATE, AL5_USER_DESTROY, AL5_USER_XCODE,
     AL5_USER_STATUS, AL5_USER_SC, AL5_USER_DEBUG, AL5_USER_REC]"

definition NO_CHECKPOINT :: int where "NO_CHECKPOINT = - 1"
definition BAD_CHAN :: int where "BAD_CHAN = 0xff"

text \<open>The pointer \<open>mcu\<close> always is the interface of \<^typ>\<open>hw\<close>; the device is not used further.\<close>

record al5_user =
  u_uid :: int
  u_chan_uid :: int
  u_checkpoint :: int
  u_queues :: "user_mail \<Rightarrow> al5_queue"
  u_locks :: "user_operation \<Rightarrow> bool"
  u_int_buffers :: al5_buffers_pool
  u_rec_buffers :: al5_buffers_pool

definition al5_user_init :: "int \<Rightarrow> al5_user" where
  "al5_user_init uid =
     \<lparr>u_uid = uid, u_chan_uid = BAD_CHAN, u_checkpoint = NO_CHECKPOINT,
      u_queues = (\<lambda>_. al5_queue_init), u_locks = (\<lambda>_. False),
      u_int_buffers = al5_bufpool_init, u_rec_buffers = al5_bufpool_init\<rparr>"

definition al5_chan_is_created :: "al5_user \<Rightarrow> bool" where
  "al5_chan_is_created u \<longleftrightarrow> u_chan_uid u \<noteq> BAD_CHAN"

definition al5_have_checkpoint :: "al5_user \<Rightarrow> bool" where
  "al5_have_checkpoint u \<longleftrightarrow> u_checkpoint u \<noteq> NO_CHECKPOINT"

section \<open>Waiting\<close>

type_synonym ustate = "al5_user \<times> hw"

record env =
  e_lock :: "user_operation \<Rightarrow> ustate \<Rightarrow> int \<times> ustate"
  e_wait :: "user_mail \<Rightarrow> ustate \<Rightarrow> int \<times> ustate"

definition take_lock :: "user_operation \<Rightarrow> al5_user \<Rightarrow> al5_user option" where
  "take_lock op u = (if u_locks u op then None else Some (u\<lparr>u_locks := (u_locks u)(op := True)\<rparr>))"

definition mutex_unlock :: "user_operation \<Rightarrow> al5_user \<Rightarrow> al5_user" where
  "mutex_unlock op u = u\<lparr>u_locks := (u_locks u)(op := False)\<rparr>"

definition mutex_lock_killable ::
    "env \<Rightarrow> user_operation \<Rightarrow> al5_user \<Rightarrow> hw \<Rightarrow> (int \<times> al5_user \<times> hw) option" where
  "mutex_lock_killable e op u s =
     (let (err, u, s) = e_lock e op (u, s)
      in if err = - EINTR then Some (- EINTR, u, s)
         else do { u \<leftarrow> take_lock op u; Some (err, u, s) })"

definition mutex_trylock :: "user_operation \<Rightarrow> al5_user \<Rightarrow> al5_user option" where
  "mutex_trylock = take_lock"

definition set_queue :: "user_mail \<Rightarrow> al5_queue \<Rightarrow> al5_user \<Rightarrow> al5_user" where
  "set_queue q qu u = u\<lparr>u_queues := (u_queues u)(q := qu)\<rparr>"

text \<open>\<open>al5_queue_pop\<close> and \<open>al5_queue_pop_timeout\<close> on a queue of the user.\<close>

definition user_pop :: "env \<Rightarrow> user_mail \<Rightarrow> al5_user \<Rightarrow> hw \<Rightarrow> al5_mail option \<times> al5_user \<times> hw" where
  "user_pop e q u s =
     (let (_, u, s) = e_wait e q (u, s);
          (mail, qu, k) = al5_queue_pop (u_queues u q) (hw_k s)
      in (mail, set_queue q qu u, s\<lparr>hw_k := k\<rparr>))"

definition user_pop_timeout ::
    "env \<Rightarrow> user_mail \<Rightarrow> al5_user \<Rightarrow> hw \<Rightarrow> int \<times> al5_mail option \<times> al5_user \<times> hw" where
  "user_pop_timeout e q u s =
     (let (ret, u, s) = e_wait e q (u, s);
          (err, mail, qu, k) = al5_queue_pop_timeout ret (u_queues u q) (hw_k s)
      in (err, mail, set_queue q qu u, s\<lparr>hw_k := k\<rparr>))"

section \<open>Sending and delivering\<close>

definition mail_to_queue :: "u32 \<Rightarrow> user_mail" where
  "mail_to_queue mail_uid =
     (if mail_uid = uid_code AL_MCU_MSG_INIT then AL5_USER_MAIL_INIT
      else if mail_uid = uid_code AL_MCU_MSG_CREATE_CHANNEL then AL5_USER_MAIL_CREATE
      else if mail_uid = uid_code AL_MCU_MSG_DESTROY_CHANNEL then AL5_USER_MAIL_DESTROY
      else if mail_uid = uid_code AL_MCU_MSG_ENCODE_ONE_FRM
           \<or> mail_uid = uid_code AL_MCU_MSG_DECODE_ONE_FRM then AL5_USER_MAIL_STATUS
      else if mail_uid = uid_code AL_MCU_MSG_SEARCH_START_CODE then AL5_USER_MAIL_SC
      else if mail_uid = uid_code AL_MCU_MSG_GET_RECONSTRUCTED_PICTURE
           \<or> mail_uid = uid_code AL_MCU_MSG_RELEASE_RECONSTRUCTED_PICTURE then AL5_USER_MAIL_REC
      else AL5_USER_MAIL_DEBUG)"

definition send_msg :: "al5_mail \<Rightarrow> hw \<Rightarrow> (int \<times> hw) option" where
  "send_msg mail s = do {
     (err, s) \<leftarrow> al5_mcu_send mail s;
     if err \<noteq> 0 then Some (err, s) else Some (0, al5_signal_mcu s)
   }"

definition al5_check_and_send :: "al5_mail option \<Rightarrow> hw \<Rightarrow> (int \<times> hw) option" where
  "al5_check_and_send mail s =
     (case mail of
        None \<Rightarrow> Some (- ENOMEM, s)
      | Some m \<Rightarrow> do {
          (err, s) \<leftarrow> send_msg m s;
          let s = s\<lparr>hw_k := al5_free_mail mail (hw_k s)\<rparr>;
          if err \<noteq> 0 then Some (err, s) else Some (0, s)
        })"

definition al5_user_deliver :: "al5_mail \<Rightarrow> al5_user \<Rightarrow> kmem \<Rightarrow> (al5_user \<times> kmem) option" where
  "al5_user_deliver mail u k =
     (let q = mail_to_queue (al5_mail_get_uid mail)
      in do {
        (qu, k) \<leftarrow> al5_queue_push (u_queues u q) mail k;
        Some (set_queue q qu u, k)
      })"

text \<open>A constructor of messages, and the sending of its result.\<close>

definition make_and_send ::
    "(kmem \<Rightarrow> (al5_mail option \<times> kmem) option) \<Rightarrow> hw \<Rightarrow> (int \<times> hw) option" where
  "make_and_send mk s = do {
     (mail, k) \<leftarrow> mk (hw_k s);
     al5_check_and_send mail (s\<lparr>hw_k := k\<rparr>)
   }"

section \<open>Queues of the user\<close>

definition released_queues :: "user_mail list" where
  "released_queues =
     [AL5_USER_MAIL_STATUS, AL5_USER_MAIL_SC, AL5_USER_MAIL_CREATE, AL5_USER_MAIL_REC]"

definition user_queues_unlock :: "al5_user \<Rightarrow> al5_user" where
  "user_queues_unlock u =
     fold (\<lambda>q u. set_queue q (al5_queue_unlock (u_queues u q)) u) released_queues u"

definition user_queues_lock :: "al5_user \<Rightarrow> al5_user" where
  "user_queues_lock u =
     fold (\<lambda>q u. set_queue q (al5_queue_lock (u_queues u q)) u) released_queues u"

text \<open>The loop that pops and frees until the queue, which is unlocked, is empty.\<close>

function drain_queue :: "al5_queue \<Rightarrow> kmem \<Rightarrow> al5_queue \<times> kmem" where
  "drain_queue q k =
     (case al5_queue_pop q k of
        (None, q', k') \<Rightarrow> (q', k')
      | (Some m, q', k') \<Rightarrow> drain_queue q' (al5_free_mail (Some m) k'))"
  by pat_completeness auto
termination
  by (relation "measure (\<lambda>(q, k). length (q_list q))")
     (auto simp: al5_queue_pop_def mails_pop_def split: list.splits)

declare drain_queue.simps [simp del]

definition al5_user_remove_residual_messages :: "al5_user \<Rightarrow> kmem \<Rightarrow> al5_user \<times> kmem" where
  "al5_user_remove_residual_messages u k =
     fold (\<lambda>q (u, k).
        let (qu, k) = drain_queue (al5_queue_unlock (u_queues u q)) k in (set_queue q qu u, k))
       user_mails (u, k)"

definition al5_user_get_mail :: "u32 \<Rightarrow> al5_user \<Rightarrow> kmem \<Rightarrow> al5_mail option \<times> al5_user \<times> kmem" where
  "al5_user_get_mail mail_uid u k =
     (let q = mail_to_queue mail_uid;
          (mail, qu, k) = al5_queue_pop (al5_queue_unlock (u_queues u q)) k
      in (mail, set_queue q (al5_queue_lock qu) u, k))"

section \<open>Destroying a channel\<close>

definition al5_user_destroy_channel_resources ::
    "al5_user \<Rightarrow> hw \<Rightarrow> (al5_user \<times> hw) option" where
  "al5_user_destroy_channel_resources u s = do {
     (ip, k, d) \<leftarrow> al5_bufpool_free (u_int_buffers u) (hw_k s) (hw_d s);
     (rp, k, d) \<leftarrow> al5_bufpool_free (u_rec_buffers u) k d;
     Some (u\<lparr>u_int_buffers := ip, u_rec_buffers := rp\<rparr>, s\<lparr>hw_k := k, hw_d := d\<rparr>)
   }"

text \<open>The loop that takes the mutexes: \<open>ops\<close> are left, \<open>taken\<close> have been taken and are released
  when one call is interrupted.\<close>

fun lock_all ::
    "env \<Rightarrow> user_operation list \<Rightarrow> user_operation list \<Rightarrow> al5_user \<Rightarrow> hw
      \<Rightarrow> (int \<times> al5_user \<times> hw) option" where
  "lock_all e [] taken u s = Some (0, u, s)"
| "lock_all e (op # ops) taken u s = do {
     (err, u, s) \<leftarrow> mutex_lock_killable e op u s;
     if err = - EINTR then Some (- EINTR, fold mutex_unlock taken u, s)
     else lock_all e ops (taken @ [op]) u s
   }"

text \<open>The part that runs with every mutex taken.\<close>

definition destroy_locked :: "env \<Rightarrow> bool \<Rightarrow> al5_user \<Rightarrow> hw \<Rightarrow> (int \<times> al5_user \<times> hw) option" where
  "destroy_locked e quiet u s = do {
     (err, u, s) \<leftarrow>
       (if quiet
        then do {
          (err, s) \<leftarrow> make_and_send (create_quiet_destroy_channel_msg (u32_of_int (u_chan_uid u))) s;
          Some (err, u, s)
        }
        else do {
          (err, s) \<leftarrow> make_and_send (create_destroy_channel_msg (u32_of_int (u_chan_uid u))) s;
          if err \<noteq> 0 then Some (err, u, s)
          else let (mail, u, s) = user_pop e AL5_USER_MAIL_DESTROY u s
               in if mail = None then Some (- EINTR, u, s)
                  else Some (0, u, s\<lparr>hw_k := al5_free_mail mail (hw_k s)\<rparr>)
        });
     if err \<noteq> 0 then Some (err, u, s)
     else do {
       (u, s) \<leftarrow> al5_user_destroy_channel_resources
         (u\<lparr>u_chan_uid := BAD_CHAN, u_checkpoint := NO_CHECKPOINT\<rparr>) s;
       Some (0, u, s)
     }
   }"

definition al5_user_destroy_channel ::
    "env \<Rightarrow> bool \<Rightarrow> al5_user \<Rightarrow> hw \<Rightarrow> (int \<times> al5_user \<times> hw) option" where
  "al5_user_destroy_channel e quiet u s =
     (if \<not> al5_chan_is_created u then Some (- EPERM, u, s)
      else do {
        (err, u, s) \<leftarrow> lock_all e user_ops [] (user_queues_unlock u) s;
        if err = - EINTR then Some (- EINTR, user_queues_lock u, s)
        else do {
          (err, u, s) \<leftarrow> destroy_locked e quiet u s;
          Some (err, user_queues_lock (fold mutex_unlock user_ops u), s)
        }
      })"

section \<open>What a send does\<close>

text \<open>The state below the users is in order and allocations succeed.\<close>

definition sys_ok :: "hw \<Rightarrow> bool" where
  "sys_ok s \<longleftrightarrow> hw_ok s \<and> km_nofail (hw_k s)"

lemma sys_ok_frame: "hw_frame s s' \<Longrightarrow> sys_ok s \<Longrightarrow> sys_ok s'"
  by (auto simp: hw_frame_def sys_ok_def km_nofail_def)

lemma sys_ok_kmem: "sys_ok s \<Longrightarrow> km_ok (hw_k s) \<and> km_nofail (hw_k s)"
  by (simp add: sys_ok_def hw_ok_def)

lemma sys_ok_km_step [simp]: "sys_ok (s\<lparr>hw_k := km_step n j (hw_k s)\<rparr>) = sys_ok s"
  by (simp add: sys_ok_def)

lemma sys_ok_oracle:
  "sys_ok s \<Longrightarrow> km_oracle k = km_oracle (hw_k s) \<Longrightarrow> sys_ok (s\<lparr>hw_k := k, hw_d := d\<rparr>)"
  "sys_ok s \<Longrightarrow> sys_ok (s\<lparr>hw_d := d\<rparr>)"
  by (auto simp: sys_ok_def hw_ok_def km_ok_def km_nofail_def)

lemma al5_mcu_send_hw_d: "al5_mcu_send m s = Some (err, s') \<Longrightarrow> hw_d s' = hw_d s \<and> hw_k s' = hw_k s"
  by (auto simp: al5_mcu_send_def bind_eq_Some_conv)

text \<open>The signal register after a send.\<close>

definition signalled :: "hw \<Rightarrow> bool" where
  "signalled s \<longleftrightarrow> ioread32 (interrupt_register (hw_mcu s)) (hw_mem s) = 1"

lemma signalled_kmem [simp]: "signalled (s\<lparr>hw_k := k\<rparr>) = signalled s"
  by (simp add: signalled_def)

lemma al5_check_and_send_cases:
  assumes "sys_ok s" "mail_wf m"
  obtains (sent) s' where "al5_check_and_send (Some m) s = Some (0, s')" "hw_frame s s'"
      "outbox s' = outbox s @ [wire_of m]" "hw_k s' = km_step 0 (- 1) (hw_k s)" "hw_d s' = hw_d s"
      "signalled s'" "unat (body_size m) + 8 \<le> outroom s"
  | (refused) "al5_check_and_send (Some m) s = Some (- EAGAIN, s\<lparr>hw_k := km_step 0 (- 1) (hw_k s)\<rparr>)"
      "outroom s < unat (body_size m) + 8"
proof (cases "unat (body_size m) + 8 \<le> outroom s")
  case True
  have ok: "hw_ok s" using assms(1) by (simp add: sys_ok_def)
  show thesis
  proof (rule al5_mcu_send_fits [OF ok assms(2) True])
    fix t
    assume t: "al5_mcu_send m s = Some (0, t)" "hw_frame s t" "outbox t = outbox s @ [wire_of m]"
      "hw_k t = hw_k s"
    let ?t = "al5_signal_mcu t"
    have fr: "hw_frame t ?t" and "hw_ok t" "outbox ?t = outbox t"
      using al5_signal_mcu_frame [of t] hw_frame_ok [OF t(2) ok] by auto
    moreover have "hw_frame ?t (?t\<lparr>hw_k := km_step 0 (- 1) (hw_k ?t)\<rparr>)" by (rule hw_frame_km_step)
    ultimately show thesis
      using t True al5_mcu_send_hw_d [OF t(1)] al5_signal_mcu_signals [of t]
      by (intro sent [of "?t\<lparr>hw_k := km_step 0 (- 1) (hw_k ?t)\<rparr>"])
         (auto simp: al5_check_and_send_def send_msg_def al5_free_mail_def kfree_step signalled_def
           intro: hw_frame_trans)
  qed
next
  case False
  then have "al5_mcu_send m s = Some (- EAGAIN, s)"
    using assms(1) by (intro al5_mcu_send_full) (simp_all add: sys_ok_def)
  then show thesis
    using False by (intro refused)
      (simp_all add: al5_check_and_send_def send_msg_def al5_free_mail_def kfree_step)
qed

text \<open>Building and sending: the mail's block is given back on both paths.\<close>

lemma make_and_send_cases:
  assumes "sys_ok s" "mk (hw_k s) = Some (Some m, km_step 1 1 (hw_k s))" "mail_wf m"
  obtains (sent) s' where "make_and_send mk s = Some (0, s')" "hw_frame s s'"
      "outbox s' = outbox s @ [wire_of m]" "hw_k s' = km_step 1 0 (hw_k s)" "hw_d s' = hw_d s"
      "signalled s'" "unat (body_size m) + 8 \<le> outroom s"
  | (refused) "make_and_send mk s = Some (- EAGAIN, s\<lparr>hw_k := km_step 1 0 (hw_k s)\<rparr>)"
      "outroom s < unat (body_size m) + 8"
proof -
  let ?s = "s\<lparr>hw_k := km_step 1 1 (hw_k s)\<rparr>"
  have "sys_ok ?s" and fr: "hw_frame s ?s" using assms(1) by simp_all
  from this(1) assms(3) show thesis
  proof (cases rule: al5_check_and_send_cases)
    case (sent s')
    show thesis
      using sent assms(2) hw_frame_trans [OF fr sent(2)]
      by (intro that(1) [of s']) (simp_all add: make_and_send_def)
  next
    case refused
    then show thesis
      using assms(2) by (intro that(2)) (simp_all add: make_and_send_def)
  qed
qed

section \<open>Contracts of the other threads\<close>

text \<open>\<open>env_ok\<close>: the lock calls return 0 with the mutex free, or \<open>-EINTR\<close>; while a call blocks,
  other threads keep the state below in order and do not create or destroy this user's channel.\<close>

definition env_keeps :: "ustate \<Rightarrow> ustate \<Rightarrow> bool" where
  "env_keeps st st' \<longleftrightarrow>
     u_uid (fst st') = u_uid (fst st) \<and> u_chan_uid (fst st') = u_chan_uid (fst st) \<and>
     u_checkpoint (fst st') = u_checkpoint (fst st) \<and>
     u_int_buffers (fst st') = u_int_buffers (fst st) \<and>
     u_rec_buffers (fst st') = u_rec_buffers (fst st) \<and>
     (sys_ok (snd st) \<longrightarrow> sys_ok (snd st'))"

definition env_ok :: "env \<Rightarrow> bool" where
  "env_ok e \<longleftrightarrow>
     (\<forall>op st. case e_lock e op st of (r, st') \<Rightarrow>
        (r = - EINTR \<or> r = 0 \<and> \<not> u_locks (fst st') op) \<and> env_keeps st st') \<and>
     (\<forall>q st. case e_wait e q st of (r, st') \<Rightarrow> env_keeps st st')"

text \<open>No other thread runs; waits end with the given result. A wait for a queue that holds a mail
  ends at once.\<close>

definition calm_env :: "int \<Rightarrow> env" where
  "calm_env r = \<lparr>e_lock = (\<lambda>op st. (if u_locks (fst st) op then - EINTR else 0, st)),
                 e_wait = (\<lambda>q st. (r, st))\<rparr>"

lemma env_keeps_refl [simp]: "env_keeps st st"
  by (simp add: env_keeps_def)

lemma env_keeps_trans: "env_keeps st st' \<Longrightarrow> env_keeps st' st'' \<Longrightarrow> env_keeps st st''"
  by (auto simp: env_keeps_def)

lemma env_ok_calm [simp]: "env_ok (calm_env r)"
  by (simp add: env_ok_def calm_env_def)

lemma env_keeps_user [simp]:
  "env_keeps (u, s) (set_queue q qu u, s)" "env_keeps (u, s) (mutex_unlock op u, s)"
  "env_keeps (u, s) (u\<lparr>u_locks := l\<rparr>, s)"
  by (simp_all add: env_keeps_def set_queue_def mutex_unlock_def)

lemma env_keeps_hw: "(sys_ok s \<Longrightarrow> sys_ok s') \<Longrightarrow> env_keeps (u, s) (u, s')"
  by (simp add: env_keeps_def)

lemma mutex_lock_killable_ok:
  assumes "env_ok e"
  obtains (killed) u' s' where "mutex_lock_killable e op u s = Some (- EINTR, u', s')"
      "env_keeps (u, s) (u', s')" "e_lock e op (u, s) = (- EINTR, u', s')"
  | (taken) u1 u' s' where "mutex_lock_killable e op u s = Some (0, u', s')"
      "env_keeps (u, s) (u', s')" "e_lock e op (u, s) = (0, u1, s')" "\<not> u_locks u1 op"
      "u' = u1\<lparr>u_locks := (u_locks u1)(op := True)\<rparr>"
proof -
  obtain r u1 s' where l: "e_lock e op (u, s) = (r, u1, s')"
    by (cases "e_lock e op (u, s)") auto
  with assms have r: "r = - EINTR \<or> r = 0 \<and> \<not> u_locks u1 op" and k: "env_keeps (u, s) (u1, s')"
    by (auto simp: env_ok_def split_def) (metis fst_conv snd_conv)+
  show thesis
  proof (cases "r = - EINTR")
    case True
    with l k show thesis by (intro killed) (simp_all add: mutex_lock_killable_def)
  next
    case False
    with r have r0: "r = 0" "\<not> u_locks u1 op" by simp_all
    let ?u = "u1\<lparr>u_locks := (u_locks u1)(op := True)\<rparr>"
    have "env_keeps (u1, s') (?u, s')" by simp
    with k have "env_keeps (u, s) (?u, s')" by (rule env_keeps_trans)
    with l r0 show thesis
      by (intro taken [of ?u s' u1]) (simp_all add: mutex_lock_killable_def take_lock_def)
  qed
qed

lemma env_keeps_fold_unlock [simp]: "env_keeps (u, s) (fold mutex_unlock ops u, s)"
proof (induction ops arbitrary: u)
  case (Cons op ops)
  show ?case
    using env_keeps_trans [OF env_keeps_user(2) Cons.IH [of "mutex_unlock op u"]] by simp
qed simp

lemma lock_all_ok:
  assumes "env_ok e"
  shows "\<exists>err u' s'. lock_all e ops taken u s = Some (err, u', s') \<and> env_keeps (u, s) (u', s') \<and>
    (err = 0 \<or> err = - EINTR)"
proof (induction ops arbitrary: taken u s)
  case Nil
  then show ?case by simp
next
  case (Cons op ops)
  from assms show ?case
  proof (cases rule: mutex_lock_killable_ok [where op = op and u = u and s = s])
    case (killed u' s')
    moreover have "env_keeps (u', s') (fold mutex_unlock taken u', s')" by simp
    ultimately show ?thesis by (auto intro: env_keeps_trans)
  next
    case (taken u1 u' s')
    then show ?thesis using Cons.IH [of "taken @ [op]" u' s'] by (auto intro: env_keeps_trans)
  qed
qed

lemma user_pop_ok:
  assumes "env_ok e"
  shows "env_keeps (u, s) (snd (user_pop e q u s))"
proof -
  obtain r u1 s1 where w: "e_wait e q (u, s) = (r, u1, s1)" by (cases "e_wait e q (u, s)") auto
  with assms have k: "env_keeps (u, s) (u1, s1)"
    by (auto simp: env_ok_def split_def) (metis snd_conv)
  obtain m qu k' where p: "al5_queue_pop (u_queues u1 q) (hw_k s1) = (m, qu, k')"
    by (cases "al5_queue_pop (u_queues u1 q) (hw_k s1)") auto
  then have "k' = km_step 0 (if m = None then 0 else - 1) (hw_k s1)"
    by (auto simp: al5_queue_pop_def mails_pop_def kfree_step split: list.splits)
  then have "env_keeps (u1, s1) (set_queue q qu u1, s1\<lparr>hw_k := k'\<rparr>)"
    by (simp add: env_keeps_def set_queue_def)
  with k have "env_keeps (u, s) (set_queue q qu u1, s1\<lparr>hw_k := k'\<rparr>)" by (rule env_keeps_trans)
  with w p show ?thesis by (simp add: user_pop_def)
qed

lemma user_queues_simps [simp]:
  "u_uid (user_queues_lock u) = u_uid u" "u_uid (user_queues_unlock u) = u_uid u"
  "u_chan_uid (user_queues_lock u) = u_chan_uid u" "u_chan_uid (user_queues_unlock u) = u_chan_uid u"
  "u_checkpoint (user_queues_lock u) = u_checkpoint u"
  "u_checkpoint (user_queues_unlock u) = u_checkpoint u"
  "u_locks (user_queues_lock u) = u_locks u" "u_locks (user_queues_unlock u) = u_locks u"
  "u_int_buffers (user_queues_lock u) = u_int_buffers u"
  "u_int_buffers (user_queues_unlock u) = u_int_buffers u"
  "u_rec_buffers (user_queues_lock u) = u_rec_buffers u"
  "u_rec_buffers (user_queues_unlock u) = u_rec_buffers u"
  by (simp_all add: user_queues_lock_def user_queues_unlock_def set_queue_def released_queues_def)

lemma user_queues_locked:
  "q \<in> set released_queues \<Longrightarrow> q_locked (u_queues (user_queues_lock u) q)"
  by (auto simp: user_queues_lock_def set_queue_def released_queues_def)

lemma user_queues_list [simp]:
  "q_list (u_queues (user_queues_lock u) q) = q_list (u_queues u q)"
  "q_list (u_queues (user_queues_unlock u) q) = q_list (u_queues u q)"
  by (simp_all add: user_queues_lock_def user_queues_unlock_def set_queue_def released_queues_def)

lemma fold_unlock_locks [simp]:
  "u_locks (fold mutex_unlock ops u) = (\<lambda>op. u_locks u op \<and> op \<notin> set ops)"
  by (induction ops arbitrary: u) (auto simp: mutex_unlock_def)

lemma fold_unlock_simps [simp]:
  "u_chan_uid (fold mutex_unlock ops u) = u_chan_uid u"
  "u_checkpoint (fold mutex_unlock ops u) = u_checkpoint u"
  "u_uid (fold mutex_unlock ops u) = u_uid u"
  "u_queues (fold mutex_unlock ops u) = u_queues u"
  "u_int_buffers (fold mutex_unlock ops u) = u_int_buffers u"
  "u_rec_buffers (fold mutex_unlock ops u) = u_rec_buffers u"
  by (induction ops arbitrary: u) (simp_all add: mutex_unlock_def)

lemma set_user_ops [simp]: "op \<in> set user_ops"
  by (cases op) (simp_all add: user_ops_def)

lemma set_user_mails [simp]: "q \<in> set user_mails"
  by (cases q) (simp_all add: user_mails_def)

text \<open>A user's pools are in order.\<close>

definition pools_ok :: "al5_user \<Rightarrow> bool" where
  "pools_ok u \<longleftrightarrow> pool_ok (u_int_buffers u) \<and> pool_ok (u_rec_buffers u)"

lemma destroy_resources_eq:
  assumes "pools_ok u"
  shows "\<exists>s'. al5_user_destroy_channel_resources u s =
      Some (u\<lparr>u_int_buffers := al5_bufpool_init, u_rec_buffers := al5_bufpool_init\<rparr>, s') \<and>
    hw_frame s s' \<and> outbox s' = outbox s \<and>
    km_live (hw_k s') = km_live (hw_k s) - pool_blocks (u_int_buffers u) - pool_blocks (u_rec_buffers u) \<and>
    map fst (d_trace (hw_d s')) = map fst (d_trace (hw_d s)) @
      map Dma_buf_put (pool_handles (u_int_buffers u) @ pool_handles (u_rec_buffers u))"
proof -
  from assms have p: "pool_ok (u_int_buffers u)" "pool_ok (u_rec_buffers u)"
    by (simp_all add: pools_ok_def)
  from al5_bufpool_free_live [OF p(1), of "hw_k s" "hw_d s"] obtain k1 d1 where
    1: "al5_bufpool_free (u_int_buffers u) (hw_k s) (hw_d s) = Some (al5_bufpool_init, k1, d1)"
      "km_oracle k1 = km_oracle (hw_k s)"
      "km_live k1 = km_live (hw_k s) - pool_blocks (u_int_buffers u)"
      "map fst (d_trace d1) = map fst (d_trace (hw_d s)) @
         map Dma_buf_put (pool_handles (u_int_buffers u))" by auto
  from al5_bufpool_free_live [OF p(2), of k1 d1] obtain k2 d2 where
    2: "al5_bufpool_free (u_rec_buffers u) k1 d1 = Some (al5_bufpool_init, k2, d2)"
      "km_oracle k2 = km_oracle k1" "km_live k2 = km_live k1 - pool_blocks (u_rec_buffers u)"
      "map fst (d_trace d2) = map fst (d_trace d1) @
         map Dma_buf_put (pool_handles (u_rec_buffers u))" by auto
  have "hw_frame s (s\<lparr>hw_k := k2\<rparr>)" using 1(2) 2(2) by (intro hw_frame_kmem) simp
  then have "hw_frame s (s\<lparr>hw_k := k2, hw_d := d2\<rparr>)"
    using hw_frame_trans hw_d_update(5) by blast
  with 1 2 show ?thesis
    by (auto simp: al5_user_destroy_channel_resources_def intro!: exI [of _ "s\<lparr>hw_k := k2, hw_d := d2\<rparr>"])
qed

section \<open>The outcomes of destroying a channel\<close>

lemma destroy_mail_wf: "mail_wf (mail_of uid bs)"
  by simp

lemma create_quiet_destroy_eq:
  "sys_ok s \<Longrightarrow> create_quiet_destroy_channel_msg c (hw_k s) =
    Some (Some (mail_of (uid_code AL_MCU_MSG_QUIET_DESTROY_CHANNEL) (le32 c)), km_step 1 1 (hw_k s))"
  by (simp add: create_quiet_destroy_channel_msg_def al5_create_empty_mail_eq sys_ok_kmem)

lemma create_destroy_eq:
  "sys_ok s \<Longrightarrow> create_destroy_channel_msg c (hw_k s) =
    Some (Some (mail_of (uid_code AL_MCU_MSG_DESTROY_CHANNEL) (le32 c)), km_step 1 1 (hw_k s))"
  by (simp add: create_destroy_channel_msg_def al5_create_empty_mail_eq sys_ok_kmem)

text \<open>Sending one of the two messages: what the rest of the proof needs of it.\<close>

lemma make_and_send_ok:
  assumes "sys_ok s" "\<And>k. km_ok k \<Longrightarrow> km_nofail k \<Longrightarrow> mk k = Some (Some m, km_step 1 1 k)" "mail_wf m"
  shows "\<exists>err s'. make_and_send mk s = Some (err, s') \<and> sys_ok s' \<and> err \<in> {0, - EAGAIN}"
proof -
  have mk: "mk (hw_k s) = Some (Some m, km_step 1 1 (hw_k s))"
    using assms(1,2) sys_ok_kmem by blast
  show ?thesis
    by (rule make_and_send_cases [where mk = mk and s = s and m = m, OF assms(1) mk assms(3)])
       (auto intro: sys_ok_frame simp: assms(1))
qed

lemma empty_mail_nofail:
  "km_ok k \<Longrightarrow> km_nofail k \<Longrightarrow> create_destroy_channel_msg c k =
    Some (Some (mail_of (uid_code AL_MCU_MSG_DESTROY_CHANNEL) (le32 c)), km_step 1 1 k)"
  "km_ok k \<Longrightarrow> km_nofail k \<Longrightarrow> create_quiet_destroy_channel_msg c k =
    Some (Some (mail_of (uid_code AL_MCU_MSG_QUIET_DESTROY_CHANNEL) (le32 c)), km_step 1 1 k)"
  by (simp_all add: create_destroy_channel_msg_def create_quiet_destroy_channel_msg_def
      al5_create_empty_mail_eq)

definition destroyed :: "al5_user \<Rightarrow> bool" where
  "destroyed u \<longleftrightarrow> \<not> al5_chan_is_created u \<and> \<not> al5_have_checkpoint u \<and>
     u_int_buffers u = al5_bufpool_init \<and> u_rec_buffers u = al5_bufpool_init"

lemma destroy_locked_ok:
  assumes e: "env_ok e" and s: "sys_ok s" and u: "pools_ok u"
  shows "\<exists>err u' s'. destroy_locked e quiet u s = Some (err, u', s') \<and> sys_ok s' \<and>
    u_uid u' = u_uid u \<and>
    (if err = 0 then destroyed u'
     else err \<in> {- EAGAIN, - EINTR} \<and> env_keeps (u, s) (u', s'))"
proof -
  let ?c = "u32_of_int (u_chan_uid u)"
  have fin: "\<exists>u' s'. (do { (u, s) \<leftarrow> al5_user_destroy_channel_resources
      (v\<lparr>u_chan_uid := BAD_CHAN, u_checkpoint := NO_CHECKPOINT\<rparr>) t; Some (0 :: int, u, s) }) =
        Some (0, u', s') \<and> sys_ok s' \<and> u_uid u' = u_uid v \<and> destroyed u'"
    if "sys_ok t" "pools_ok v" for v t
  proof -
    have "pools_ok (v\<lparr>u_chan_uid := BAD_CHAN, u_checkpoint := NO_CHECKPOINT\<rparr>)"
      using that(2) by (simp add: pools_ok_def)
    from destroy_resources_eq [OF this, of t] that(1) show ?thesis
      by (auto simp: destroyed_def al5_chan_is_created_def al5_have_checkpoint_def
          intro: sys_ok_frame)
  qed
  show ?thesis
  proof (cases quiet)
    case True
    obtain err s1 where m: "make_and_send (create_quiet_destroy_channel_msg ?c) s = Some (err, s1)"
      "sys_ok s1" "err \<in> {0, - EAGAIN}"
      using make_and_send_ok [OF s empty_mail_nofail(2) destroy_mail_wf] by blast
    show ?thesis
    proof (cases "err = 0")
      case True
      with \<open>quiet\<close> m fin [OF m(2) u] show ?thesis by (auto simp: destroy_locked_def)
    next
      case False
      with \<open>quiet\<close> m show ?thesis by (auto simp: destroy_locked_def env_keeps_def)
    qed
  next
    case False
    obtain err s1 where m: "make_and_send (create_destroy_channel_msg ?c) s = Some (err, s1)"
      "sys_ok s1" "err \<in> {0, - EAGAIN}"
      using make_and_send_ok [OF s empty_mail_nofail(1) destroy_mail_wf] by blast
    obtain mail u1 s2 where p: "user_pop e AL5_USER_MAIL_DESTROY u s1 = (mail, u1, s2)"
      by (cases "user_pop e AL5_USER_MAIL_DESTROY u s1") auto
    with user_pop_ok [OF e, of u s1 AL5_USER_MAIL_DESTROY] have k: "env_keeps (u, s1) (u1, s2)"
      by simp
    with m(2) have s2: "sys_ok s2" and uid: "u_uid u1 = u_uid u" and pk: "pools_ok u1"
      using u by (simp_all add: env_keeps_def pools_ok_def)
    have k2: "env_keeps (u, s) (u1, s2)" using k m(2) by (simp add: env_keeps_def)
    show ?thesis
    proof (cases "err = 0 \<and> mail \<noteq> None")
      case True
      let ?s = "s2\<lparr>hw_k := al5_free_mail mail (hw_k s2)\<rparr>"
      have "sys_ok ?s" using s2 True by (simp add: al5_free_mail_def kfree_step)
      with True False m p uid fin [OF _ pk, of ?s] show ?thesis
        by (auto simp: destroy_locked_def)
    next
      case not: False
      with False m p uid s2 k2 show ?thesis
        by (auto simp: destroy_locked_def env_keeps_def)
    qed
  qed
qed

section \<open>Draining and delivering\<close>

lemma drain_queue_eq:
  "drain_queue q k = (q\<lparr>q_list := []\<rparr>, km_step 0 (- 2 * int (length (q_list q))) k)"
proof (induction "q_list q" arbitrary: q k)
  case Nil
  then show ?case by (subst drain_queue.simps) (cases q, simp add: al5_queue_pop_def)
next
  case (Cons m ms)
  have "drain_queue q k = drain_queue (q\<lparr>q_list := ms\<rparr>) (km_step 0 (- 2) k)"
    by (subst drain_queue.simps)
       (simp add: al5_queue_pop_def al5_free_mail_def kfree_step Cons.hyps(2) [symmetric])
  also have "\<dots> = (q\<lparr>q_list := []\<rparr>, km_step 0 (- 2 * int (length (m # ms))) k)"
    using Cons.hyps(1) [of "q\<lparr>q_list := ms\<rparr>" "km_step 0 (- 2) k"] by simp
  finally show ?case by (simp add: Cons.hyps(2))
qed

lemma drain_unlocked:
  "drain_queue (al5_queue_unlock qu) k =
    (\<lparr>q_list = [], q_locked = False\<rparr>, km_step 0 (- 2 * int (length (q_list qu))) k)"
  by (cases qu) (simp add: drain_queue_eq al5_queue_unlock_def)

lemma remove_residual_fold:
  "distinct qs \<Longrightarrow> fold (\<lambda>q (u, k).
      let (qu, k) = drain_queue (al5_queue_unlock (u_queues u q)) k in (set_queue q qu u, k)) qs (u, k) =
    (u\<lparr>u_queues := (\<lambda>q. if q \<in> set qs then \<lparr>q_list = [], q_locked = False\<rparr> else u_queues u q)\<rparr>,
     km_step 0 (- 2 * (\<Sum>q\<leftarrow>qs. int (length (q_list (u_queues u q))))) k)"
proof (induction qs arbitrary: u k)
  case Nil
  then show ?case by simp
next
  case (Cons q qs)
  let ?u = "set_queue q \<lparr>q_list = [], q_locked = False\<rparr> u"
  have sum: "(\<Sum>q\<leftarrow>qs. int (length (q_list (u_queues ?u q)))) =
      (\<Sum>q\<leftarrow>qs. int (length (q_list (u_queues u q))))"
    using Cons.prems by (intro arg_cong [where f = sum_list] map_cong)
      (auto simp: set_queue_def)
  then show ?case
    using Cons.prems Cons.IH [of ?u]
    by (auto simp: drain_unlocked set_queue_def fun_eq_iff algebra_simps)
qed

lemma al5_user_remove_residual_eq:
  "al5_user_remove_residual_messages u k =
    (u\<lparr>u_queues := (\<lambda>_. \<lparr>q_list = [], q_locked = False\<rparr>)\<rparr>,
     km_step 0 (- 2 * (\<Sum>q\<leftarrow>user_mails. int (length (q_list (u_queues u q))))) k)"
proof -
  have "distinct user_mails" by (simp add: user_mails_def)
  from remove_residual_fold [OF this, of u k] show ?thesis
    by (simp add: al5_user_remove_residual_messages_def)
qed

lemma al5_user_deliver_eq:
  assumes "km_ok k" "km_nofail k"
  shows "al5_user_deliver m u k =
    (let q = mail_to_queue (al5_mail_get_uid m)
     in Some (set_queue q ((u_queues u q)\<lparr>q_list := q_list (u_queues u q) @ [m]\<rparr>) u, km_step 1 1 k))"
  using al5_queue_push_eq [OF assms] by (simp add: al5_user_deliver_def Let_def)

text \<open>The whole call.\<close>

lemma al5_user_destroy_channel_ok:
  assumes "env_ok e" "sys_ok s" "pools_ok u"
  shows "\<exists>err u' s'. al5_user_destroy_channel e quiet u s = Some (err, u', s') \<and> sys_ok s' \<and>
    u_uid u' = u_uid u \<and>
    (if \<not> al5_chan_is_created u then err = - EPERM \<and> u' = u \<and> s' = s
     else (\<forall>q \<in> set released_queues. q_locked (u_queues u' q)) \<and>
       (if err = 0 then destroyed u'
        else err \<in> {- EAGAIN, - EINTR} \<and> env_keeps (u, s) (u', s')) \<and>
       (err = - EINTR \<or> (\<forall>op. \<not> u_locks u' op)))"
proof (cases "al5_chan_is_created u")
  case False
  then show ?thesis using assms(2) by (simp add: al5_user_destroy_channel_def)
next
  case True
  obtain err1 u1 s1 where l: "lock_all e user_ops [] (user_queues_unlock u) s = Some (err1, u1, s1)"
    "env_keeps (user_queues_unlock u, s) (u1, s1)" "err1 = 0 \<or> err1 = - EINTR"
    using lock_all_ok [OF assms(1)] by blast
  have k1: "env_keeps (u, s) (u1, s1)" using l(2) by (simp add: env_keeps_def)
  show ?thesis
  proof (cases "err1 = - EINTR")
    case True
    then show ?thesis
      using \<open>al5_chan_is_created u\<close> l(1) k1 assms(2)
      by (simp add: al5_user_destroy_channel_def user_queues_locked env_keeps_def)
  next
    case False
    have "sys_ok s1" "pools_ok u1" "u_uid u1 = u_uid u"
      using k1 assms(2,3) by (simp_all add: env_keeps_def pools_ok_def)
    with destroy_locked_ok [OF assms(1), of s1 u1 quiet] obtain err u' s' where
      d: "destroy_locked e quiet u1 s1 = Some (err, u', s')" "sys_ok s'" "u_uid u' = u_uid u"
        "if err = 0 then destroyed u' else err \<in> {- EAGAIN, - EINTR} \<and> env_keeps (u1, s1) (u', s')"
      by auto
    let ?u = "user_queues_lock (fold mutex_unlock user_ops u')"
    have "env_keeps (u, s) (?u, s')" if "err \<noteq> 0"
      using that d(4) env_keeps_trans [OF k1, of "(u', s')"] by (simp add: env_keeps_def)
    moreover have "destroyed ?u" if "err = 0"
      using that d(4) by (simp add: destroyed_def al5_chan_is_created_def al5_have_checkpoint_def)
    moreover have "err = 0 \<or> err \<in> {- EAGAIN, - EINTR}" using d(4) by presburger
    ultimately show ?thesis
      using True False l(1) d
      by (cases "err = 0") (auto simp: al5_user_destroy_channel_def user_queues_locked)
  qed
qed

text \<open>A mutex that the other threads leave alone is returned as it was found, on every path.\<close>

definition env_leaves_lock :: "env \<Rightarrow> user_operation \<Rightarrow> bool" where
  "env_leaves_lock e op \<longleftrightarrow>
     (\<forall>o' st. u_locks (fst (snd (e_lock e o' st))) op = u_locks (fst st) op) \<and>
     (\<forall>q st. u_locks (fst (snd (e_wait e q st))) op = u_locks (fst st) op)"

lemma env_leaves_lock_calm [simp]: "env_leaves_lock (calm_env r) op"
  by (simp add: env_leaves_lock_def calm_env_def)

lemma mutex_lock_killable_lock:
  assumes "env_leaves_lock e op" "mutex_lock_killable e o' u s = Some (err, u', s')"
  shows "if err = - EINTR then u_locks u' op = u_locks u op
    else u_locks u' op = (op = o' \<or> u_locks u op) \<and> (op = o' \<longrightarrow> \<not> u_locks u op)"
proof -
  obtain r u1 s1 where l: "e_lock e o' (u, s) = (r, u1, s1)" by (cases "e_lock e o' (u, s)") auto
  with assms(1) have "u_locks u1 op = u_locks u op"
    unfolding env_leaves_lock_def by (metis fst_conv snd_conv)
  with assms(2) l show ?thesis
    by (auto simp: mutex_lock_killable_def take_lock_def split: if_splits)
qed

lemma lock_all_lock:
  assumes "env_leaves_lock e op"
  shows "lock_all e ops taken u s = Some (err, u', s') \<Longrightarrow> distinct (taken @ ops) \<Longrightarrow>
    if err = - EINTR then u_locks u' op = (u_locks u op \<and> op \<notin> set taken)
    else u_locks u' op = (op \<in> set ops \<or> u_locks u op) \<and> (op \<in> set ops \<longrightarrow> \<not> u_locks u op)"
proof (induction ops arbitrary: taken u s)
  case Nil
  then show ?case by simp
next
  case (Cons o' ops)
  from Cons.prems(1) obtain e1 u1 s1 where l: "mutex_lock_killable e o' u s = Some (e1, u1, s1)"
    by (auto split: Option.bind_splits)
  note lk = mutex_lock_killable_lock [OF assms l]
  show ?case
  proof (cases "e1 = - EINTR")
    case True
    with Cons.prems(1) l lk show ?thesis by auto
  next
    case False
    with Cons.prems(1) l have "lock_all e ops (taken @ [o']) u1 s1 = Some (err, u', s')" by simp
    from Cons.IH [OF this] Cons.prems(2) have "if err = - EINTR
        then u_locks u' op = (u_locks u1 op \<and> op \<notin> set (taken @ [o']))
        else u_locks u' op = (op \<in> set ops \<or> u_locks u1 op) \<and> (op \<in> set ops \<longrightarrow> \<not> u_locks u1 op)"
      by simp
    with lk False Cons.prems(2) show ?thesis by (auto split: if_splits)
  qed
qed

lemma mutex_unlock_lock [simp]: "u_locks (mutex_unlock o' u) op = (op \<noteq> o' \<and> u_locks u op)"
  by (simp add: mutex_unlock_def)

lemma set_queue_lock [simp]: "u_locks (set_queue q qu u) = u_locks u"
  by (simp add: set_queue_def)

lemma mutex_trylock_lock:
  "mutex_trylock o' u = Some u' \<Longrightarrow>
    u_locks u' op = (op = o' \<or> u_locks u op) \<and> (op = o' \<longrightarrow> \<not> u_locks u op)"
  by (auto simp: mutex_trylock_def take_lock_def split: if_splits)

lemma e_wait_lock:
  "env_leaves_lock e op \<Longrightarrow> e_wait e q (u, s) = (r, u', s') \<Longrightarrow> u_locks u' op = u_locks u op"
  unfolding env_leaves_lock_def by (metis fst_conv snd_conv)

lemma user_pop_lock:
  assumes "env_leaves_lock e op"
  shows "user_pop e q u s = (m, u', s') \<Longrightarrow> u_locks u' op = u_locks u op"
    and "user_pop_timeout e q u s = (err, m, u', s') \<Longrightarrow> u_locks u' op = u_locks u op"
  using e_wait_lock [OF assms]
  by (auto simp: user_pop_def user_pop_timeout_def split: prod.splits)

lemma user_queues_unlock_locks: "distinct user_ops"
  by (simp add: user_ops_def)

lemma al5_user_destroy_channel_lock:
  assumes "env_leaves_lock e op" "al5_user_destroy_channel e quiet u s = Some (err, u', s')"
  shows "u_locks u' op = u_locks u op"
proof (cases "al5_chan_is_created u")
  case False
  with assms(2) show ?thesis by (simp add: al5_user_destroy_channel_def)
next
  case True
  from assms(2) True obtain e1 u1 s1 where
    l: "lock_all e user_ops [] (user_queues_unlock u) s = Some (e1, u1, s1)"
    by (auto simp: al5_user_destroy_channel_def split: Option.bind_splits)
  note lk = lock_all_lock [OF assms(1) l]
  with assms(2) True l user_queues_unlock_locks show ?thesis
    by (auto simp: al5_user_destroy_channel_def split: if_splits Option.bind_splits)
qed

text \<open>The locks when each of them is free and nobody interferes.\<close>

lemma lock_all_calm:
  assumes "\<And>op st. op \<in> set ops \<Longrightarrow> e_lock e op st = (0, st)"
    and "distinct ops" "\<forall>op \<in> set ops. \<not> u_locks u op"
  shows "lock_all e ops taken u s =
    Some (0, u\<lparr>u_locks := (\<lambda>op. op \<in> set ops \<or> u_locks u op)\<rparr>, s)"
  using assms
proof (induction ops arbitrary: taken u)
  case Nil
  then show ?case by simp
next
  case (Cons op ops)
  let ?u = "u\<lparr>u_locks := (u_locks u)(op := True)\<rparr>"
  have "lock_all e ops (taken @ [op]) ?u s =
      Some (0, ?u\<lparr>u_locks := (\<lambda>op. op \<in> set ops \<or> u_locks ?u op)\<rparr>, s)"
    using Cons.prems by (intro Cons.IH) auto
  moreover have "mutex_lock_killable e op u s = Some (0, ?u, s)"
    using Cons.prems by (simp add: mutex_lock_killable_def take_lock_def)
  ultimately show ?case by (auto simp: fun_eq_iff)
qed

section \<open>Properties\<close>

text \<open>C13: the outcomes of \<open>al5_user_destroy_channel\<close>, for every behaviour of the other threads
  that leaves this user's channel alone. The call always returns. Without a channel it returns
  \<open>-EPERM\<close> and changes nothing. Otherwise the four queues that were opened to release the
  waiters are locked again; if it returns 0 the user is as after \<open>al5_user_init\<close> (no channel,
  no checkpoint, empty pools); if it returns an error (mailbox full, or interrupted) the channel,
  the checkpoint and the pools are untouched; unless it was interrupted no mutex stays taken,
  and in every case a mutex that the other threads leave alone is as it was before.\<close>

theorem al5_user_destroy_channel_outcomes:
  assumes "env_ok e" "sys_ok s" "pools_ok u"
  shows "\<exists>err u' s'. al5_user_destroy_channel e quiet u s = Some (err, u', s') \<and> sys_ok s' \<and>
    u_uid u' = u_uid u \<and>
    (if \<not> al5_chan_is_created u then err = - EPERM \<and> u' = u \<and> s' = s
     else (\<forall>q \<in> set released_queues. q_locked (u_queues u' q)) \<and>
       (if err = 0 then destroyed u'
        else err \<in> {- EAGAIN, - EINTR} \<and> env_keeps (u, s) (u', s')) \<and>
       (err = - EINTR \<or> (\<forall>op. \<not> u_locks u' op))) \<and>
    (\<forall>op. env_leaves_lock e op \<longrightarrow> u_locks u' op = u_locks u op)"
  using al5_user_destroy_channel_ok [OF assms, of quiet] al5_user_destroy_channel_lock [of e]
  by blast

text \<open>A system at rest, with 64-byte mailboxes at 0 and 128, for the witnesses.\<close>

definition hw0 :: hw where
  "hw0 = (let (cmd, m) = al5_mailbox_init 0 64 (\<lambda>_. 0); (status, m) = al5_mailbox_init 128 64 m
     in \<lparr>hw_mem = m,
         hw_mcu = \<lparr>mcu_to_cpu = status, cpu_to_mcu = cmd, interrupt_register = 256\<rparr>,
         hw_k = kmem0, hw_d = dsys7\<rparr>)"

lemma hw0_ok: "sys_ok hw0" "outbox hw0 = []" "inbox hw0 = []" "outroom hw0 = 64"
    "hw_k hw0 = kmem0" "hw_d hw0 = dsys7"
proof -
  obtain cmd m1 status m2 where i1: "al5_mailbox_init 0 64 (\<lambda>_. 0) = (cmd, m1)" and
    i2: "al5_mailbox_init 128 64 m1 = (status, m2)" by (metis surj_pair)
  have n: "4 dvd unat (64 :: size_t)" "0 < unat (64 :: size_t)" "unat (64 :: size_t) \<le> 2 ^ 16"
    by simp_all
  note c1 = al5_mailbox_init_ok [OF n i1] and c2 = al5_mailbox_init_ok [OF n i2]
  have same: "m2 a = m1 a" if "a \<in> mailbox_area cmd" for a
    using that c1(4) c2(4) by (intro c2(5)) auto
  have lay: "mailbox_layout cmd" using c1(1) by (rule mailbox_layout_of_ok)
  have m: "mailbox_ok cmd m2" "mailbox_mails cmd m2 = []" "box_used cmd m2 = 0"
    using mailbox_cong [OF lay same] c1 by simp_all
  have "box_size cmd = 64" using i1 by (auto simp: al5_mailbox_init_def Let_def)
  with m c1 c2 i1 i2 show "sys_ok hw0" "outbox hw0 = []" "inbox hw0 = []" "outroom hw0 = 64"
    "hw_k hw0 = kmem0" "hw_d hw0 = dsys7"
    by (auto simp: hw0_def sys_ok_def hw_ok_def mcu_disjoint_def outbox_def inbox_def outroom_def)
qed

definition user3 :: al5_user where
  "user3 = (al5_user_init 2)\<lparr>u_chan_uid := 3\<rparr>"

lemma user3_ok: "pools_ok user3" "al5_chan_is_created user3" "u_locks user3 = (\<lambda>_. False)"
  by (simp_all add: user3_def al5_user_init_def pools_ok_def al5_chan_is_created_def BAD_CHAN_def)

theorem al5_user_destroy_channel_outcomes_witness:
  "\<exists>err u' s'. al5_user_destroy_channel (calm_env 0) True user3 hw0 = Some (err, u', s') \<and>
    (if err = 0 then destroyed u'
     else err \<in> {- EAGAIN, - EINTR} \<and> env_keeps (user3, hw0) (u', s')) \<and> (\<forall>op. \<not> u_locks u' op)"
  using al5_user_destroy_channel_outcomes [OF env_ok_calm hw0_ok(1) user3_ok(1), of 0 True]
  by (simp only: user3_ok(2,3) not_True_eq_False if_False env_leaves_lock_calm simp_thms) blast

text \<open>\<open>al5_user_deliver\<close> puts a mail behind the others of exactly one queue of the user, the
  one \<open>mail_to_queue\<close> gives for its number, and changes nothing else of the user.\<close>

theorem al5_user_deliver_routes:
  assumes "km_ok k" "km_nofail k"
  shows "\<exists>u'. al5_user_deliver m u k = Some (u', km_step 1 1 k) \<and>
    (\<forall>q. q_list (u_queues u' q) = (if q = mail_to_queue (al5_mail_get_uid m)
       then q_list (u_queues u q) @ [m] else q_list (u_queues u q)) \<and>
       q_locked (u_queues u' q) = q_locked (u_queues u q)) \<and>
    u'\<lparr>u_queues := u_queues u\<rparr> = u"
  using al5_user_deliver_eq [OF assms, of m u] by (auto simp: set_queue_def Let_def)

theorem al5_user_deliver_routes_witness:
  "\<exists>u'. al5_user_deliver (mail_of (uid_code AL_MCU_MSG_ENCODE_ONE_FRM) (le32 3)) user3 kmem0 =
      Some (u', km_step 1 1 kmem0) \<and>
    q_list (u_queues u' AL5_USER_MAIL_STATUS) = [mail_of (uid_code AL_MCU_MSG_ENCODE_ONE_FRM) (le32 3)] \<and>
    q_list (u_queues u' AL5_USER_MAIL_SC) = []"
  using al5_user_deliver_routes [of kmem0 "mail_of (uid_code AL_MCU_MSG_ENCODE_ONE_FRM) (le32 3)" user3]
  by (auto simp: mail_simps mail_to_queue_def user3_def al5_user_init_def al5_queue_init_def)

text \<open>C30: removing the residual messages ends and frees every mail with its list node: all queues
  are empty and open afterwards, and the live blocks go down by two for each mail there was.\<close>

theorem al5_user_remove_residual_all:
  "al5_user_remove_residual_messages u k =
    (u\<lparr>u_queues := (\<lambda>_. \<lparr>q_list = [], q_locked = False\<rparr>)\<rparr>,
     km_step 0 (- 2 * (\<Sum>q\<leftarrow>user_mails. int (length (q_list (u_queues u q))))) k)"
  by (rule al5_user_remove_residual_eq)

text \<open>C28: \<open>al5_check_and_send\<close> frees the mail whether or not it could be sent. It is sent, and
  the firmware signalled after the mailbox has been written, exactly if the mailbox has room;
  else the call returns \<open>-EAGAIN\<close> and device memory does not change. NULL gives \<open>-ENOMEM\<close>.\<close>

theorem al5_check_and_send_spec:
  assumes "sys_ok s" "mail_wf m"
  shows "\<exists>err s'. al5_check_and_send (Some m) s = Some (err, s') \<and>
    hw_k s' = km_step 0 (- 1) (hw_k s) \<and> inbox s' = inbox s \<and> sys_ok s' \<and>
    (if unat (body_size m) + 8 \<le> outroom s
     then err = 0 \<and> outbox s' = outbox s @ [wire_of m] \<and> signalled s'
     else err = - EAGAIN \<and> hw_mem s' = hw_mem s \<and> hw_mcu s' = hw_mcu s) \<and>
    al5_check_and_send None s = Some (- ENOMEM, s)"
  using assms
proof (cases rule: al5_check_and_send_cases)
  case (sent s')
  moreover have "hw_ok s" using assms(1) by (simp add: sys_ok_def)
  ultimately show ?thesis
    using assms(1) sys_ok_frame [OF sent(2)]
    by (simp add: al5_check_and_send_def hw_frame_def)
next
  case refused
  then show ?thesis using assms(1) by (simp add: al5_check_and_send_def)
qed

theorem al5_check_and_send_spec_witness:
  "\<exists>s'. al5_check_and_send (Some (mail_of 7 (le32 1))) hw0 = Some (0, s') \<and>
    outbox s' = [wire_of (mail_of 7 (le32 1))] \<and> signalled s'"
  using al5_check_and_send_spec [OF hw0_ok(1), of "mail_of 7 (le32 1)"]
  by (auto simp: hw0_ok mail_of_sel)

text \<open>C35: two threads that destroy the same channel. The test for a channel comes before the
  mutexes are taken, and is not repeated: when the other thread finishes between the two, the
  second one destroys channel \<open>BAD_CHAN\<close> (255), a channel that is not the user's, and blocks
  for an answer to it.\<close>

theorem al5_user_destroy_channel_race:
  assumes "al5_chan_is_created u" "sys_ok s1" "12 \<le> outroom s1"
    and "u_chan_uid u1 = BAD_CHAN" "u_locks u1 = (\<lambda>_. False)"
    and "q_list (u_queues u1 AL5_USER_MAIL_DESTROY) = []"
    and "\<And>op st. e_lock e op st =
      (0, if op = AL5_USER_INIT \<and> st = (user_queues_unlock u, s) then (u1, s1) else st)"
    and "\<And>q st. e_wait e q st = (- ERESTARTSYS, st)"
  shows "\<exists>u' s'. al5_user_destroy_channel e False u s = Some (- EINTR, u', s') \<and>
    outbox s' = outbox s1 @ [wire_of (mail_of (uid_code AL_MCU_MSG_DESTROY_CHANNEL) (le32 0xff))]"
proof -
  let ?all = "\<lambda>op. op \<in> set user_ops"
  let ?u0 = "u1\<lparr>u_locks := (u_locks u1)(AL5_USER_INIT := True)\<rparr>"
  have ops: "user_ops = AL5_USER_INIT # tl user_ops" "distinct (tl user_ops)"
    "AL5_USER_INIT \<notin> set (tl user_ops)" by (simp_all add: user_ops_def)
  have "lock_all e user_ops [] (user_queues_unlock u) s = lock_all e (tl user_ops) [AL5_USER_INIT] ?u0 s1"
    using assms(5,7) by (subst ops(1)) (simp add: mutex_lock_killable_def take_lock_def)
  also have "\<dots> = Some (0, ?u0\<lparr>u_locks := (\<lambda>op. op \<in> set (tl user_ops) \<or> u_locks ?u0 op)\<rparr>, s1)"
    using assms(5,7) ops by (intro lock_all_calm) auto
  finally obtain u2 where l: "lock_all e user_ops [] (user_queues_unlock u) s = Some (0, u2, s1)"
    and u2: "u_chan_uid u2 = BAD_CHAN" "u_queues u2 = u_queues u1"
    using assms(4) by simp
  have c: "u32_of_int (u_chan_uid u2) = 0xff" by (simp add: u2 BAD_CHAN_def)
  let ?m = "mail_of (uid_code AL_MCU_MSG_DESTROY_CHANNEL) (le32 0xff)"
  have fits: "\<not> outroom s1 < unat (body_size ?m) + 8" using assms(3) by (simp add: mail_of_sel)
  obtain s2 where m: "make_and_send (create_destroy_channel_msg 0xff) s1 = Some (0, s2)"
    "outbox s2 = outbox s1 @ [wire_of ?m]"
    by (rule make_and_send_cases [where m = ?m and s = s1
          and mk = "create_destroy_channel_msg 0xff", OF assms(2)
          create_destroy_eq [where c = "0xff", OF assms(2)] destroy_mail_wf])
       (use fits in auto)
  have "destroy_locked e False u2 s1 = Some (- EINTR, set_queue AL5_USER_MAIL_DESTROY
      (u_queues u1 AL5_USER_MAIL_DESTROY) u2, s2)"
    using m c assms(6,8) u2
    by (simp add: destroy_locked_def user_pop_def al5_queue_pop_simps)
  with l m(2) assms(1) show ?thesis by (simp add: al5_user_destroy_channel_def)
qed

definition race_env :: env where
  "race_env = \<lparr>e_lock = (\<lambda>op st. (0, if op = AL5_USER_INIT \<and> st = (user_queues_unlock user3, hw0)
                                   then (al5_user_init 2, hw0) else st)),
               e_wait = (\<lambda>q st. (- ERESTARTSYS, st))\<rparr>"

theorem al5_user_destroy_channel_race_witness:
  "\<exists>u' s'. al5_user_destroy_channel race_env False user3 hw0 = Some (- EINTR, u', s') \<and>
    outbox s' = outbox hw0 @ [wire_of (mail_of (uid_code AL_MCU_MSG_DESTROY_CHANNEL) (le32 0xff))]"
  by (rule al5_user_destroy_channel_race [where ?u1.0 = "al5_user_init 2" and ?s1.0 = hw0])
     (simp_all add: user3_ok hw0_ok race_env_def al5_user_init_def al5_queue_init_def)

end
