(* ===== verification/Al_Group.thy ===== *)
theory Al_Group
  imports Al_User
begin

text \<open>
  The group of users of a codec (\<open>common/al_group.c\<close>): the table of users by number, the
  routing of the firmware's messages to their queues, and the loop of the interrupt handler.
  Users are objects behind pointers: the table holds addresses, the store maps them to users.
\<close>

section \<open>The group\<close>

record al5_group =
  g_max_users_nb :: int
  g_users :: "addr option list option"

text \<open>All that the interrupt handler and the operations can reach.\<close>

record system =
  sys_group :: al5_group
  sys_users :: "addr \<rightharpoonup> al5_user"
  sys_hw :: hw

text \<open>The result of \<open>kcalloc\<close> is stored unchecked.\<close>

definition al5_group_init :: "int \<Rightarrow> kmem \<Rightarrow> al5_group \<times> kmem" where
  "al5_group_init max_users_nb k =
     (let (ok, k) = kcalloc_ptrs max_users_nb k
      in (\<lparr>g_max_users_nb = max_users_nb,
           g_users = (if ok then Some (replicate (nat max_users_nb) None) else None)\<rparr>, k))"

definition al5_group_deinit :: "al5_group \<Rightarrow> kmem \<Rightarrow> kmem" where
  "al5_group_deinit g k = kfree_array (g_users g) k"

text \<open>The search for a free entry, for \<open>n\<close> more entries from \<open>i\<close>; -1 if there is none.\<close>

fun find_free :: "nat \<Rightarrow> int \<Rightarrow> addr option list option \<Rightarrow> int option" where
  "find_free 0 i users = Some (- 1)"
| "find_free (Suc n) i users = do {
     u \<leftarrow> array_get users i;
     if u = None then Some i else find_free n (i + 1) users
   }"

text \<open>\<open>p\<close> is the address of the caller's user structure.\<close>

definition al5_group_bind_user :: "addr \<Rightarrow> system \<Rightarrow> (int \<times> system) option" where
  "al5_group_bind_user p st = do {
     let g = sys_group st;
     uid \<leftarrow> find_free (nat (g_max_users_nb g)) 0 (g_users g);
     if uid = - 1 then Some (- EAGAIN, st)
     else do {
       users \<leftarrow> array_set (g_users g) uid (Some p);
       Some (0, st\<lparr>sys_group := g\<lparr>g_users := users\<rparr>,
                   sys_users := (sys_users st)(p \<mapsto> al5_user_init uid)\<rparr>)
     }
   }"

definition al5_group_unbind_user :: "addr \<Rightarrow> system \<Rightarrow> system option" where
  "al5_group_unbind_user p st = do {
     u \<leftarrow> sys_users st p;
     users \<leftarrow> array_set (g_users (sys_group st)) (u_uid u) None;
     Some (st\<lparr>sys_group := (sys_group st)\<lparr>g_users := users\<rparr>\<rparr>)
   }"

definition al5_group_user_from_uid :: "al5_group \<Rightarrow> int \<Rightarrow> addr option option" where
  "al5_group_user_from_uid g user_uid =
     (if user_uid \<ge> g_max_users_nb g \<or> user_uid < 0 then Some None
      else array_get (g_users g) user_uid)"

definition hasChannelId :: "system \<Rightarrow> addr option \<Rightarrow> int \<Rightarrow> bool option" where
  "hasChannelId st user channel_id =
     (case user of
        None \<Rightarrow> Some False
      | Some p \<Rightarrow> do { u \<leftarrow> sys_users st p; Some (u_chan_uid u = channel_id) })"

fun find_chan :: "nat \<Rightarrow> int \<Rightarrow> system \<Rightarrow> int \<Rightarrow> addr option option" where
  "find_chan 0 i st chan_uid = Some None"
| "find_chan (Suc n) i st chan_uid = do {
     user \<leftarrow> array_get (g_users (sys_group st)) i;
     has \<leftarrow> hasChannelId st user chan_uid;
     if has then Some user else find_chan n (i + 1) st chan_uid
   }"

definition al5_group_user_from_chan_uid :: "system \<Rightarrow> int \<Rightarrow> addr option option" where
  "al5_group_user_from_chan_uid st chan_uid =
     find_chan (nat (g_max_users_nb (sys_group st))) 0 st chan_uid"

section \<open>Messages of the firmware\<close>

definition destroy_orphan_channel :: "int \<Rightarrow> hw \<Rightarrow> hw option" where
  "destroy_orphan_channel chan_uid s = do {
     (mail, k) \<leftarrow> create_quiet_destroy_channel_msg (u32_of_int chan_uid) (hw_k s);
     let s = s\<lparr>hw_k := k\<rparr>;
     case mail of
       None \<Rightarrow> Some s
     | Some m \<Rightarrow> do {
         (err, s) \<leftarrow> al5_mcu_send m s;
         let s = (if err \<noteq> 0 then s else al5_signal_mcu s);
         Some (s\<lparr>hw_k := al5_free_mail mail (hw_k s)\<rparr>)
       }
   }"

definition should_destroy_channel_on_bad_feedback :: "u32 \<Rightarrow> bool" where
  "should_destroy_channel_on_bad_feedback mail_uid \<longleftrightarrow>
     \<not> (mail_uid = uid_code AL_MCU_MSG_INIT \<or> mail_uid = uid_code AL_MCU_MSG_SEARCH_START_CODE
        \<or> mail_uid = uid_code AL_MCU_MSG_DESTROY_CHANNEL)"

definition retrieve_user :: "system \<Rightarrow> al5_mail \<Rightarrow> addr option option" where
  "retrieve_user st mail =
     (let mail_uid = al5_mail_get_uid mail
      in if mail_uid = uid_code AL_MCU_MSG_CREATE_CHANNEL
         then do {
           user_uid \<leftarrow> al5_mail_get_word mail 1;
           al5_group_user_from_uid (sys_group st) (int_of_u32 user_uid)
         }
         else if mail_uid = uid_code AL_MCU_MSG_INIT
              \<or> mail_uid = uid_code AL_MCU_MSG_SEARCH_START_CODE
         then do {
           user_uid \<leftarrow> al5_mail_get_word mail 0;
           al5_group_user_from_uid (sys_group st) (int_of_u32 user_uid)
         }
         else do {
           chan_uid \<leftarrow> al5_mail_get_word mail 0;
           al5_group_user_from_chan_uid st (int_of_u32 chan_uid)
         })"

definition try_to_deliver_to_user :: "al5_mail \<Rightarrow> system \<Rightarrow> (int \<times> system) option" where
  "try_to_deliver_to_user mail st = do {
     user \<leftarrow> retrieve_user st mail;
     case user of
       None \<Rightarrow> Some (- 1, st)
     | Some p \<Rightarrow> do {
         u \<leftarrow> sys_users st p;
         (u, k) \<leftarrow> al5_user_deliver mail u (hw_k (sys_hw st));
         Some (0, st\<lparr>sys_users := (sys_users st)(p \<mapsto> u), sys_hw := (sys_hw st)\<lparr>hw_k := k\<rparr>\<rparr>)
       }
   }"

definition free_received :: "al5_mail \<Rightarrow> system \<Rightarrow> system" where
  "free_received mail st =
     st\<lparr>sys_hw := (sys_hw st)\<lparr>hw_k := al5_free_mail (Some mail) (hw_k (sys_hw st))\<rparr>\<rparr>"

definition handle_mail :: "al5_mail \<Rightarrow> system \<Rightarrow> system option" where
  "handle_mail mail st =
     (let mail_uid = al5_mail_get_uid mail
      in if mail_uid = uid_code AL_MCU_MSG_TRACE
         then do { _ \<leftarrow> al5_print_mcu_trace mail; Some (free_received mail st) }
         else do {
           (error, st) \<leftarrow> try_to_deliver_to_user mail st;
           if error = 0 then Some st
           else do {
             st \<leftarrow> (if should_destroy_channel_on_bad_feedback mail_uid
                   then do {
                     chan_uid \<leftarrow> al5_mail_get_chan_uid mail;
                     s \<leftarrow> destroy_orphan_channel (int_of_u32 chan_uid) (sys_hw st);
                     Some (st\<lparr>sys_hw := s\<rparr>)
                   }
                   else Some st);
             Some (free_received mail st)
           }
         })"

definition read_mail :: "system \<Rightarrow> system option" where
  "read_mail st = do {
     (mail, s) \<leftarrow> al5_mcu_recv (sys_hw st);
     handle_mail mail (st\<lparr>sys_hw := s\<rparr>)
   }"

definition MAX_MAILBOX_MSG :: nat where
  "MAX_MAILBOX_MSG = 100"

text \<open>The loop, for at most \<open>n\<close> more messages.\<close>

fun read_mails :: "nat \<Rightarrow> system \<Rightarrow> system option" where
  "read_mails n st =
     (if al5_mcu_is_empty (sys_hw st) then Some st
      else case n of
        0 \<Rightarrow> Some st
      | Suc n \<Rightarrow> do { st \<leftarrow> read_mail st; read_mails n st })"

declare read_mails.simps [simp del]

definition al5_group_read_mails :: "system \<Rightarrow> system option" where
  "al5_group_read_mails st = read_mails MAX_MAILBOX_MSG st"

section \<open>Well-formed groups\<close>

text \<open>The table has one entry per user number, each entry points to a user of that number.\<close>

definition group_ok :: "system \<Rightarrow> bool" where
  "group_ok st \<longleftrightarrow>
     (\<exists>users. g_users (sys_group st) = Some users \<and>
        int (length users) = g_max_users_nb (sys_group st) \<and>
        (\<forall>i p. i < length users \<and> users ! i = Some p \<longrightarrow>
           (\<exists>u. sys_users st p = Some u \<and> u_uid u = int i)))"

definition user_table :: "system \<Rightarrow> addr option list" where
  "user_table st = (case g_users (sys_group st) of None \<Rightarrow> [] | Some users \<Rightarrow> users)"

lemma group_okE:
  assumes "group_ok st"
  shows "g_users (sys_group st) = Some (user_table st)"
    "g_max_users_nb (sys_group st) = int (length (user_table st))"
    "\<And>i p. i < length (user_table st) \<Longrightarrow> user_table st ! i = Some p \<Longrightarrow>
      \<exists>u. sys_users st p = Some u \<and> u_uid u = int i"
  using assms by (auto simp: group_ok_def user_table_def)

lemma group_ok_entry: "group_ok st \<Longrightarrow> Some p \<in> set (user_table st) \<Longrightarrow> sys_users st p \<noteq> None"
  using group_okE(3) by (fastforce simp: in_set_conv_nth)

text \<open>No user is in the table twice.\<close>

lemma group_ok_inject:
  "group_ok st \<Longrightarrow> i < length (user_table st) \<Longrightarrow> j < length (user_table st) \<Longrightarrow>
   user_table st ! i = Some p \<Longrightarrow> user_table st ! j = Some p \<Longrightarrow> i = j"
  using group_okE(3) [of st i p] group_okE(3) [of st j p] by auto

lemma find_free_eq:
  "n + i \<le> length users \<Longrightarrow> find_free n (int i) (Some users) =
    Some (case find (\<lambda>j. users ! j = None) [i..<i + n] of None \<Rightarrow> - 1 | Some j \<Rightarrow> int j)"
proof (induction n arbitrary: i)
  case 0
  then show ?case by simp
next
  case (Suc n)
  have "[i..<i + Suc n] = i # [Suc i..<Suc i + n]" by (simp add: upt_rec)
  with Suc.IH [of "Suc i"] Suc.prems show ?case by (simp add: array_get_nth add.commute)
qed

text \<open>The user a channel number leads to: the first entry of the table with that channel.\<close>

definition has_chan :: "system \<Rightarrow> int \<Rightarrow> addr option \<Rightarrow> bool" where
  "has_chan st c e \<longleftrightarrow> (\<exists>p u. e = Some p \<and> sys_users st p = Some u \<and> u_chan_uid u = c)"

definition chan_user :: "system \<Rightarrow> int \<Rightarrow> addr option" where
  "chan_user st c = Option.bind (find (has_chan st c) (user_table st)) id"

lemma find_chan_eq:
  assumes "group_ok st"
  shows "n + i \<le> length (user_table st) \<Longrightarrow> find_chan n (int i) st c =
    Some (Option.bind (find (has_chan st c) (take n (drop i (user_table st)))) id)"
proof (induction n arbitrary: i)
  case 0
  then show ?case by simp
next
  case (Suc n)
  let ?e = "user_table st ! i"
  have d: "drop i (user_table st) = ?e # drop (Suc i) (user_table st)"
    using Suc.prems by (simp add: Cons_nth_drop_Suc)
  have g: "array_get (g_users (sys_group st)) (int i) = Some ?e"
    using Suc.prems group_okE(1) [OF assms] by (simp add: array_get_nth)
  have h: "hasChannelId st ?e c = Some (has_chan st c ?e)"
    using group_okE(3) [OF assms, of i] Suc.prems
    by (cases ?e) (auto simp: hasChannelId_def has_chan_def)
  show ?case
    using Suc.IH [of "Suc i"] Suc.prems d g h by (simp add: add.commute)
qed

lemma al5_group_user_from_chan_uid_eq:
  "group_ok st \<Longrightarrow> al5_group_user_from_chan_uid st c = Some (chan_user st c)"
  using find_chan_eq [of st "length (user_table st)" 0 c]
  by (simp add: al5_group_user_from_chan_uid_def group_okE(2) chan_user_def)

lemma al5_group_user_from_uid_eq:
  "group_ok st \<Longrightarrow> al5_group_user_from_uid (sys_group st) i =
    Some (if 0 \<le> i \<and> i < int (length (user_table st)) then user_table st ! nat i else None)"
  by (simp add: al5_group_user_from_uid_def group_okE(1,2) array_get_def)

lemma chan_user_Some:
  "chan_user st c = Some p \<Longrightarrow>
   Some p \<in> set (user_table st) \<and> (\<exists>u. sys_users st p = Some u \<and> u_chan_uid u = c)"
  by (auto simp: chan_user_def bind_eq_Some_conv has_chan_def find_Some_iff in_set_conv_nth)

section \<open>Routing\<close>

text \<open>A message of the firmware with the words its number calls for; a trace is terminated.\<close>

definition fw_mail_ok :: "al5_mail \<Rightarrow> bool" where
  "fw_mail_ok m \<longleftrightarrow>
     (if al5_mail_get_uid m = uid_code AL_MCU_MSG_TRACE then 0 \<in> set (body m)
      else if al5_mail_get_uid m = uid_code AL_MCU_MSG_CREATE_CHANNEL then 8 \<le> length (body m)
      else 4 \<le> length (body m))"

text \<open>The abstract specification of the routing: the user and the queue a message goes to. The
  answer to a creation names its user in the second word, the answers to an initialisation and
  a search in the first; every other message names a channel.\<close>

definition word_at :: "al5_mail \<Rightarrow> nat \<Rightarrow> int" where
  "word_at m i = int_of_u32 (the (load32 (body m) (4 * i)))"

definition table_user :: "system \<Rightarrow> int \<Rightarrow> addr option" where
  "table_user st i =
     (if 0 \<le> i \<and> i < int (length (user_table st)) then user_table st ! nat i else None)"

definition route :: "system \<Rightarrow> al5_mail \<Rightarrow> (addr \<times> user_mail) option" where
  "route st m =
     (let n = al5_mail_get_uid m;
          user = (if n = uid_code AL_MCU_MSG_CREATE_CHANNEL then table_user st (word_at m 1)
                  else if n = uid_code AL_MCU_MSG_INIT \<or> n = uid_code AL_MCU_MSG_SEARCH_START_CODE
                  then table_user st (word_at m 0)
                  else chan_user st (word_at m 0))
      in if n = uid_code AL_MCU_MSG_TRACE then None
         else map_option (\<lambda>p. (p, mail_to_queue n)) user)"

lemma load32_ok: "4 * i + 4 \<le> length bs \<Longrightarrow> load32 bs (4 * i) = Some (the (load32 bs (4 * i)))"
  by (simp add: load32_def)

lemma retrieve_user_eq:
  assumes "group_ok st" "fw_mail_ok m" "al5_mail_get_uid m \<noteq> uid_code AL_MCU_MSG_TRACE"
  shows "retrieve_user st m = Some (map_option fst (route st m))"
proof -
  have 0: "al5_mail_get_word m 0 = Some (the (load32 (body m) 0))"
    using assms(2,3) load32_ok [of 0 "body m"]
    by (auto simp: fw_mail_ok_def al5_mail_get_word_def split: if_splits)
  have 1: "al5_mail_get_word m 1 = Some (the (load32 (body m) 4))"
    if "al5_mail_get_uid m = uid_code AL_MCU_MSG_CREATE_CHANNEL"
    using assms(2,3) that load32_ok [of 1 "body m"]
    by (auto simp: fw_mail_ok_def al5_mail_get_word_def)
  show ?thesis
    using assms(1,3) 0 1
    by (auto simp: retrieve_user_def route_def Let_def word_at_def table_user_def
        al5_group_user_from_uid_eq al5_group_user_from_chan_uid_eq option.map_comp comp_def
        option.map_ident)
qed

lemma route_Some:
  assumes "group_ok st" "route st m = Some (p, q)"
  shows "Some p \<in> set (user_table st)" "q = mail_to_queue (al5_mail_get_uid m)"
    "\<exists>u. sys_users st p = Some u"
proof -
  have t: "Some p \<in> set (user_table st)" if "table_user st i = Some p" for i
  proof -
    have "nat i < length (user_table st)" "user_table st ! nat i = Some p"
      using that by (auto simp: table_user_def split: if_splits)
    then show ?thesis by (metis nth_mem)
  qed
  show "Some p \<in> set (user_table st)"
    using assms(2) t chan_user_Some
    by (fastforce simp: route_def Let_def split: if_splits)
  then show "\<exists>u. sys_users st p = Some u" using group_ok_entry [OF assms(1)] by fastforce
  show "q = mail_to_queue (al5_mail_get_uid m)"
    using assms(2) by (auto simp: route_def Let_def split: if_splits)
qed

text \<open>Deliveries change neither the table nor the numbers and channels of the users, hence not
  the routing.\<close>

definition same_routes :: "system \<Rightarrow> system \<Rightarrow> bool" where
  "same_routes st st' \<longleftrightarrow> sys_group st' = sys_group st \<and>
     (\<forall>p. map_option (\<lambda>u. (u_uid u, u_chan_uid u)) (sys_users st' p) =
          map_option (\<lambda>u. (u_uid u, u_chan_uid u)) (sys_users st p))"

lemma same_routes_refl [simp]: "same_routes st st"
  by (simp add: same_routes_def)

lemma same_routes_trans: "same_routes st st' \<Longrightarrow> same_routes st' st'' \<Longrightarrow> same_routes st st''"
  by (simp add: same_routes_def)

lemma same_routes_table: "same_routes st st' \<Longrightarrow> user_table st' = user_table st"
  by (simp add: same_routes_def user_table_def)

lemma same_routes_user:
  "same_routes st st' \<Longrightarrow> (\<exists>u. sys_users st' p = Some u \<and> P (u_uid u) (u_chan_uid u)) =
    (\<exists>u. sys_users st p = Some u \<and> P (u_uid u) (u_chan_uid u))"
proof -
  assume s: "same_routes st st'"
  then have e: "map_option (\<lambda>u. (u_uid u, u_chan_uid u)) (sys_users st' p) =
      map_option (\<lambda>u. (u_uid u, u_chan_uid u)) (sys_users st p)"
    by (simp add: same_routes_def)
  have x: "(\<exists>u. x = Some u \<and> P (u_uid u) (u_chan_uid u)) =
      (\<exists>i c. map_option (\<lambda>u. (u_uid u, u_chan_uid u)) x = Some (i, c) \<and> P i c)" for x
    by auto
  show ?thesis unfolding x [of "sys_users st' p"] x [of "sys_users st p"] e ..
qed

lemma same_routes_ok:
  assumes "same_routes st st'" "group_ok st"
  shows "group_ok st'"
  using assms(2) same_routes_user [OF assms(1), where P = "\<lambda>i c. i = int n" for n]
    assms(1)
  by (simp add: group_ok_def same_routes_def)

lemma same_routes_route: "same_routes st st' \<Longrightarrow> route st' = route st"
proof (rule ext)
  fix m
  assume s: "same_routes st st'"
  have "has_chan st' c e = has_chan st c e" for c e
    using same_routes_user [OF s, where P = "\<lambda>i c'. c' = c"] by (cases e) (auto simp: has_chan_def)
  then have h: "has_chan st' = has_chan st" by (intro ext)
  have "chan_user st' c = chan_user st c" "table_user st' i = table_user st i" for c i
    using same_routes_table [OF s] by (simp_all add: table_user_def chan_user_def h)
  then show "route st' m = route st m" by (simp add: route_def Let_def)
qed

section \<open>Handling one message\<close>

text \<open>The messages that destroy channels without a user.\<close>

definition orphan_wire :: "u32 \<Rightarrow> wire" where
  "orphan_wire c = wire_of (mail_of (uid_code AL_MCU_MSG_QUIET_DESTROY_CHANNEL) (le32 c))"

lemma destroy_orphan_channel_cases:
  assumes "sys_ok s"
  obtains s' where "destroy_orphan_channel c s = Some s'" "hw_frame s s'"
    "hw_k s' = km_step 1 0 (hw_k s)"
    "outbox s' = outbox s @ (if 12 \<le> outroom s then [orphan_wire (u32_of_int c)] else [])"
proof -
  let ?m = "mail_of (uid_code AL_MCU_MSG_QUIET_DESTROY_CHANNEL) (le32 (u32_of_int c))"
  have eq: "destroy_orphan_channel c s = do {
      (err, s') \<leftarrow> make_and_send (create_quiet_destroy_channel_msg (u32_of_int c)) s; Some s' }"
  proof (cases "al5_mcu_send ?m (s\<lparr>hw_k := km_step 1 1 (hw_k s)\<rparr>)")
    case None
    with assms show ?thesis
      by (simp add: destroy_orphan_channel_def make_and_send_def create_quiet_destroy_eq
          al5_check_and_send_def send_msg_def)
  next
    case (Some r)
    obtain err t where "r = (err, t)" by (cases r)
    with Some assms show ?thesis
      by (cases "err = 0") (simp_all add: destroy_orphan_channel_def make_and_send_def
          create_quiet_destroy_eq al5_check_and_send_def send_msg_def)
  qed
  show thesis
  proof (rule make_and_send_cases [where m = ?m and s = s
        and mk = "create_quiet_destroy_channel_msg (u32_of_int c)", OF assms
          create_quiet_destroy_eq [OF assms] destroy_mail_wf])
    fix s'
    assume "make_and_send (create_quiet_destroy_channel_msg (u32_of_int c)) s = Some (0, s')"
      "hw_frame s s'" "outbox s' = outbox s @ [wire_of ?m]" "hw_k s' = km_step 1 0 (hw_k s)"
      "unat (body_size ?m) + 8 \<le> outroom s"
    then show thesis
      by (intro that [of s']) (simp_all add: eq orphan_wire_def mail_of_sel)
  next
    assume "make_and_send (create_quiet_destroy_channel_msg (u32_of_int c)) s =
        Some (- EAGAIN, s\<lparr>hw_k := km_step 1 0 (hw_k s)\<rparr>)" "outroom s < unat (body_size ?m) + 8"
    then show thesis
      by (intro that [of "s\<lparr>hw_k := km_step 1 0 (hw_k s)\<rparr>"]) (simp_all add: eq mail_of_sel)
  qed
qed

text \<open>The message that answers one without a user, if any.\<close>

definition orphan_of :: "system \<Rightarrow> al5_mail \<Rightarrow> u32 option" where
  "orphan_of st m =
     (if route st m = None \<and> al5_mail_get_uid m \<noteq> uid_code AL_MCU_MSG_TRACE
         \<and> should_destroy_channel_on_bad_feedback (al5_mail_get_uid m)
      then Some (the (load32 (body m) 0)) else None)"

lemma handle_mail_delivered:
  assumes g: "group_ok st" and s: "sys_ok (sys_hw st)" and m: "fw_mail_ok m"
    and r: "route st m = Some (p, q)" and u: "sys_users st p = Some u"
  shows "handle_mail m st = Some (st\<lparr>sys_users := (sys_users st)
      (p \<mapsto> set_queue q ((u_queues u q)\<lparr>q_list := q_list (u_queues u q) @ [m]\<rparr>) u),
    sys_hw := (sys_hw st)\<lparr>hw_k := km_step 1 1 (hw_k (sys_hw st))\<rparr>\<rparr>)"
proof -
  have n: "al5_mail_get_uid m \<noteq> uid_code AL_MCU_MSG_TRACE"
    using r by (auto simp: route_def Let_def)
  have "retrieve_user st m = Some (Some p)" using retrieve_user_eq [OF g m n] r by simp
  with s u n route_Some(2) [OF g r] show ?thesis
    by (simp add: handle_mail_def try_to_deliver_to_user_def al5_user_deliver_eq sys_ok_kmem Let_def)
qed

lemma handle_mail_undelivered:
  assumes g: "group_ok st" and s: "sys_ok (sys_hw st)" and m: "fw_mail_ok m"
    and r: "route st m = None"
  shows "\<exists>s'. handle_mail m st = Some (st\<lparr>sys_hw := s'\<rparr>) \<and> hw_frame (sys_hw st) s' \<and>
    km_live (hw_k s') = km_live (hw_k (sys_hw st)) - 1 \<and>
    outbox s' = outbox (sys_hw st) @ (case orphan_of st m of None \<Rightarrow> []
      | Some c \<Rightarrow> if 12 \<le> outroom (sys_hw st) then [orphan_wire c] else [])"
proof (cases "al5_mail_get_uid m = uid_code AL_MCU_MSG_TRACE")
  case True
  with m show ?thesis
    by (auto simp: handle_mail_def fw_mail_ok_def al5_print_mcu_trace_def al5_mail_get_body_def
        free_received_def al5_free_mail_def kfree_step orphan_of_def
        intro!: exI [of _ "(sys_hw st)\<lparr>hw_k := km_step 0 (- 1) (hw_k (sys_hw st))\<rparr>"])
next
  case n: False
  let ?s = "sys_hw st"
  have t: "try_to_deliver_to_user m st = Some (- 1, st)"
    using retrieve_user_eq [OF g m n] r by (simp add: try_to_deliver_to_user_def)
  show ?thesis
  proof (cases "should_destroy_channel_on_bad_feedback (al5_mail_get_uid m)")
    case True
    then have c: "al5_mail_get_chan_uid m = Some (the (load32 (body m) 0))"
      using m n load32_ok [of 0 "body m"]
      by (auto simp: al5_mail_get_chan_uid_def should_destroy_channel_on_bad_feedback_def Let_def
          fw_mail_ok_def al5_mail_get_word_def split: if_splits)
    obtain s' where d: "destroy_orphan_channel (int_of_u32 (the (load32 (body m) 0))) ?s = Some s'"
      "hw_frame ?s s'" "hw_k s' = km_step 1 0 (hw_k ?s)"
      "outbox s' = outbox ?s @ (if 12 \<le> outroom ?s
         then [orphan_wire (u32_of_int (int_of_u32 (the (load32 (body m) 0))))] else [])"
      using s by (rule destroy_orphan_channel_cases)
    let ?s' = "s'\<lparr>hw_k := km_step 0 (- 1) (hw_k s')\<rparr>"
    have "handle_mail m st = Some (st\<lparr>sys_hw := ?s'\<rparr>)"
      using n t True c d
      by (simp add: handle_mail_def Let_def free_received_def al5_free_mail_def kfree_step)
    moreover have "hw_frame ?s ?s'" using d(2) hw_frame_km_step by (rule hw_frame_trans)
    ultimately show ?thesis
      using d True r n by (auto simp: orphan_of_def)
  next
    case False
    with n t r show ?thesis
      by (auto simp: handle_mail_def Let_def free_received_def al5_free_mail_def kfree_step
          orphan_of_def intro!: exI [of _ "(sys_hw st)\<lparr>hw_k := km_step 0 (- 1) (hw_k (sys_hw st))\<rparr>"])
  qed
qed

section \<open>The interrupt handler's loop\<close>

text \<open>The mails a list of received messages puts into a queue.\<close>

definition routed :: "system \<Rightarrow> addr \<Rightarrow> user_mail \<Rightarrow> al5_mail list \<Rightarrow> al5_mail list" where
  "routed st p q ms = filter (\<lambda>m. route st m = Some (p, q)) ms"

text \<open>What one or several messages do to the users.\<close>

definition delivered :: "al5_mail list \<Rightarrow> system \<Rightarrow> system \<Rightarrow> bool" where
  "delivered ms st st' \<longleftrightarrow> same_routes st st' \<and>
     (\<forall>p u. sys_users st p = Some u \<longrightarrow> (\<exists>u'. sys_users st' p = Some u' \<and>
        u'\<lparr>u_queues := u_queues u\<rparr> = u \<and>
        (\<forall>q. q_list (u_queues u' q) = q_list (u_queues u q) @ routed st p q ms \<and>
             q_locked (u_queues u' q) = q_locked (u_queues u q))))"

lemma delivered_append:
  assumes "delivered ms st st'" "delivered ms' st' st''"
  shows "delivered (ms @ ms') st st''"
  unfolding delivered_def
proof (intro conjI allI impI)
  show "same_routes st st''"
    using assms by (auto simp: delivered_def intro: same_routes_trans)
  fix p u
  assume "sys_users st p = Some u"
  with assms(1) obtain u1 where 1: "sys_users st' p = Some u1" "u1\<lparr>u_queues := u_queues u\<rparr> = u"
    "\<And>q. q_list (u_queues u1 q) = q_list (u_queues u q) @ routed st p q ms"
    "\<And>q. q_locked (u_queues u1 q) = q_locked (u_queues u q)" unfolding delivered_def by blast
  with assms(2) obtain u2 where 2: "sys_users st'' p = Some u2" "u2\<lparr>u_queues := u_queues u1\<rparr> = u1"
    "\<And>q. q_list (u_queues u2 q) = q_list (u_queues u1 q) @ routed st' p q ms'"
    "\<And>q. q_locked (u_queues u2 q) = q_locked (u_queues u1 q)" unfolding delivered_def by blast
  have "route st' = route st" using assms(1) same_routes_route by (simp add: delivered_def)
  then have "routed st' p q ms' = routed st p q ms'" for q by (simp add: routed_def)
  moreover have "u2\<lparr>u_queues := u_queues u\<rparr> = u" using 1(2) 2(2) by (cases u; cases u1; cases u2) simp
  ultimately show "\<exists>u'. sys_users st'' p = Some u' \<and> u'\<lparr>u_queues := u_queues u\<rparr> = u \<and>
      (\<forall>q. q_list (u_queues u' q) = q_list (u_queues u q) @ routed st p q (ms @ ms') \<and>
           q_locked (u_queues u' q) = q_locked (u_queues u q))"
    using 1 2 by (auto simp: routed_def)
qed

lemma delivered_Nil: "delivered [] st st"
  by (auto simp: delivered_def routed_def)

lemma delivered_none:
  assumes "route st m = None"
  shows "delivered [m] st (st\<lparr>sys_hw := s'\<rparr>)"
  using assms by (auto simp: delivered_def routed_def same_routes_def)

lemma delivered_one:
  assumes "route st m = Some (p, q)" "sys_users st p = Some u"
  shows "delivered [m] st (st\<lparr>sys_users := (sys_users st)
      (p \<mapsto> set_queue q ((u_queues u q)\<lparr>q_list := q_list (u_queues u q) @ [m]\<rparr>) u), sys_hw := s'\<rparr>)"
  using assms by (auto simp: delivered_def routed_def same_routes_def set_queue_def)

lemma delivered_hw: "delivered ms (st\<lparr>sys_hw := s\<rparr>) st' = delivered ms st st'"
proof -
  have "same_routes st (st\<lparr>sys_hw := s\<rparr>)" by (simp add: same_routes_def)
  from same_routes_route [OF this] show ?thesis
    by (simp add: delivered_def routed_def same_routes_def)
qed

lemma group_ok_hw [simp]: "group_ok (st\<lparr>sys_hw := s\<rparr>) = group_ok st"
  by (simp add: group_ok_def)

text \<open>One message: it is taken from the mailbox, delivered or answered, and nothing else of the
  incoming messages changes.\<close>

lemma read_mail_first:
  assumes g: "group_ok st" and s: "sys_ok (sys_hw st)" and i: "inbox (sys_hw st) = w # ws"
    and m: "fw_mail_ok (mail_of_wire w)"
  shows "\<exists>st'. read_mail st = Some st' \<and> group_ok st' \<and> sys_ok (sys_hw st') \<and>
    inbox (sys_hw st') = ws \<and> delivered [mail_of_wire w] st st'"
proof -
  let ?m = "mail_of_wire w"
  from s have h: "hw_ok (sys_hw st)" "km_nofail (hw_k (sys_hw st))" by (simp_all add: sys_ok_def)
  obtain s1 where r: "al5_mcu_recv (sys_hw st) = Some (?m, s1)" "hw_ok s1" "inbox s1 = ws"
    "hw_k s1 = km_step 3 1 (hw_k (sys_hw st))"
    using h i by (rule al5_mcu_recv_first)
  let ?st = "st\<lparr>sys_hw := s1\<rparr>"
  have s1: "sys_ok s1" using r(2,4) h(2) by (simp add: sys_ok_def)
  show ?thesis
  proof (cases "route ?st ?m")
    case None
    with handle_mail_undelivered [of ?st ?m] g s1 m obtain s' where
      s': "handle_mail ?m ?st = Some (?st\<lparr>sys_hw := s'\<rparr>)" "hw_frame s1 s'" by auto
    from delivered_none [OF None, of s'] have "delivered [?m] st (st\<lparr>sys_hw := s'\<rparr>)"
      by (simp add: delivered_hw)
    with s' r s1 g sys_ok_frame [OF s'(2) s1] show ?thesis
      by (simp add: read_mail_def hw_frame_def)
  next
    case (Some pq)
    obtain p q where pq: "pq = (p, q)" by (cases pq)
    from route_Some(3) [of ?st ?m p q] g Some pq obtain u where u: "sys_users ?st p = Some u" by auto
    let ?st' = "?st\<lparr>sys_users := (sys_users ?st)
      (p \<mapsto> set_queue q ((u_queues u q)\<lparr>q_list := q_list (u_queues u q) @ [?m]\<rparr>) u),
      sys_hw := s1\<lparr>hw_k := km_step 1 1 (hw_k s1)\<rparr>\<rparr>"
    have d: "delivered [?m] ?st ?st'" using Some u pq by (intro delivered_one) simp_all
    have "handle_mail ?m ?st = Some ?st'"
      using handle_mail_delivered [of ?st ?m p q u] g s1 m Some pq u by simp
    moreover have "group_ok ?st'"
      using d g same_routes_ok [of ?st ?st'] by (simp add: delivered_def)
    moreover have "sys_ok (s1\<lparr>hw_k := km_step 1 1 (hw_k s1)\<rparr>)" using s1 by simp
    ultimately show ?thesis
      using r s1 d delivered_hw [where ms = "[?m]" and st = st and s = s1 and st' = ?st'] by (simp add: read_mail_def)
  qed
qed

lemma read_mails_all:
  assumes "group_ok st" "sys_ok (sys_hw st)"
    and "\<forall>w \<in> set (inbox (sys_hw st)). fw_mail_ok (mail_of_wire w)"
  shows "\<exists>st'. read_mails n st = Some st' \<and> group_ok st' \<and> sys_ok (sys_hw st') \<and>
    inbox (sys_hw st') = drop n (inbox (sys_hw st)) \<and>
    delivered (map mail_of_wire (take n (inbox (sys_hw st)))) st st'"
  using assms
proof (induction n arbitrary: st)
  case 0
  then show ?case by (subst read_mails.simps) (simp add: delivered_Nil)
next
  case (Suc n)
  have e: "al5_mcu_is_empty (sys_hw st) \<longleftrightarrow> inbox (sys_hw st) = []"
    using Suc.prems(2) by (simp add: al5_mcu_is_empty_iff sys_ok_def)
  show ?case
  proof (cases "inbox (sys_hw st)")
    case Nil
    with e Suc.prems show ?thesis by (subst read_mails.simps) (simp add: delivered_Nil)
  next
    case (Cons w ws)
    with Suc.prems read_mail_first [of st w ws] obtain st1 where 1: "read_mail st = Some st1"
      "group_ok st1" "sys_ok (sys_hw st1)" "inbox (sys_hw st1) = ws"
      "delivered [mail_of_wire w] st st1" by auto
    with Suc.IH [of st1] Suc.prems(3) Cons obtain st2 where 2: "read_mails n st1 = Some st2"
      "group_ok st2" "sys_ok (sys_hw st2)" "inbox (sys_hw st2) = drop n ws"
      "delivered (map mail_of_wire (take n ws)) st1 st2" by auto
    from delivered_append [OF 1(5) 2(5)] 1 2 e Cons show ?thesis
      by (subst read_mails.simps) simp
  qed
qed

section \<open>Binding and unbinding\<close>

lemma find_free_table:
  assumes "group_ok st"
  shows "find_free (nat (g_max_users_nb (sys_group st))) 0 (g_users (sys_group st)) =
    Some (case find (\<lambda>j. user_table st ! j = None) [0..<length (user_table st)] of
      None \<Rightarrow> - 1 | Some j \<Rightarrow> int j)"
  using find_free_eq [of "length (user_table st)" 0 "user_table st"] group_okE(1,2) [OF assms]
  by simp

lemma group_ok_bind:
  assumes g: "group_ok st" and p: "Some p \<notin> set (user_table st)" and i: "i < length (user_table st)"
  shows "group_ok (st\<lparr>sys_group := (sys_group st)\<lparr>g_users := Some ((user_table st)[i := Some p])\<rparr>,
    sys_users := (sys_users st)(p \<mapsto> al5_user_init (int i))\<rparr>)"
  using group_okE [OF g] p i
  by (auto simp: group_ok_def nth_list_update al5_user_init_def in_set_conv_nth split: if_splits)

lemma group_ok_unbind:
  assumes g: "group_ok st"
  shows "group_ok (st\<lparr>sys_group := (sys_group st)\<lparr>g_users := Some ((user_table st)[i := None])\<rparr>\<rparr>)"
  using group_okE [OF g]
  by (cases "i < length (user_table st)")
     (auto simp: group_ok_def nth_list_update split: if_splits)

lemma bind_user_ok:
  assumes "group_ok st" "Some p \<notin> set (user_table st)"
  shows "if None \<in> set (user_table st)
    then \<exists>i st' st''. al5_group_bind_user p st = Some (0, st') \<and> group_ok st' \<and>
      i < length (user_table st) \<and> user_table st ! i = None \<and>
      (\<forall>j < i. user_table st ! j \<noteq> None) \<and>
      user_table st' = (user_table st)[i := Some p] \<and>
      sys_users st' = (sys_users st)(p \<mapsto> al5_user_init (int i)) \<and> sys_hw st' = sys_hw st \<and>
      al5_group_unbind_user p st' = Some st'' \<and> group_ok st'' \<and> user_table st'' = user_table st
    else al5_group_bind_user p st = Some (- EAGAIN, st)"
proof (cases "None \<in> set (user_table st)")
  case False
  then have "find (\<lambda>j. user_table st ! j = None) [0..<length (user_table st)] = None"
    by (auto simp: find_None_iff in_set_conv_nth)
  with False find_free_table [OF assms(1)] show ?thesis by (simp add: al5_group_bind_user_def)
next
  case True
  then obtain i where f: "find (\<lambda>j. user_table st ! j = None) [0..<length (user_table st)] = Some i"
    by (cases "find (\<lambda>j. user_table st ! j = None) [0..<length (user_table st)]")
       (auto simp: find_None_iff in_set_conv_nth)
  then have i: "i < length (user_table st)" "user_table st ! i = None"
    "\<forall>j < i. user_table st ! j \<noteq> None"
    by (auto simp: find_Some_iff)
  let ?st = "st\<lparr>sys_group := (sys_group st)\<lparr>g_users := Some ((user_table st)[i := Some p])\<rparr>,
    sys_users := (sys_users st)(p \<mapsto> al5_user_init (int i))\<rparr>"
  have ok: "group_ok ?st" using assms i(1) by (rule group_ok_bind)
  have t: "user_table ?st = (user_table st)[i := Some p]" by (simp add: user_table_def)
  have b: "al5_group_bind_user p st = Some (0, ?st)"
    using find_free_table [OF assms(1)] f i(1) group_okE(1) [OF assms(1)]
    by (simp add: al5_group_bind_user_def array_set_nth Let_def)
  let ?st' = "?st\<lparr>sys_group := (sys_group ?st)\<lparr>g_users := Some ((user_table ?st)[i := None])\<rparr>\<rparr>"
  have "al5_group_unbind_user p ?st = Some ?st'"
    using i(1) t array_set_nth [of i "(user_table st)[i := Some p]" None]
    by (simp add: al5_group_unbind_user_def al5_user_init_def)
  moreover have "group_ok ?st'" using ok by (rule group_ok_unbind)
  moreover have "user_table ?st' = user_table st"
    using i(2) t by (simp add: user_table_def list_update_same_conv [symmetric])
      (metis i(1) list_update_id list_update_overwrite)
  ultimately show ?thesis using True b ok i t by auto
qed

section \<open>Properties\<close>

text \<open>C2: one run of the interrupt handler's loop. From any well-formed state it returns, having
  taken the first 100 messages (or all, if fewer) from the firmware's mailbox, with the rest
  still there in order; every message with a user ends in the queue the routing names, behind
  those that were there and in the order of arrival; nothing else about the users changes. A
  burst of traces, answers without a user and a full mailbox do not break it.\<close>

theorem al5_group_read_mails_delivers:
  assumes "group_ok st" "sys_ok (sys_hw st)"
    and "\<forall>w \<in> set (inbox (sys_hw st)). fw_mail_ok (mail_of_wire w)"
  shows "\<exists>st'. al5_group_read_mails st = Some st' \<and> group_ok st' \<and> sys_ok (sys_hw st') \<and>
    inbox (sys_hw st') = drop 100 (inbox (sys_hw st)) \<and>
    delivered (map mail_of_wire (take 100 (inbox (sys_hw st)))) st st'"
  using read_mails_all [OF assms, of 100]
  by (simp add: al5_group_read_mails_def MAX_MAILBOX_MSG_def)

text \<open>A system of two user slots, one taken by user 0 with channel 3, and one message for this
  channel in the firmware's mailbox.\<close>

definition status3 :: al5_mail where
  "status3 = mail_of (uid_code AL_MCU_MSG_ENCODE_ONE_FRM) (le32 3)"

text \<open>The firmware's side of its mailbox: it puts a message behind the others, with the same
  protocol.\<close>

definition firmware_puts :: "al5_mail \<Rightarrow> hw \<Rightarrow> hw" where
  "firmware_puts m s = s\<lparr>hw_mem := snd (snd (the (al5_mailbox_write (mcu_to_cpu (hw_mcu s)) m (hw_mem s))))\<rparr>"

lemma firmware_puts_ok:
  assumes s: "sys_ok s" and wf: "mail_wf m"
    and room: "box_used (mcu_to_cpu (hw_mcu s)) (hw_mem s) + unat (body_size m) + 8
      \<le> unat (box_size (mcu_to_cpu (hw_mcu s)))"
  shows "sys_ok (firmware_puts m s)" "inbox (firmware_puts m s) = inbox s @ [wire_of m]"
    "outbox (firmware_puts m s) = outbox s" "outroom (firmware_puts m s) = outroom s"
proof -
  let ?in = "mcu_to_cpu (hw_mcu s)" and ?out = "cpu_to_mcu (hw_mcu s)"
  have ok: "mailbox_ok ?in (hw_mem s)" "mailbox_ok ?out (hw_mem s)" "mcu_disjoint (hw_mcu s)"
    using s by (simp_all add: sys_ok_def hw_ok_def)
  from ok(1) wf room have "sys_ok (firmware_puts m s) \<and> inbox (firmware_puts m s) = inbox s @ [wire_of m] \<and>
    outbox (firmware_puts m s) = outbox s \<and> outroom (firmware_puts m s) = outroom s"
  proof (rule al5_mailbox_write_refines)
    fix box' mem'
    assume w: "al5_mailbox_write ?in m (hw_mem s) = Some (0, box', mem')"
      "\<exists>x. box' = ?in\<lparr>local_tail := x\<rparr>" "mailbox_ok box' mem'"
      "mailbox_mails box' mem' = mailbox_mails ?in (hw_mem s) @ [wire_of m]"
      and fr: "\<And>a. a \<notin> {box_tail ?in ..< box_head ?in + 8 + unat (box_size ?in)} \<Longrightarrow> mem' a = hw_mem s a"
    have h: "firmware_puts m s = s\<lparr>hw_mem := mem'\<rparr>" using w(1) by (simp add: firmware_puts_def)
    have same: "mem' a = hw_mem s a" if "a \<in> mailbox_area ?out" for a
      using that ok(3) mailbox_layout_of_ok [OF ok(1)]
      by (intro fr) (auto simp: mcu_disjoint_def mailbox_area_def mailbox_layout_def disjoint_iff)
    have o: "mailbox_ok ?out mem'" "mailbox_mails ?out mem' = mailbox_mails ?out (hw_mem s)"
      "box_used ?out mem' = box_used ?out (hw_mem s)"
      using mailbox_cong [OF mailbox_layout_of_ok [OF ok(2)] same] ok(2) by simp_all
    have i: "mailbox_ok ?in mem'" "mailbox_mails ?in mem' = mailbox_mails ?in (hw_mem s) @ [wire_of m]"
      using w(2-4) by auto
    show ?thesis
      using o i ok(3) s by (simp add: h sys_ok_def hw_ok_def inbox_def outbox_def outroom_def)
  qed
  then show "sys_ok (firmware_puts m s)" "inbox (firmware_puts m s) = inbox s @ [wire_of m]"
    "outbox (firmware_puts m s) = outbox s" "outroom (firmware_puts m s) = outroom s" by simp_all
qed

definition hw1 :: hw where
  "hw1 = firmware_puts status3 hw0"

definition sys1 :: system where
  "sys1 = \<lparr>sys_group = \<lparr>g_max_users_nb = 2, g_users = Some [Some 10, None]\<rparr>,
           sys_users = [10 \<mapsto> (al5_user_init 0)\<lparr>u_chan_uid := 3\<rparr>], sys_hw = hw1\<rparr>"

lemma hw1_ok: "sys_ok hw1" "inbox hw1 = [wire_of status3]" "outbox hw1 = []" "hw_k hw1 = kmem0"
proof -
  let ?in = "mcu_to_cpu (hw_mcu hw0)"
  have "mailbox_ok ?in (hw_mem hw0)" "mailbox_mails ?in (hw_mem hw0) = []"
    using hw0_ok(1,3) by (simp_all add: sys_ok_def hw_ok_def inbox_def)
  then have "box_used ?in (hw_mem hw0) = 0" by (simp add: mailbox_mails_Nil_used)
  moreover have "box_size ?in = 64" by (simp add: hw0_def al5_mailbox_init_def Let_def)
  ultimately have room: "box_used ?in (hw_mem hw0) + unat (body_size status3) + 8 \<le> unat (box_size ?in)"
    by (simp add: status3_def mail_of_sel)
  have wf: "mail_wf status3" by (simp add: status3_def)
  show "sys_ok hw1" "inbox hw1 = [wire_of status3]" "outbox hw1 = []" "hw_k hw1 = kmem0"
    using firmware_puts_ok [OF hw0_ok(1) wf room] hw0_ok by (simp_all add: hw1_def firmware_puts_def)
qed

lemma sys1_ok: "group_ok sys1" "user_table sys1 = [Some 10, None]"
  by (auto simp: group_ok_def sys1_def user_table_def al5_user_init_def less_Suc_eq numeral_2_eq_2
      intro!: gr0I)

lemma status3_wire: "mail_of_wire (wire_of status3) = status3"
  unfolding status3_def by (rule mail_of_wire_of) simp_all

lemma status3_route: "route sys1 status3 = Some (10, AL5_USER_MAIL_STATUS)"
proof -
  have "word_at status3 0 = 3"
    using load32_le32 [of 3 "[]"] by (simp add: word_at_def status3_def mail_of_sel)
  moreover have "find (has_chan sys1 3) [Some 10, None] = Some (Some 10)"
    by (simp add: has_chan_def sys1_def)
  then have "chan_user sys1 3 = Some 10" by (simp add: chan_user_def sys1_ok)
  ultimately show ?thesis
    by (simp add: route_def status3_def mail_simps mail_to_queue_def)
qed

theorem al5_group_read_mails_delivers_witness:
  "\<exists>st' u'. al5_group_read_mails sys1 = Some st' \<and> inbox (sys_hw st') = [] \<and>
    sys_users st' 10 = Some u' \<and> q_list (u_queues u' AL5_USER_MAIL_STATUS) = [status3] \<and>
    q_list (u_queues u' AL5_USER_MAIL_SC) = []"
proof -
  have h: "sys_hw sys1 = hw1" by (simp add: sys1_def)
  have "fw_mail_ok status3"
    by (simp add: fw_mail_ok_def status3_def mail_simps)
  then have "\<forall>w \<in> set (inbox (sys_hw sys1)). fw_mail_ok (mail_of_wire w)"
    by (simp add: h hw1_ok status3_wire)
  from al5_group_read_mails_delivers [OF sys1_ok(1) _ this] hw1_ok obtain st' where
    st': "al5_group_read_mails sys1 = Some st'" "inbox (sys_hw st') = []" "delivered [status3] sys1 st'"
    by (auto simp: h status3_wire)
  have "sys_users sys1 10 = Some ((al5_user_init 0)\<lparr>u_chan_uid := 3\<rparr>)" by (simp add: sys1_def)
  with st'(3) obtain u' where "sys_users st' 10 = Some u'"
    "\<And>q. q_list (u_queues u' q) = q_list (u_queues (al5_user_init 0) q) @ routed sys1 10 q [status3]"
    unfolding delivered_def by fastforce
  with st' show ?thesis
    by (simp add: routed_def status3_route al5_user_init_def al5_queue_init_def)
qed

text \<open>C27: \<open>handle_mail\<close> on a message without a user. The message is freed; if it is feedback of
  a channel (anything but the answers to an initialisation, a search or a destruction), the
  firmware is told to destroy that channel, and the request is dropped only if the mailbox is
  full; no user changes.\<close>

theorem handle_mail_orphan:
  assumes "group_ok st" "sys_ok (sys_hw st)" "fw_mail_ok m" "route st m = None"
  shows "\<exists>s'. handle_mail m st = Some (st\<lparr>sys_hw := s'\<rparr>) \<and> sys_ok s' \<and>
    inbox s' = inbox (sys_hw st) \<and> km_live (hw_k s') = km_live (hw_k (sys_hw st)) - 1 \<and>
    outbox s' = outbox (sys_hw st) @ (case orphan_of st m of None \<Rightarrow> []
      | Some c \<Rightarrow> if 12 \<le> outroom (sys_hw st) then [orphan_wire c] else [])"
proof -
  from handle_mail_undelivered [OF assms] obtain s' where
    s': "handle_mail m st = Some (st\<lparr>sys_hw := s'\<rparr>)" "hw_frame (sys_hw st) s'"
    "km_live (hw_k s') = km_live (hw_k (sys_hw st)) - 1"
    "outbox s' = outbox (sys_hw st) @ (case orphan_of st m of None \<Rightarrow> []
      | Some c \<Rightarrow> if 12 \<le> outroom (sys_hw st) then [orphan_wire c] else [])" by blast
  have "inbox s' = inbox (sys_hw st)"
    using s'(2) assms(2) by (simp add: hw_frame_def sys_ok_def)
  then show ?thesis using s' sys_ok_frame [OF s'(2) assms(2)] by blast
qed

definition orphan9 :: al5_mail where
  "orphan9 = mail_of (uid_code AL_MCU_MSG_ENCODE_ONE_FRM) (le32 9)"

theorem handle_mail_orphan_witness:
  "\<exists>s'. handle_mail orphan9 (sys1\<lparr>sys_hw := hw0\<rparr>) = Some (sys1\<lparr>sys_hw := s'\<rparr>) \<and>
    outbox s' = [orphan_wire 9]"
proof -
  let ?st = "sys1\<lparr>sys_hw := hw0\<rparr>"
  have w: "word_at orphan9 0 = 9" "load32 (body orphan9) 0 = Some 9"
    using load32_le32 [of 9 "[]"] by (simp_all add: word_at_def orphan9_def mail_of_sel)
  have f: "fw_mail_ok orphan9" by (simp add: fw_mail_ok_def orphan9_def mail_simps)
  have n: "al5_mail_get_uid orphan9 = uid_code AL_MCU_MSG_ENCODE_ONE_FRM"
    by (simp add: orphan9_def mail_simps)
  have "user_table ?st = [Some 10, None]" using sys1_ok(2) by (simp add: user_table_def)
  then have r: "route ?st orphan9 = None"
    by (simp add: route_def n w chan_user_def has_chan_def sys1_def)
  then have "orphan_of ?st orphan9 = Some 9"
    by (simp add: orphan_of_def n w should_destroy_channel_on_bad_feedback_def)
  with handle_mail_orphan [OF _ _ f r] sys1_ok(1) hw0_ok show ?thesis by auto
qed

text \<open>\<open>al5_group_bind_user\<close> gives a new user the smallest free number, with an initialised
  structure, and fails with \<open>-EAGAIN\<close> and without effect exactly if no number is free; the
  table stays consistent and other users are not touched. Unbinding gives the number back.\<close>

theorem al5_group_bind_user_spec:
  assumes "group_ok st" "Some p \<notin> set (user_table st)"
  shows "if None \<in> set (user_table st)
    then \<exists>i st' st''. al5_group_bind_user p st = Some (0, st') \<and> group_ok st' \<and>
      i < length (user_table st) \<and> user_table st ! i = None \<and>
      (\<forall>j < i. user_table st ! j \<noteq> None) \<and>
      user_table st' = (user_table st)[i := Some p] \<and>
      sys_users st' = (sys_users st)(p \<mapsto> al5_user_init (int i)) \<and> sys_hw st' = sys_hw st \<and>
      al5_group_unbind_user p st' = Some st'' \<and> group_ok st'' \<and> user_table st'' = user_table st
    else al5_group_bind_user p st = Some (- EAGAIN, st)"
  using assms by (rule bind_user_ok)

theorem al5_group_bind_user_spec_witness:
  "\<exists>st' st''. al5_group_bind_user 20 sys1 = Some (0, st') \<and> user_table st' = [Some 10, Some 20] \<and>
    al5_group_unbind_user 20 st' = Some st'' \<and> user_table st'' = [Some 10, None]"
  using al5_group_bind_user_spec [OF sys1_ok(1), of 20]
  by (auto simp: sys1_ok less_Suc_eq numeral_2_eq_2)



end
