(* ===== verification/Codec.thy ===== *)
theory Codec
  imports Al_Group
begin

text \<open>
  The device (\<open>common/al_codec.c\<close>): memory and registers of the firmware's processor, its start
  and its first messages, the opening and closing of device files. With it the two sources of the
  second-level cache's parameters (\<open>common/al_l2_prefetch.c\<close>, \<open>common/xil_l2_prefetch.c\<close>) and the
  interrupt handlers (\<open>common/al_vcu.c\<close>).

  A call of the kernel that is not modelled elsewhere, a write of a register and a read of one are
  recorded in a log with the answer, in the order the code makes them; the answers are a
  parameter. A write also changes the device memory.
\<close>

section \<open>The device\<close>

datatype kcall =
    Write_reg addr u32
  | Read_reg addr
  | Signal_mcu
  | Msleep nat
  | Request_firmware string
  | Release_firmware
  | Copy_icache nat
  | Copy_sram nat
  | Get_resource
  | Get_irq
  | Ioremap
  | Parse_mem_node
  | Address_to_resource
  | Declare_memory
  | Set_coherent_mask
  | Of_node_put
  | Release_memory
  | Request_irq
  | Set_drvdata
  | Alloc_chrdev_region int int string
  | Unregister_chrdev_region int int
  | Cdev_add int int
  | Cdev_del
  | Class_create string
  | Class_destroy
  | Device_create int int string
  | Device_destroy int int
  | Driver_register string
  | Driver_unregister string

text \<open>\<open>struct al5_codec_desc\<close>, the contents of the instruction memory, and the log. The answer of
  the \<open>n\<close>-th call is \<open>cd_answer n\<close> (a register's value, an errno if negative, a pointer), the
  contents of the firmware file \<open>f\<close> are \<open>cd_blob f\<close>.\<close>

record codec =
  cd_sys :: system
  cd_icache :: "al5_dma_buffer option"
  cd_suballoc_buf :: "al5_dma_buffer option"
  cd_dcache_base_addr :: u64
  cd_regs :: addr
  cd_minor :: int
  cd_icache_mem :: "nat \<Rightarrow> u8"
  cd_answer :: "nat \<Rightarrow> int"
  cd_blob :: "string \<Rightarrow> u8 list"
  cd_log :: "(kcall \<times> int) list"

definition kcall :: "kcall \<Rightarrow> codec \<Rightarrow> int \<times> codec" where
  "kcall f c = (let r = cd_answer c (length (cd_log c)) in (r, c\<lparr>cd_log := cd_log c @ [(f, r)]\<rparr>))"

definition kdo :: "kcall \<Rightarrow> codec \<Rightarrow> codec" where
  "kdo f c = snd (kcall f c)"

definition hw_of :: "codec \<Rightarrow> hw" where
  "hw_of c = sys_hw (cd_sys c)"

definition set_hw :: "hw \<Rightarrow> codec \<Rightarrow> codec" where
  "set_hw s c = c\<lparr>cd_sys := (cd_sys c)\<lparr>sys_hw := s\<rparr>\<rparr>"

definition al5_writel :: "u32 \<Rightarrow> addr \<Rightarrow> codec \<Rightarrow> codec" where
  "al5_writel val reg c = kdo (Write_reg reg val)
     (set_hw ((hw_of c)\<lparr>hw_mem := iowrite32 val (cd_regs c + reg) (hw_mem (hw_of c))\<rparr>) c)"

definition al5_readl :: "addr \<Rightarrow> codec \<Rightarrow> u32 \<times> codec" where
  "al5_readl reg c = (let (r, c) = kcall (Read_reg reg) c in (word_of_int r, c))"

definition signal_codec :: "codec \<Rightarrow> codec" where
  "signal_codec c = kdo Signal_mcu (set_hw (al5_signal_mcu (hw_of c)) c)"

section \<open>Addresses and sizes\<close>

definition MAILBOX_CMD :: addr where "MAILBOX_CMD = 0x7000"
definition MAILBOX_STATUS :: addr where "MAILBOX_STATUS = 0x7800"
definition MAILBOX_SIZE :: size_t where "MAILBOX_SIZE = 0x800 - 0x8"

definition AL5_MCU_INTERRUPT_HANDLER :: addr where "AL5_MCU_INTERRUPT_HANDLER = 0x0010"
definition MCU_SLEEP_INSTRUCTION :: u32 where "MCU_SLEEP_INSTRUCTION = 0xba020004"

definition AL5_MCU_RESET :: addr where "AL5_MCU_RESET = 0x9000"
definition AL5_MCU_RESET_MODE :: addr where "AL5_MCU_RESET_MODE = 0x9004"
definition AL5_MCU_STA :: addr where "AL5_MCU_STA = 0x9008"
definition AL5_MCU_WAKEUP :: addr where "AL5_MCU_WAKEUP = 0x900c"
definition AL5_ICACHE_ADDR_OFFSET_MSB :: addr where "AL5_ICACHE_ADDR_OFFSET_MSB = 0x9010"
definition AL5_ICACHE_ADDR_OFFSET_LSB :: addr where "AL5_ICACHE_ADDR_OFFSET_LSB = 0x9014"
definition AL5_DCACHE_ADDR_OFFSET_MSB :: addr where "AL5_DCACHE_ADDR_OFFSET_MSB = 0x9018"
definition AL5_DCACHE_ADDR_OFFSET_LSB :: addr where "AL5_DCACHE_ADDR_OFFSET_LSB = 0x901c"
definition AL5_MCU_INTERRUPT :: addr where "AL5_MCU_INTERRUPT = 0x9100"
definition AL5_MCU_INTERRUPT_MASK :: addr where "AL5_MCU_INTERRUPT_MASK = 0x9104"
definition AL5_MCU_INTERRUPT_CLR :: addr where "AL5_MCU_INTERRUPT_CLR = 0x9108"
definition AL5_MCU_IRQ_STA :: addr where "AL5_MCU_IRQ_STA = 0x910C"
definition AXI_ADDR_OFFSET_IP :: addr where "AXI_ADDR_OFFSET_IP = 0x9208"

definition MCU_SUBALLOCATOR_SIZE :: u32 where "MCU_SUBALLOCATOR_SIZE = 1024 * 1024 * 32"
definition MCU_CACHE_OFFSET :: u64 where "MCU_CACHE_OFFSET = 0x80000000"
definition AL5_ICACHE_SIZE :: nat where "AL5_ICACHE_SIZE = 1024 * 600"
definition MCU_SRAM_SIZE :: nat where "MCU_SRAM_SIZE = 0x8000"

section \<open>Windows of the firmware's caches\<close>

text \<open>On the 64-bit kernels the addresses of \<open>dma_addr_t\<close> have 64 bits: the high word is the upper
  half of the difference.\<close>

definition low32 :: "u64 \<Rightarrow> u32" where "low32 w = ucast w"
definition high32 :: "u64 \<Rightarrow> u32" where "high32 w = ucast (drop_bit 32 w)"

definition set_icache_offset :: "al5_dma_buffer \<Rightarrow> codec \<Rightarrow> codec" where
  "set_icache_offset icache c =
     (let h = dma_handle icache - MCU_CACHE_OFFSET
      in al5_writel (high32 h) AL5_ICACHE_ADDR_OFFSET_MSB
           (al5_writel (low32 h) AL5_ICACHE_ADDR_OFFSET_LSB c))"

definition memory_segment :: "u64 \<Rightarrow> u64" where
  "memory_segment h = and h 0xffffffff00000000"

definition set_dcache_offset :: "al5_dma_buffer \<Rightarrow> codec \<Rightarrow> codec" where
  "set_dcache_offset icache c =
     (let h = memory_segment (dma_handle icache) - MCU_CACHE_OFFSET
      in al5_writel (low32 h) AL5_DCACHE_ADDR_OFFSET_LSB
           (al5_writel (high32 h) AL5_DCACHE_ADDR_OFFSET_MSB c))"

text \<open>On the 32-bit kernels \<open>dma_addr_t\<close> has 32 bits: the high word is the sign, and the segment is
  what is left of a 64-bit mask.\<close>

definition icache_offset_32 :: "u32 \<Rightarrow> u32 \<times> u32" where
  "icache_offset_32 h =
     (let msb = (if h < low32 MCU_CACHE_OFFSET then 0xFFFFFFFF else 0)
      in (msb, h - low32 MCU_CACHE_OFFSET))"

definition dcache_offset_32 :: "u32 \<Rightarrow> u32 \<times> u32" where
  "dcache_offset_32 h =
     (let mem_seg = low32 (and (ucast h) 0xffffffff00000000);
          msb = (if mem_seg < low32 MCU_CACHE_OFFSET then 0xFFFFFFFF else 0)
      in (msb, mem_seg - low32 MCU_CACHE_OFFSET))"

section \<open>Starting and stopping the firmware\<close>

text \<open>The instruction memory has the size it was allocated with; a copy beyond it is undefined.\<close>

definition copy_firmware :: "u8 list \<Rightarrow> u8 list \<Rightarrow> codec \<Rightarrow> (int \<times> codec) option" where
  "copy_firmware fw bl_fw c =
     (if AL5_ICACHE_SIZE < length fw then Some (- EINVAL, c)
      else if MCU_SRAM_SIZE < length bl_fw then Some (- EINVAL, c)
      else do {
        icache \<leftarrow> deref (cd_icache c);
        if unat (dma_size icache) < length fw then None
        else do {
          let c = kdo (Copy_icache (length fw))
            (c\<lparr>cd_icache_mem := (\<lambda>i. if i < length fw then fw ! i else cd_icache_mem c i)\<rparr>);
          mem \<leftarrow> memcpy_toio_32 (cd_regs c) bl_fw 0 (int (length bl_fw)) (hw_mem (hw_of c));
          Some (0, kdo (Copy_sram (length bl_fw)) (set_hw ((hw_of c)\<lparr>hw_mem := mem\<rparr>) c))
        }
      })"

text \<open>The loop of \<open>stop_mcu\<close>, with the time slept so far.\<close>

function wait_mcu_sleeps :: "nat \<Rightarrow> codec \<Rightarrow> codec" where
  "wait_mcu_sleeps time c =
     (let (sta, c) = al5_readl AL5_MCU_STA c
      in if and sta 1 \<noteq> 1 \<and> time < 100 then wait_mcu_sleeps (time + 20) (kdo (Msleep 20) c) else c)"
  by pat_completeness auto
termination
  by (relation "measure (\<lambda>(time, c). 100 - time)") auto

declare wait_mcu_sleeps.simps [simp del]

definition stop_mcu :: "codec \<Rightarrow> codec" where
  "stop_mcu c = wait_mcu_sleeps 0 (signal_codec
     (al5_writel MCU_SLEEP_INSTRUCTION AL5_MCU_INTERRUPT_HANDLER (al5_writel 0 AL5_MCU_WAKEUP c)))"

definition reset_mcu :: "codec \<Rightarrow> codec" where
  "reset_mcu c = al5_writel 1 AL5_MCU_RESET (al5_writel 0 AL5_MCU_WAKEUP
     (al5_writel 1 AL5_MCU_RESET_MODE c))"

definition start_mcu :: "codec \<Rightarrow> codec" where
  "start_mcu c = al5_writel 1 AL5_MCU_WAKEUP c"

definition set_mcu_interrupt_mask :: "codec \<Rightarrow> codec" where
  "set_mcu_interrupt_mask c = al5_writel 1 AL5_MCU_INTERRUPT_MASK c"

definition request_all_firmwares ::
    "string \<Rightarrow> string \<Rightarrow> codec \<Rightarrow> int \<times> (u8 list \<times> u8 list) \<times> codec" where
  "request_all_firmwares fw_file bl_fw_file c =
     (let (err, c) = kcall (Request_firmware fw_file) c
      in if err \<noteq> 0 then (err, ([], []), c)
         else let fw = cd_blob c fw_file; (err, c) = kcall (Request_firmware bl_fw_file) c
         in if err \<noteq> 0 then (err, (fw, []), kdo Release_firmware c)
            else (0, (fw, cd_blob c bl_fw_file), c))"

definition setup_and_start_mcu :: "u8 list \<Rightarrow> u8 list \<Rightarrow> codec \<Rightarrow> (int \<times> codec) option" where
  "setup_and_start_mcu fw bl_fw c = do {
     (ret, c) \<leftarrow> copy_firmware fw bl_fw (reset_mcu (stop_mcu c));
     if ret \<noteq> 0 then Some (ret, c)
     else do {
       icache \<leftarrow> deref (cd_icache c);
       Some (0, start_mcu (set_mcu_interrupt_mask (set_dcache_offset icache (set_icache_offset icache c))))
     }
   }"

definition alloc_mcu_caches :: "codec \<Rightarrow> int \<times> codec" where
  "alloc_mcu_caches c =
     (let (buf, k, d) = al5_alloc_dma (of_nat AL5_ICACHE_SIZE) (hw_k (hw_of c)) (hw_d (hw_of c));
          c = (set_hw ((hw_of c)\<lparr>hw_k := k, hw_d := d\<rparr>) c)\<lparr>cd_icache := buf\<rparr>
      in case buf of
           None \<Rightarrow> (- ENOMEM, c)
         | Some b \<Rightarrow> (0, al5_writel (high32 (dma_handle b)) AXI_ADDR_OFFSET_IP
                           (c\<lparr>cd_dcache_base_addr := 0\<rparr>)))"

section \<open>The second-level cache\<close>

text \<open>What the parent device (\<open>struct xvcu_device\<close>, of another driver) answers.\<close>

record xvcu =
  xvcu_color_depth :: u32
  xvcu_memory_depth :: u32
  xvcu_num_cores :: u32
  xvcu_clock_frequency :: u32

text \<open>The four functions of one of the two files; the build chooses which one is linked.\<close>

record l2_functions =
  get_l2_size_in_bits :: "xvcu \<Rightarrow> u32"
  get_l2_color_bitdepth :: "xvcu \<Rightarrow> u32"
  get_num_cores :: "xvcu \<Rightarrow> u32"
  get_core_frequency :: "xvcu \<Rightarrow> u32"

definition no_l2_prefetch :: l2_functions where
  "no_l2_prefetch = \<lparr>get_l2_size_in_bits = (\<lambda>_. - 1), get_l2_color_bitdepth = (\<lambda>_. - 1),
     get_num_cores = (\<lambda>_. - 1), get_core_frequency = (\<lambda>_. - 1)\<rparr>"

definition MEMORY_WORD_SIZE_IN_BITS :: u32 where "MEMORY_WORD_SIZE_IN_BITS = 32"

definition xil_get_l2_color_bitdepth :: "xvcu \<Rightarrow> u32" where
  "xil_get_l2_color_bitdepth x = (if xvcu_color_depth x = 0 then 8 else 10)"

definition get_memory_words_in_bits :: "xvcu \<Rightarrow> u32" where
  "get_memory_words_in_bits x = xil_get_l2_color_bitdepth x * MEMORY_WORD_SIZE_IN_BITS"

definition xil_get_l2_size_in_bits :: "xvcu \<Rightarrow> u32" where
  "xil_get_l2_size_in_bits x = xvcu_memory_depth x * get_memory_words_in_bits x"

definition xil_get_num_cores :: "xvcu \<Rightarrow> u32" where
  "xil_get_num_cores x = (let num_cores = xvcu_num_cores x in if num_cores = 0 then - 1 else num_cores)"

definition xil_get_core_frequency :: "xvcu \<Rightarrow> u32" where
  "xil_get_core_frequency x = xvcu_clock_frequency x"

definition xil_l2_prefetch :: l2_functions where
  "xil_l2_prefetch = \<lparr>get_l2_size_in_bits = xil_get_l2_size_in_bits,
     get_l2_color_bitdepth = xil_get_l2_color_bitdepth,
     get_num_cores = xil_get_num_cores, get_core_frequency = xil_get_core_frequency\<rparr>"

text \<open>\<open>parent\<close> is \<^const>\<open>None\<close> for an \<open>ERR_PTR\<close>.\<close>

definition set_l2_info :: "l2_functions \<Rightarrow> xvcu option \<Rightarrow> mcu_init_msg \<Rightarrow> mcu_init_msg" where
  "set_l2_info l2 parent msg =
     (case parent of
        Some x \<Rightarrow> msg\<lparr>l2_size_in_bits := get_l2_size_in_bits l2 x,
                     l2_color_bitdepth := get_l2_color_bitdepth l2 x,
                     num_cores := get_num_cores l2 x, core_frequency := get_core_frequency l2 x\<rparr>
      | None \<Rightarrow> msg\<lparr>l2_size_in_bits := - 1, l2_color_bitdepth := - 1, num_cores := - 1,
                   core_frequency := - 1\<rparr>)"

section \<open>The first messages\<close>

text \<open>What the board gives: the linked functions, the parent, the size of the firmware's pool if
  the device tree has the property.\<close>

record board =
  b_l2 :: l2_functions
  b_parent :: "xvcu option"
  b_mcu_ext_mem_size :: "u32 option"

definition put_user :: "addr \<Rightarrow> al5_user \<Rightarrow> hw \<Rightarrow> codec \<Rightarrow> codec" where
  "put_user p u s c =
     c\<lparr>cd_sys := (cd_sys c)\<lparr>sys_users := (sys_users (cd_sys c))(p \<mapsto> u), sys_hw := s\<rparr>\<rparr>"

definition free_feedback :: "al5_mail option \<Rightarrow> hw \<Rightarrow> hw" where
  "free_feedback m s = s\<lparr>hw_k := al5_free_mail m (hw_k s)\<rparr>"

definition init_msg_of :: "board \<Rightarrow> al5_dma_buffer \<Rightarrow> mcu_init_msg" where
  "init_msg_of b buf = set_l2_info (b_l2 b) (b_parent b)
     \<lparr>init_addr = low32 (dma_handle buf + MCU_CACHE_OFFSET), init_size = dma_size buf,
      l2_size_in_bits = 0, l2_color_bitdepth = 0, num_cores = 0, core_frequency = 0\<rparr>"

text \<open>From the allocation on: the configuration is sent and acknowledged, or the pool is freed.
  \<open>root\<close> is the user at address \<open>p\<close>, its mutex taken.\<close>

definition send_configuration ::
    "env \<Rightarrow> board \<Rightarrow> al5_dma_buffer \<Rightarrow> al5_user \<Rightarrow> hw \<Rightarrow> (int \<times> al5_user \<times> hw) option" where
  "send_configuration e b buf root s = do {
     (err, s) \<leftarrow> make_and_send (create_init_msg (u32_of_int (u_uid root)) (init_msg_of b buf)) s;
     if err \<noteq> 0 then Some (err, root, s)
     else let (err, feedback, root, s) = user_pop_timeout e AL5_USER_MAIL_INIT root s
     in if err \<noteq> 0 then Some (err, root, s) else Some (0, root, free_feedback feedback s)
   }"

definition init_mcu :: "env \<Rightarrow> board \<Rightarrow> addr \<Rightarrow> codec \<Rightarrow> (int \<times> codec) option" where
  "init_mcu e b p c = do {
     root \<leftarrow> sys_users (cd_sys c) p;
     (err, root, s) \<leftarrow> mutex_lock_killable e AL5_USER_INIT root (hw_of c);
     if err = - EINTR then Some (err, put_user p root s c)
     else let (err, feedback, root, s) = user_pop_timeout e AL5_USER_MAIL_INIT root s
     in if err \<noteq> 0 then Some (err, put_user p (mutex_unlock AL5_USER_INIT root) s c)
     else
       let s = free_feedback feedback s;
           pool_size = (case b_mcu_ext_mem_size b of None \<Rightarrow> MCU_SUBALLOCATOR_SIZE | Some n \<Rightarrow> n);
           (buf, k, d) = al5_alloc_dma (ucast pool_size) (hw_k s) (hw_d s);
           s = s\<lparr>hw_k := k, hw_d := d\<rparr>;
           c = c\<lparr>cd_suballoc_buf := buf\<rparr>
       in case buf of
         None \<Rightarrow> Some (- ENOMEM, put_user p (mutex_unlock AL5_USER_INIT root) s c)
       | Some bf \<Rightarrow> do {
           (err, root, s) \<leftarrow> send_configuration e b bf root s;
           if err \<noteq> 0
           then let (k, d) = al5_free_dma buf (hw_k s) (hw_d s)
             in Some (err, (put_user p (mutex_unlock AL5_USER_INIT root) (s\<lparr>hw_k := k, hw_d := d\<rparr>) c)
                  \<lparr>cd_suballoc_buf := None\<rparr>)
           else Some (0, put_user p (mutex_unlock AL5_USER_INIT root) s c)
         }
   }"

text \<open>The user \<open>root\<close> lives on the stack of \<open>al5_codec_set_firmware\<close>, at \<open>p\<close>, and is gone when it
  returns.\<close>

definition leave_scope :: "addr \<Rightarrow> codec \<Rightarrow> codec" where
  "leave_scope p c = c\<lparr>cd_sys := (cd_sys c)\<lparr>sys_users := (sys_users (cd_sys c))(p := None)\<rparr>\<rparr>"

definition release_firmwares :: "addr \<Rightarrow> int \<Rightarrow> codec \<Rightarrow> int \<times> codec" where
  "release_firmwares p err c = (err, leave_scope p (kdo Release_firmware (kdo Release_firmware c)))"

text \<open>The part that runs with \<open>root\<close> bound; only the last path takes it out of the table.\<close>

definition start_and_init ::
    "env \<Rightarrow> board \<Rightarrow> addr \<Rightarrow> u8 list \<Rightarrow> u8 list \<Rightarrow> codec \<Rightarrow> (int \<times> codec) option" where
  "start_and_init e b p fw bl_fw c = do {
     (err, c) \<leftarrow> setup_and_start_mcu fw bl_fw c;
     if err \<noteq> 0 then Some (release_firmwares p err c)
     else do {
       (err, c) \<leftarrow> init_mcu e b p c;
       if err \<noteq> 0 then Some (release_firmwares p err (stop_mcu c))
       else do {
         st \<leftarrow> al5_group_unbind_user p (cd_sys c);
         Some (release_firmwares p 0 (c\<lparr>cd_sys := st\<rparr>))
       }
     }
   }"

definition al5_codec_set_firmware ::
    "env \<Rightarrow> board \<Rightarrow> addr \<Rightarrow> string \<Rightarrow> string \<Rightarrow> codec \<Rightarrow> (int \<times> codec) option" where
  "al5_codec_set_firmware e b p fw_file bl_fw_file c =
     (let (err, (fw, bl_fw), c) = request_all_firmwares fw_file bl_fw_file c
      in if err \<noteq> 0 then Some (err, c)
      else do {
        (err, st) \<leftarrow> al5_group_bind_user p (cd_sys c);
        let c = c\<lparr>cd_sys := st\<rparr>;
        if err \<noteq> 0 then Some (release_firmwares p err c)
        else start_and_init e b p fw bl_fw c
      })"

section \<open>Files\<close>

definition sizeof_filp_data :: nat where "sizeof_filp_data = 16"

text \<open>The size of \<open>struct al5_user\<close> on the target; only that it is one block matters.\<close>

definition sizeof_user :: nat where "sizeof_user = 1024"

definition set_kmem :: "kmem \<Rightarrow> system \<Rightarrow> system" where
  "set_kmem k st = st\<lparr>sys_hw := (sys_hw st)\<lparr>hw_k := k\<rparr>\<rparr>"

text \<open>The result of the first \<open>kzalloc\<close> is followed unchecked, and the block is lost when the call
  fails. \<open>p\<close> is the address of the second block.\<close>

definition al5_codec_open :: "addr \<Rightarrow> system \<Rightarrow> (int \<times> system) option" where
  "al5_codec_open p st =
     (let (private_data, k) = kzalloc sizeof_filp_data (hw_k (sys_hw st));
          (user, k) = kzalloc sizeof_user k
      in if user = None then Some (- ENOMEM, set_kmem k st)
      else do {
        (err, st) \<leftarrow> al5_group_bind_user p (set_kmem k st);
        if err \<noteq> 0 then Some (err, set_kmem (kfree (hw_k (sys_hw st))) st)
        else do { _ \<leftarrow> deref private_data; Some (0, st) }
      })"

definition CLOSE_TRIES :: nat where "CLOSE_TRIES = 10000"

text \<open>The loop, for \<open>n\<close> more tries; other threads may do something else during each.\<close>

fun destroy_tries ::
    "(nat \<Rightarrow> env) \<Rightarrow> nat \<Rightarrow> int \<Rightarrow> al5_user \<Rightarrow> hw \<Rightarrow> (int \<times> al5_user \<times> hw) option" where
  "destroy_tries e 0 ret u s = Some (ret, u, s)"
| "destroy_tries e (Suc n) ret u s =
     (if ret = 0 then Some (ret, u, s)
      else do {
        (ret, u, s) \<leftarrow> al5_user_destroy_channel (e n) True u s;
        destroy_tries e n ret u s
      })"

definition close_channel :: "(nat \<Rightarrow> env) \<Rightarrow> al5_user \<Rightarrow> hw \<Rightarrow> (al5_user \<times> hw) option" where
  "close_channel e u s =
     (if al5_chan_is_created u
      then do {
        (_, u, s) \<leftarrow> destroy_tries e CLOSE_TRIES (- 1) u s;
        al5_user_destroy_channel_resources u s
      }
      else Some (u, s))"

definition al5_codec_release :: "(nat \<Rightarrow> env) \<Rightarrow> addr \<Rightarrow> system \<Rightarrow> (int \<times> system) option" where
  "al5_codec_release e p st = do {
     u \<leftarrow> sys_users st p;
     (u, s) \<leftarrow> close_channel e u (sys_hw st);
     let (u, k) = al5_user_remove_residual_messages u (hw_k s);
     st \<leftarrow> al5_group_unbind_user p
       (st\<lparr>sys_users := (sys_users st)(p \<mapsto> u), sys_hw := s\<lparr>hw_k := k\<rparr>\<rparr>);
     Some (0, set_kmem (kfree (kfree (hw_k (sys_hw st))))
       (st\<lparr>sys_users := (sys_users st)(p := None)\<rparr>))
   }"

section \<open>Setting up and tearing down\<close>

definition failed :: "int \<Rightarrow> codec \<Rightarrow> int \<times> codec" where
  "failed err c = (err, kdo Release_memory c)"

text \<open>The dedicated memory of the device tree, if there is one. Only the error of the mask counts.\<close>

definition declare_dedicated_memory :: "codec \<Rightarrow> int \<times> codec" where
  "declare_dedicated_memory c =
     (let (mem_node, c) = kcall Parse_mem_node c
      in if mem_node = 0 then (0, c)
         else let (err, c) = kcall Address_to_resource c
         in if err \<noteq> 0 then (0, c) else kcall Set_coherent_mask (kdo Declare_memory c))"

definition mailbox_config :: "addr \<Rightarrow> mcu_mailbox_config" where
  "mailbox_config regs = \<lparr>cmd_base = regs + MAILBOX_CMD, status_base = regs + MAILBOX_STATUS,
     cmd_size = MAILBOX_SIZE, status_size = MAILBOX_SIZE\<rparr>"

text \<open>Registers and dedicated memory. \<open>IS_ERR\<close> does not see the NULL of a failed \<open>ioremap\<close>, and a
  failed mask leaves without \<open>of_node_put\<close>.\<close>

definition claim_resources :: "codec \<Rightarrow> int \<times> codec" where
  "claim_resources c =
     (let (res, c) = kcall Get_resource c
      in if res = 0 then (- ENODEV, c)
      else let (irq, c) = kcall Get_irq c
      in if irq < 0 then (irq, c)
      else let (regs, c) = kcall Ioremap c; c = c\<lparr>cd_regs := nat regs\<rparr>
      in if regs < 0 then (regs, c)
      else let (err, c) = declare_dedicated_memory c
      in if err \<noteq> 0 then (err, c) else (0, kdo Of_node_put c))"

text \<open>Interface, group, instruction memory and interrupt; \<open>alloc_size\<close> is the size
  \<open>al5_mcu_interface_create\<close> allocates.\<close>

definition create_codec :: "nat \<Rightarrow> int \<Rightarrow> codec \<Rightarrow> (int \<times> codec) option" where
  "create_codec alloc_size max_users_nb c = do {
     let s = hw_of c;
     (err, mcu, mem, k) \<leftarrow> mcu_interface_create_sized alloc_size (mailbox_config (cd_regs c))
       (cd_regs c + AL5_MCU_INTERRUPT) (hw_mem s) (hw_k s);
     let c = set_hw (s\<lparr>hw_mem := mem, hw_k := k\<rparr>) c;
     if err \<noteq> 0 then Some (err, c)
     else do {
       mcu \<leftarrow> mcu;
       let (g, k) = al5_group_init max_users_nb k;
       let c = set_hw ((hw_of c)\<lparr>hw_mcu := mcu, hw_k := k\<rparr>) c;
       let c = c\<lparr>cd_sys := (cd_sys c)\<lparr>sys_group := g\<rparr>\<rparr>;
       let (err, c) = alloc_mcu_caches c;
       if err \<noteq> 0 then Some (err, c)
       else let (err, c) = kcall Request_irq c
       in if err \<noteq> 0
       then let (k, d) = al5_free_dma (cd_icache c) (hw_k (hw_of c)) (hw_d (hw_of c))
         in Some (err, (set_hw ((hw_of c)\<lparr>hw_k := k, hw_d := d\<rparr>) c)\<lparr>cd_icache := None\<rparr>)
       else Some (0, kdo Set_drvdata c)
     }
   }"

definition codec_set_up_sized :: "nat \<Rightarrow> int \<Rightarrow> codec \<Rightarrow> (int \<times> codec) option" where
  "codec_set_up_sized alloc_size max_users_nb c =
     (let (err, c) = claim_resources c
      in if err \<noteq> 0 then Some (failed err c)
      else do {
        (err, c) \<leftarrow> create_codec alloc_size max_users_nb c;
        if err \<noteq> 0 then Some (failed err c) else Some (0, c)
      })"

definition al5_codec_set_up :: "int \<Rightarrow> codec \<Rightarrow> (int \<times> codec) option" where
  "al5_codec_set_up = codec_set_up_sized sizeof_pointer"

definition al5_codec_tear_down :: "codec \<Rightarrow> codec" where
  "al5_codec_tear_down c =
     (let s = hw_of c;
          k = al5_group_deinit (sys_group (cd_sys c)) (al5_mcu_interface_destroy (hw_mcu s) (hw_k s));
          (k, d) = al5_free_dma (cd_suballoc_buf c) k (hw_d s);
          (k, d) = al5_free_dma (cd_icache c) k d
      in kdo Release_memory (set_hw (s\<lparr>hw_k := k, hw_d := d\<rparr>) c))"

section \<open>Interrupts\<close>

datatype irqreturn = IRQ_NONE | IRQ_HANDLED | IRQ_WAKE_THREAD

definition al5_hardirq_handler :: "codec \<Rightarrow> irqreturn \<times> codec" where
  "al5_hardirq_handler c =
     (let (irq_status, c) = al5_readl AL5_MCU_IRQ_STA c
      in if irq_status = 0 then (IRQ_NONE, c)
         else (IRQ_WAKE_THREAD,
               snd (al5_readl AL5_MCU_IRQ_STA (al5_writel irq_status AL5_MCU_INTERRUPT_CLR c))))"

definition al5_irq_handler :: "codec \<Rightarrow> (irqreturn \<times> codec) option" where
  "al5_irq_handler c = do {
     st \<leftarrow> al5_group_read_mails (cd_sys c);
     Some (IRQ_HANDLED, c\<lparr>cd_sys := st\<rparr>)
   }"

end
