(* ===== verification/Codec_Start.thy ===== *)
theory Codec_Start
  imports Codec
begin

text \<open>
  Stopping, loading and starting the firmware: the order of the register accesses, the bound of
  the wait, what is in the two memories when the processor wakes up, and what happens to the
  mailboxes, which lie in the memory the bootloader is copied to.
\<close>

section \<open>The log\<close>

definition calls :: "codec \<Rightarrow> kcall list" where
  "calls c = map fst (cd_log c)"

lemma kdo_sel [simp]:
  "cd_sys (kdo f c) = cd_sys c" "cd_icache (kdo f c) = cd_icache c"
  "cd_suballoc_buf (kdo f c) = cd_suballoc_buf c" "cd_regs (kdo f c) = cd_regs c"
  "cd_answer (kdo f c) = cd_answer c" "cd_blob (kdo f c) = cd_blob c"
  "cd_icache_mem (kdo f c) = cd_icache_mem c" "calls (kdo f c) = calls c @ [f]"
  "hw_of (kdo f c) = hw_of c"
  by (simp_all add: kdo_def kcall_def Let_def calls_def hw_of_def)

lemma set_hw_sel [simp]:
  "cd_icache (set_hw s c) = cd_icache c" "cd_suballoc_buf (set_hw s c) = cd_suballoc_buf c"
  "cd_regs (set_hw s c) = cd_regs c" "cd_answer (set_hw s c) = cd_answer c"
  "cd_blob (set_hw s c) = cd_blob c" "cd_log (set_hw s c) = cd_log c"
  "cd_icache_mem (set_hw s c) = cd_icache_mem c" "calls (set_hw s c) = calls c"
  "hw_of (set_hw s c) = s" "sys_group (cd_sys (set_hw s c)) = sys_group (cd_sys c)"
  "sys_users (cd_sys (set_hw s c)) = sys_users (cd_sys c)" "sys_hw (cd_sys (set_hw s c)) = s"
  by (simp_all add: set_hw_def calls_def hw_of_def)

lemma set_hw_twice [simp]: "set_hw s (set_hw t c) = set_hw s c"
  by (simp add: set_hw_def)

lemma fields_sel [simp]:
  "hw_of (c\<lparr>cd_icache := b\<rparr>) = hw_of c" "hw_of (c\<lparr>cd_suballoc_buf := b\<rparr>) = hw_of c"
  "hw_of (c\<lparr>cd_dcache_base_addr := w\<rparr>) = hw_of c" "hw_of (c\<lparr>cd_regs := a\<rparr>) = hw_of c"
  "hw_of (c\<lparr>cd_minor := i\<rparr>) = hw_of c" "hw_of (c\<lparr>cd_icache_mem := m\<rparr>) = hw_of c"
  "hw_of (c\<lparr>cd_log := l\<rparr>) = hw_of c" "hw_of (c\<lparr>cd_sys := st\<rparr>) = sys_hw st"
  "calls (c\<lparr>cd_icache := b\<rparr>) = calls c" "calls (c\<lparr>cd_suballoc_buf := b\<rparr>) = calls c"
  "calls (c\<lparr>cd_dcache_base_addr := w\<rparr>) = calls c" "calls (c\<lparr>cd_regs := a\<rparr>) = calls c"
  "calls (c\<lparr>cd_minor := i\<rparr>) = calls c" "calls (c\<lparr>cd_icache_mem := m\<rparr>) = calls c"
  "calls (c\<lparr>cd_sys := st\<rparr>) = calls c"
  by (simp_all add: hw_of_def calls_def)

lemma al5_writel_sel [simp]:
  "cd_icache (al5_writel v r c) = cd_icache c" "cd_suballoc_buf (al5_writel v r c) = cd_suballoc_buf c"
  "cd_regs (al5_writel v r c) = cd_regs c" "cd_answer (al5_writel v r c) = cd_answer c"
  "cd_blob (al5_writel v r c) = cd_blob c" "cd_icache_mem (al5_writel v r c) = cd_icache_mem c"
  "calls (al5_writel v r c) = calls c @ [Write_reg r v]"
  "hw_of (al5_writel v r c) = (hw_of c)\<lparr>hw_mem := iowrite32 v (cd_regs c + r) (hw_mem (hw_of c))\<rparr>"
  "sys_group (cd_sys (al5_writel v r c)) = sys_group (cd_sys c)"
  "sys_users (cd_sys (al5_writel v r c)) = sys_users (cd_sys c)"
  by (simp_all add: al5_writel_def)

lemma al5_readl_eq: "al5_readl r c = (word_of_int (cd_answer c (length (cd_log c))), kdo (Read_reg r) c)"
  by (simp add: al5_readl_def kcall_def kdo_def Let_def)

section \<open>What leaves the mailboxes alone\<close>

text \<open>The interface as \<open>al5_codec_set_up\<close> places it, from 0x7000 on and at the interrupt register.\<close>

definition mcu_layout :: "codec \<Rightarrow> bool" where
  "mcu_layout c \<longleftrightarrow>
     mailbox_area (cpu_to_mcu (hw_mcu (hw_of c))) = {cd_regs c + 0x7000 ..< cd_regs c + 0x7800} \<and>
     mailbox_area (mcu_to_cpu (hw_mcu (hw_of c))) = {cd_regs c + 0x7800 ..< cd_regs c + 0x8000} \<and>
     interrupt_register (hw_mcu (hw_of c)) = cd_regs c + AL5_MCU_INTERRUPT"

text \<open>Everything but device memory outside the mailboxes, the instruction memory and the log.\<close>

definition same_boxes :: "codec \<Rightarrow> codec \<Rightarrow> bool" where
  "same_boxes c c' \<longleftrightarrow>
     cd_regs c' = cd_regs c \<and> cd_icache c' = cd_icache c \<and> cd_suballoc_buf c' = cd_suballoc_buf c \<and>
     sys_group (cd_sys c') = sys_group (cd_sys c) \<and> sys_users (cd_sys c') = sys_users (cd_sys c) \<and>
     hw_mcu (hw_of c') = hw_mcu (hw_of c) \<and> hw_k (hw_of c') = hw_k (hw_of c) \<and>
     hw_d (hw_of c') = hw_d (hw_of c) \<and>
     (\<forall>a. cd_regs c + 0x7000 \<le> a \<and> a < cd_regs c + 0x8000 \<longrightarrow>
        hw_mem (hw_of c') a = hw_mem (hw_of c) a)"

lemma same_boxes_refl [simp]: "same_boxes c c"
  by (simp add: same_boxes_def)

lemma same_boxes_trans: "same_boxes c c' \<Longrightarrow> same_boxes c' c'' \<Longrightarrow> same_boxes c c''"
  by (simp add: same_boxes_def)

lemma same_boxes_kdo [simp]: "same_boxes c (kdo f c') = same_boxes c c'"
  by (simp add: same_boxes_def)

lemma same_boxes_writel:
  assumes "same_boxes c c'" "r + 4 \<le> 0x7000 \<or> 0x8000 \<le> r"
  shows "same_boxes c (al5_writel v r c')"
  using assms by (auto simp: same_boxes_def iowrite32_outside)

lemma same_boxes_layout: "same_boxes c c' \<Longrightarrow> mcu_layout c' = mcu_layout c"
  by (simp add: same_boxes_def mcu_layout_def)

lemma same_boxes_signal:
  assumes "same_boxes c c'" "mcu_layout c"
  shows "same_boxes c (signal_codec c')"
  using assms
  by (simp add: same_boxes_def signal_codec_def mcu_layout_def al5_signal_mcu_def
      AL5_MCU_INTERRUPT_def iowrite32_outside)

lemma same_boxes_ok:
  assumes "same_boxes c c'" "mcu_layout c" "hw_ok (hw_of c)"
  shows "hw_ok (hw_of c')" "inbox (hw_of c') = inbox (hw_of c)" "outbox (hw_of c') = outbox (hw_of c)"
    "outroom (hw_of c') = outroom (hw_of c)"
proof -
  let ?out = "cpu_to_mcu (hw_mcu (hw_of c))" and ?in = "mcu_to_cpu (hw_mcu (hw_of c))"
  have mem: "hw_mem (hw_of c') a = hw_mem (hw_of c) a" if "a \<in> mailbox_area ?out \<union> mailbox_area ?in" for a
    using that assms(1,2) by (auto simp: same_boxes_def mcu_layout_def)
  have lay: "mailbox_layout ?out" "mailbox_layout ?in"
    using assms(3) by (simp_all add: hw_ok_def mailbox_ok_def)
  from mailbox_cong [OF lay(1), of "hw_mem (hw_of c')" "hw_mem (hw_of c)"]
    mailbox_cong [OF lay(2), of "hw_mem (hw_of c')" "hw_mem (hw_of c)"] mem assms(1,3)
  show "hw_ok (hw_of c')" "inbox (hw_of c') = inbox (hw_of c)" "outbox (hw_of c') = outbox (hw_of c)"
    "outroom (hw_of c') = outroom (hw_of c)"
    by (simp_all add: hw_ok_def inbox_def outbox_def outroom_def same_boxes_def)
qed

section \<open>Stopping\<close>

definition poll_round :: "kcall list" where
  "poll_round = [Read_reg AL5_MCU_STA, Msleep 20]"

definition poll_calls :: "nat \<Rightarrow> kcall list" where
  "poll_calls n = concat (replicate n poll_round) @ [Read_reg AL5_MCU_STA]"

text \<open>The answer of the poll after \<open>i\<close> rounds.\<close>

definition asleep :: "codec \<Rightarrow> nat \<Rightarrow> bool" where
  "asleep c i \<longleftrightarrow> and (word_of_int (cd_answer c (length (cd_log c) + 2 * i)) :: u32) 1 = 1"

lemma asleep_next:
  "asleep (kdo f (kdo g c)) i = asleep c (Suc i)"
  by (simp add: asleep_def kdo_def kcall_def Let_def)

definition polled :: "nat \<Rightarrow> nat \<Rightarrow> codec \<Rightarrow> codec \<Rightarrow> bool" where
  "polled n m c c' \<longleftrightarrow> n \<le> m \<and> calls c' = calls c @ poll_calls n \<and> (n < m \<longrightarrow> asleep c n) \<and>
     (\<forall>i < n. \<not> asleep c i) \<and> (\<exists>l. c' = c\<lparr>cd_log := l\<rparr>)"

lemma kdo_log: "\<exists>l. kdo f c = c\<lparr>cd_log := l\<rparr>"
  by (auto simp: kdo_def kcall_def Let_def)

lemma polled_0:
  assumes "m = 0 \<or> asleep c 0"
  shows "polled 0 m c (kdo (Read_reg AL5_MCU_STA) c)"
  using assms kdo_log by (auto simp: polled_def poll_calls_def)

lemma polled_Suc:
  assumes "\<not> asleep c 0" "polled n m (kdo (Msleep 20) (kdo (Read_reg AL5_MCU_STA) c)) c'"
  shows "polled (Suc n) (Suc m) c c'"
proof -
  have "\<not> asleep c j" if "j < Suc n" for j
    using that assms by (cases j) (simp_all add: polled_def asleep_next)
  moreover have "calls c' = calls c @ poll_calls (Suc n)"
    using assms(2) by (simp add: polled_def poll_calls_def poll_round_def)
  moreover have "\<exists>l. c' = c\<lparr>cd_log := l\<rparr>"
    using assms(2) by (auto simp: polled_def kdo_def kcall_def Let_def)
  ultimately show ?thesis using assms(2) by (simp add: polled_def asleep_next)
qed

lemma wait_mcu_sleeps_polls: "t + m = 5 \<Longrightarrow> \<exists>n. polled n m c (wait_mcu_sleeps (20 * t) c)"
proof (induction m arbitrary: t c)
  case 0
  then have "wait_mcu_sleeps (20 * t) c = kdo (Read_reg AL5_MCU_STA) c"
    by (subst wait_mcu_sleeps.simps) (simp add: al5_readl_eq)
  with polled_0 [of 0 c] show ?case by auto
next
  case (Suc m)
  show ?case
  proof (cases "asleep c 0")
    case True
    then have "wait_mcu_sleeps (20 * t) c = kdo (Read_reg AL5_MCU_STA) c"
      by (subst wait_mcu_sleeps.simps) (simp add: al5_readl_eq asleep_def)
    with polled_0 [of "Suc m" c] True show ?thesis by auto
  next
    case False
    have "20 * t < 100" using Suc.prems by simp
    with False have "wait_mcu_sleeps (20 * t) c =
        wait_mcu_sleeps (20 * Suc t) (kdo (Msleep 20) (kdo (Read_reg AL5_MCU_STA) c))"
      by (subst wait_mcu_sleeps.simps) (simp add: al5_readl_eq asleep_def add.commute)
    moreover from Suc.IH [of "Suc t"] Suc.prems obtain n where
      "polled n m (kdo (Msleep 20) (kdo (Read_reg AL5_MCU_STA) c))
        (wait_mcu_sleeps (20 * Suc t) (kdo (Msleep 20) (kdo (Read_reg AL5_MCU_STA) c)))" by auto
    ultimately show ?thesis using polled_Suc [OF False] by metis
  qed
qed

definition stop_calls :: "nat \<Rightarrow> kcall list" where
  "stop_calls n = [Write_reg AL5_MCU_WAKEUP 0, Write_reg AL5_MCU_INTERRUPT_HANDLER MCU_SLEEP_INSTRUCTION,
     Signal_mcu] @ poll_calls n"

lemma signal_codec_sel [simp]:
  "cd_icache (signal_codec c) = cd_icache c" "cd_regs (signal_codec c) = cd_regs c"
  "cd_icache_mem (signal_codec c) = cd_icache_mem c" "cd_answer (signal_codec c) = cd_answer c"
  "calls (signal_codec c) = calls c @ [Signal_mcu]"
  by (simp_all add: signal_codec_def)

lemma log_only:
  "c' = c\<lparr>cd_log := l\<rparr> \<Longrightarrow> same_boxes b c' = same_boxes b c \<and> cd_icache c' = cd_icache c \<and>
     cd_regs c' = cd_regs c \<and> cd_icache_mem c' = cd_icache_mem c \<and> hw_of c' = hw_of c"
  by (simp add: same_boxes_def hw_of_def)

lemma length_cd_log_writel [simp]: "length (cd_log (al5_writel v r c)) = Suc (length (cd_log c))"
  by (simp add: al5_writel_def kdo_def kcall_def Let_def)

lemma length_cd_log_signal [simp]: "length (cd_log (signal_codec c)) = Suc (length (cd_log c))"
  by (simp add: signal_codec_def kdo_def kcall_def Let_def)

lemma stop_mcu_spec:
  "\<exists>n \<le> 5. calls (stop_mcu c) = calls c @ stop_calls n \<and>
     (mcu_layout c \<longrightarrow> same_boxes c (stop_mcu c)) \<and>
     cd_icache_mem (stop_mcu c) = cd_icache_mem c \<and>
     (n < 5 \<longrightarrow> and (word_of_int (cd_answer c (length (cd_log c) + 3 + 2 * n)) :: u32) 1 = 1) \<and>
     (\<forall>i < n. and (word_of_int (cd_answer c (length (cd_log c) + 3 + 2 * i)) :: u32) 1 \<noteq> 1)"
proof -
  let ?a = "al5_writel MCU_SLEEP_INSTRUCTION AL5_MCU_INTERRUPT_HANDLER (al5_writel 0 AL5_MCU_WAKEUP c)"
  let ?c = "signal_codec ?a"
  have "same_boxes c ?a"
    by (intro same_boxes_writel) (simp_all add: AL5_MCU_WAKEUP_def AL5_MCU_INTERRUPT_HANDLER_def)
  then have s: "mcu_layout c \<longrightarrow> same_boxes c ?c" by (simp add: same_boxes_signal)
  have as: "asleep ?c i \<longleftrightarrow> and (word_of_int (cd_answer c (length (cd_log c) + 3 + 2 * i)) :: u32) 1 = 1" for i
    by (simp add: asleep_def numeral_3_eq_3)
  from wait_mcu_sleeps_polls [of 0 5 ?c] obtain n where "polled n 5 ?c (stop_mcu c)"
    unfolding stop_mcu_def by auto
  then obtain l where w: "n \<le> 5" "calls (stop_mcu c) = calls ?c @ poll_calls n" "n < 5 \<longrightarrow> asleep ?c n"
    "\<forall>i < n. \<not> asleep ?c i" "stop_mcu c = ?c\<lparr>cd_log := l\<rparr>" unfolding polled_def by blast
  have "calls (stop_mcu c) = calls c @ stop_calls n" using w(2) by (simp add: stop_calls_def)
  moreover have "mcu_layout c \<longrightarrow> same_boxes c (stop_mcu c)" "cd_icache_mem (stop_mcu c) = cd_icache_mem c"
    using log_only [OF w(5), of c] s by simp_all
  ultimately show ?thesis using w(1,3,4) as by blast
qed

lemma stop_mcu_group:
  "sys_group (cd_sys (stop_mcu c)) = sys_group (cd_sys c)"
  "sys_users (cd_sys (stop_mcu c)) = sys_users (cd_sys c)"
proof -
  let ?c = "signal_codec (al5_writel MCU_SLEEP_INSTRUCTION AL5_MCU_INTERRUPT_HANDLER (al5_writel 0 AL5_MCU_WAKEUP c))"
  from wait_mcu_sleeps_polls [of 0 5 ?c] obtain l where "stop_mcu c = ?c\<lparr>cd_log := l\<rparr>"
    unfolding stop_mcu_def polled_def by auto
  then show "sys_group (cd_sys (stop_mcu c)) = sys_group (cd_sys c)"
    "sys_users (cd_sys (stop_mcu c)) = sys_users (cd_sys c)"
    by (simp_all add: signal_codec_def)
qed

section \<open>Loading\<close>

definition reset_calls :: "kcall list" where
  "reset_calls = [Write_reg AL5_MCU_RESET_MODE 1, Write_reg AL5_MCU_WAKEUP 0, Write_reg AL5_MCU_RESET 1]"

lemma reset_mcu_spec:
  assumes "same_boxes c c'"
  shows "same_boxes c (reset_mcu c')" "calls (reset_mcu c') = calls c' @ reset_calls"
    "cd_icache_mem (reset_mcu c') = cd_icache_mem c'"
  using assms
  by (simp_all add: reset_mcu_def reset_calls_def same_boxes_writel AL5_MCU_RESET_def
      AL5_MCU_RESET_MODE_def AL5_MCU_WAKEUP_def)

text \<open>The part of an image that is copied: whole words.\<close>

definition whole_words :: "u8 list \<Rightarrow> u8 list" where
  "whole_words bs = take (4 * (length bs div 4)) bs"

lemma length_whole_words: "length (whole_words bs) = 4 * (length bs div 4)"
  by (simp add: whole_words_def)

definition fits :: "u8 list \<Rightarrow> u8 list \<Rightarrow> bool" where
  "fits fw bl_fw \<longleftrightarrow> length fw \<le> AL5_ICACHE_SIZE \<and> length bl_fw \<le> MCU_SRAM_SIZE"

lemma copy_firmware_refused:
  "\<not> fits fw bl_fw \<Longrightarrow> copy_firmware fw bl_fw c = Some (- EINVAL, c)"
  by (auto simp: fits_def copy_firmware_def)

lemma copy_firmware_spec:
  assumes "fits fw bl_fw" "cd_icache c = Some ic" "unat (dma_size ic) = AL5_ICACHE_SIZE"
  obtains c' where "copy_firmware fw bl_fw c = Some (0, c')"
    "calls c' = calls c @ [Copy_icache (length fw), Copy_sram (length bl_fw)]"
    "cd_icache_mem c' = (\<lambda>i. if i < length fw then fw ! i else cd_icache_mem c i)"
    "hw_of c' = (hw_of c)\<lparr>hw_mem := io_put (cd_regs c) (whole_words bl_fw) (hw_mem (hw_of c))\<rparr>"
    "cd_regs c' = cd_regs c" "cd_icache c' = cd_icache c" "cd_suballoc_buf c' = cd_suballoc_buf c"
    "sys_group (cd_sys c') = sys_group (cd_sys c)" "sys_users (cd_sys c') = sys_users (cd_sys c)"
proof -
  let ?m = "\<lambda>i. if i < length fw then fw ! i else cd_icache_mem c i"
  let ?c = "kdo (Copy_icache (length fw)) (c\<lparr>cd_icache_mem := ?m\<rparr>)"
  have "memcpy_toio_32 (cd_regs ?c) bl_fw 0 (int (length bl_fw)) (hw_mem (hw_of ?c)) =
      Some (io_put (cd_regs c) (whole_words bl_fw) (hw_mem (hw_of c)))"
    using memcpy_toio_32_eq [of "int (length bl_fw)" 0 bl_fw "cd_regs c" "hw_mem (hw_of c)"]
    by (simp add: whole_words_def hw_of_def)
  with assms have "copy_firmware fw bl_fw c = Some (0, kdo (Copy_sram (length bl_fw))
      (set_hw ((hw_of ?c)\<lparr>hw_mem := io_put (cd_regs c) (whole_words bl_fw) (hw_mem (hw_of c))\<rparr>) ?c))"
    by (auto simp: copy_firmware_def fits_def Let_def)
  then show thesis by (rule that) simp_all
qed

section \<open>Starting\<close>

definition start_calls :: "al5_dma_buffer \<Rightarrow> kcall list" where
  "start_calls ic =
     [Write_reg AL5_ICACHE_ADDR_OFFSET_LSB (low32 (dma_handle ic - MCU_CACHE_OFFSET)),
      Write_reg AL5_ICACHE_ADDR_OFFSET_MSB (high32 (dma_handle ic - MCU_CACHE_OFFSET)),
      Write_reg AL5_DCACHE_ADDR_OFFSET_MSB (high32 (memory_segment (dma_handle ic) - MCU_CACHE_OFFSET)),
      Write_reg AL5_DCACHE_ADDR_OFFSET_LSB (low32 (memory_segment (dma_handle ic) - MCU_CACHE_OFFSET)),
      Write_reg AL5_MCU_INTERRUPT_MASK 1,
      Write_reg AL5_MCU_WAKEUP 1]"

definition start_of :: "al5_dma_buffer \<Rightarrow> codec \<Rightarrow> codec" where
  "start_of ic c = start_mcu (set_mcu_interrupt_mask (set_dcache_offset ic (set_icache_offset ic c)))"

lemma start_of_spec:
  assumes "same_boxes c c'"
  shows "same_boxes c (start_of ic c')" "calls (start_of ic c') = calls c' @ start_calls ic"
    "cd_icache_mem (start_of ic c') = cd_icache_mem c'"
  using assms
  by (simp_all add: start_of_def start_calls_def start_mcu_def set_mcu_interrupt_mask_def
      set_dcache_offset_def set_icache_offset_def Let_def same_boxes_writel AL5_MCU_WAKEUP_def
      AL5_MCU_INTERRUPT_MASK_def AL5_DCACHE_ADDR_OFFSET_LSB_def AL5_DCACHE_ADDR_OFFSET_MSB_def
      AL5_ICACHE_ADDR_OFFSET_LSB_def AL5_ICACHE_ADDR_OFFSET_MSB_def)

lemma start_of_low_memory:
  "a < cd_regs c + 0x8000 \<Longrightarrow> hw_mem (hw_of (start_of ic c)) a = hw_mem (hw_of c) a"
  by (simp add: start_of_def start_mcu_def set_mcu_interrupt_mask_def
      set_dcache_offset_def set_icache_offset_def Let_def iowrite32_outside AL5_MCU_WAKEUP_def
      AL5_MCU_INTERRUPT_MASK_def AL5_DCACHE_ADDR_OFFSET_LSB_def AL5_DCACHE_ADDR_OFFSET_MSB_def
      AL5_ICACHE_ADDR_OFFSET_LSB_def AL5_ICACHE_ADDR_OFFSET_MSB_def)


lemma same_boxes_sel:
  "same_boxes c c' \<Longrightarrow> cd_regs c' = cd_regs c" "same_boxes c c' \<Longrightarrow> cd_icache c' = cd_icache c"
  by (simp_all add: same_boxes_def)

text \<open>The state in which the images are copied: the processor stopped and reset.\<close>

lemma stopped_spec:
  assumes "mcu_layout c"
  obtains n where "n \<le> 5" "calls (reset_mcu (stop_mcu c)) = calls c @ stop_calls n @ reset_calls"
    "same_boxes c (reset_mcu (stop_mcu c))" "cd_icache_mem (reset_mcu (stop_mcu c)) = cd_icache_mem c"
proof -
  from stop_mcu_spec [of c] assms obtain n where n: "n \<le> 5" "calls (stop_mcu c) = calls c @ stop_calls n"
    "same_boxes c (stop_mcu c)" "cd_icache_mem (stop_mcu c) = cd_icache_mem c" by blast
  from that [of n] n reset_mcu_spec [OF n(3)] show thesis by simp
qed

lemma setup_and_start_refused:
  assumes "mcu_layout c" "\<not> fits fw bl_fw"
  shows "\<exists>c' n. setup_and_start_mcu fw bl_fw c = Some (- EINVAL, c') \<and> n \<le> 5 \<and>
    calls c' = calls c @ stop_calls n @ reset_calls \<and> same_boxes c c' \<and> cd_icache_mem c' = cd_icache_mem c"
proof -
  from stopped_spec [OF assms(1)] obtain n where "n \<le> 5"
    "calls (reset_mcu (stop_mcu c)) = calls c @ stop_calls n @ reset_calls"
    "same_boxes c (reset_mcu (stop_mcu c))" "cd_icache_mem (reset_mcu (stop_mcu c)) = cd_icache_mem c" .
  then show ?thesis
    using copy_firmware_refused [OF assms(2), of "reset_mcu (stop_mcu c)"]
    by (intro exI [of _ "reset_mcu (stop_mcu c)"] exI [of _ n]) (simp add: setup_and_start_mcu_def)
qed

text \<open>What is in the device memory below 0x8000 after a start: the bootloader, and behind it what
  was there.\<close>

lemma setup_and_start_ok:
  assumes "mcu_layout c" "fits fw bl_fw" "cd_icache c = Some ic" "unat (dma_size ic) = AL5_ICACHE_SIZE"
  shows "\<exists>c' n. setup_and_start_mcu fw bl_fw c = Some (0, c') \<and> n \<le> 5 \<and>
    calls c' = calls c @ stop_calls n @ reset_calls @
      [Copy_icache (length fw), Copy_sram (length bl_fw)] @ start_calls ic \<and>
    (\<forall>i < length fw. cd_icache_mem c' i = fw ! i) \<and>
    (\<forall>i < length (whole_words bl_fw). hw_mem (hw_of c') (cd_regs c + i) = bl_fw ! i) \<and>
    (length (whole_words bl_fw) \<le> 0x7000 \<longrightarrow> same_boxes c c')"
proof -
  let ?c = "reset_mcu (stop_mcu c)" and ?w = "whole_words bl_fw"
  from stopped_spec [OF assms(1)] obtain n where n: "n \<le> 5"
    "calls ?c = calls c @ stop_calls n @ reset_calls" "same_boxes c ?c" .
  have r: "cd_regs ?c = cd_regs c" and ic: "cd_icache ?c = Some ic"
    using same_boxes_sel [OF n(3)] assms(3) by simp_all
  obtain c1 where c1: "copy_firmware fw bl_fw ?c = Some (0, c1)"
    "calls c1 = calls ?c @ [Copy_icache (length fw), Copy_sram (length bl_fw)]"
    "cd_icache_mem c1 = (\<lambda>i. if i < length fw then fw ! i else cd_icache_mem ?c i)"
    "hw_of c1 = (hw_of ?c)\<lparr>hw_mem := io_put (cd_regs ?c) ?w (hw_mem (hw_of ?c))\<rparr>"
    "cd_regs c1 = cd_regs ?c" "cd_icache c1 = cd_icache ?c" "cd_suballoc_buf c1 = cd_suballoc_buf ?c"
    "sys_group (cd_sys c1) = sys_group (cd_sys ?c)" "sys_users (cd_sys c1) = sys_users (cd_sys ?c)"
    by (rule copy_firmware_spec [OF assms(2) ic assms(4)])
  let ?e = "start_of ic c1"
  have len: "length ?w \<le> 0x8000"
    using assms(2) div_le_mono [where m = "length bl_fw" and n = "0x8000" and k = "4"]
    by (simp add: fits_def MCU_SRAM_SIZE_def length_whole_words)
  have st: "setup_and_start_mcu fw bl_fw c = Some (0, ?e)"
    using c1(1,6) ic by (simp add: setup_and_start_mcu_def start_of_def)
  have sram: "hw_mem (hw_of ?e) (cd_regs c + i) = bl_fw ! i" if "i < length ?w" for i
  proof -
    have "hw_mem (hw_of ?e) (cd_regs c + i) = hw_mem (hw_of c1) (cd_regs c + i)"
      using that len c1(5) r by (intro start_of_low_memory) simp
    also have "\<dots> = ?w ! i" using that c1(4) r by (simp add: io_put_def)
    also have "\<dots> = bl_fw ! i" using that by (simp add: whole_words_def)
    finally show ?thesis .
  qed
  have "same_boxes c ?e" if "length ?w \<le> 0x7000"
  proof -
    have "same_boxes ?c c1"
      using that c1 r by (simp add: same_boxes_def io_put_outside)
    with n(3) show ?thesis by (intro start_of_spec(1)) (rule same_boxes_trans)
  qed
  with st sram n(1,2) c1(2,3) start_of_spec(2,3) [OF same_boxes_refl, of ic c1] show ?thesis
    by (intro exI [of _ ?e] exI [of _ n]) simp
qed

section \<open>Whether the processor runs\<close>

text \<open>The value written last to the wake-up register.\<close>

fun wakeup_after :: "u32 option \<Rightarrow> kcall list \<Rightarrow> u32 option" where
  "wakeup_after w [] = w"
| "wakeup_after w (Write_reg r v # cs) = wakeup_after (if r = AL5_MCU_WAKEUP then Some v else w) cs"
| "wakeup_after w (_ # cs) = wakeup_after w cs"

lemma wakeup_after_append [simp]:
  "wakeup_after w (as @ bs) = wakeup_after (wakeup_after w as) bs"
  by (induction w as rule: wakeup_after.induct) simp_all

lemma wakeup_poll [simp]: "wakeup_after w (poll_calls n) = w"
proof -
  have "wakeup_after w (concat (replicate n poll_round)) = w"
    by (induction n) (simp_all add: poll_round_def)
  then show ?thesis by (simp add: poll_calls_def)
qed

lemma wakeup_calls [simp]:
  "wakeup_after w (stop_calls n) = Some 0" "wakeup_after w reset_calls = Some 0"
  "wakeup_after w (start_calls ic) = Some 1"
  by (simp_all add: stop_calls_def reset_calls_def start_calls_def AL5_MCU_WAKEUP_def
      AL5_MCU_INTERRUPT_HANDLER_def AL5_MCU_RESET_def)

definition wakeup :: "codec \<Rightarrow> u32 option" where
  "wakeup c = wakeup_after None (calls c)"

lemma wakeup_kdo [simp]: "(\<And>r v. f \<noteq> Write_reg r v) \<Longrightarrow> wakeup (kdo f c) = wakeup c"
  by (cases f) (auto simp: wakeup_def)

lemma wakeup_log: "calls c' = calls c \<Longrightarrow> wakeup c' = wakeup c"
  by (simp add: wakeup_def)

lemma wakeup_stop: "wakeup (stop_mcu c) = Some 0"
  using stop_mcu_spec [of c] by (auto simp: wakeup_def)

section \<open>Properties\<close>

text \<open>C25: stopping the processor takes bounded time. Whatever the status register says, the code
  polls it at most six times and sleeps 20 ms at most five times in between; it goes on earlier
  exactly when a poll finds the sleep bit, and the accesses come in this order.\<close>

theorem stop_mcu_bounded:
  "\<exists>n \<le> 5. map fst (cd_log (stop_mcu c)) = map fst (cd_log c) @
      [Write_reg AL5_MCU_WAKEUP 0, Write_reg AL5_MCU_INTERRUPT_HANDLER MCU_SLEEP_INSTRUCTION, Signal_mcu] @
      concat (replicate n [Read_reg AL5_MCU_STA, Msleep 20]) @ [Read_reg AL5_MCU_STA] \<and>
    (n < 5 \<longrightarrow> and (word_of_int (cd_answer c (length (cd_log c) + 3 + 2 * n)) :: u32) 1 = 1) \<and>
    (\<forall>i < n. and (word_of_int (cd_answer c (length (cd_log c) + 3 + 2 * i)) :: u32) 1 \<noteq> 1)"
proof -
  from stop_mcu_spec [of c] obtain n where "n \<le> 5" "calls (stop_mcu c) = calls c @ stop_calls n"
    "n < 5 \<longrightarrow> and (word_of_int (cd_answer c (length (cd_log c) + 3 + 2 * n)) :: u32) 1 = 1"
    "\<forall>i < n. and (word_of_int (cd_answer c (length (cd_log c) + 3 + 2 * i)) :: u32) 1 \<noteq> 1" by blast
  then show ?thesis
    by (intro exI [of _ n]) (simp add: calls_def stop_calls_def poll_calls_def poll_round_def)
qed

text \<open>C19: the start of the firmware. The processor is put to sleep and reset before a byte of its
  memories changes. Images that are too big are refused with \<open>-EINVAL\<close> before anything is copied,
  and the processor stays asleep. Otherwise the firmware is in the instruction memory and the
  whole words of the bootloader in the SRAM when the last access, and no earlier one, wakes it up.\<close>

theorem setup_and_start_mcu_spec:
  assumes "mcu_layout c" "cd_icache c = Some ic" "unat (dma_size ic) = AL5_ICACHE_SIZE"
  shows "\<exists>ret c' n. setup_and_start_mcu fw bl_fw c = Some (ret, c') \<and> n \<le> 5 \<and>
    (if AL5_ICACHE_SIZE < length fw \<or> MCU_SRAM_SIZE < length bl_fw
     then ret = - EINVAL \<and> calls c' = calls c @ stop_calls n @ reset_calls \<and>
       cd_icache_mem c' = cd_icache_mem c
     else ret = 0 \<and> calls c' = calls c @ stop_calls n @ reset_calls @
         [Copy_icache (length fw), Copy_sram (length bl_fw)] @ start_calls ic \<and>
       (\<forall>i < length fw. cd_icache_mem c' i = fw ! i) \<and>
       (\<forall>i < length bl_fw div 4 * 4. hw_mem (hw_of c') (cd_regs c + i) = bl_fw ! i))"
proof (cases "fits fw bl_fw")
  case False
  then have "AL5_ICACHE_SIZE < length fw \<or> MCU_SRAM_SIZE < length bl_fw" by (auto simp: fits_def)
  moreover from setup_and_start_refused [OF assms(1) False] obtain c' n where
    "setup_and_start_mcu fw bl_fw c = Some (- EINVAL, c')" "n \<le> 5"
    "calls c' = calls c @ stop_calls n @ reset_calls" "cd_icache_mem c' = cd_icache_mem c" by blast
  ultimately show ?thesis
    by (intro exI [of _ "- EINVAL"] exI [of _ c'] exI [of _ n]) simp
next
  case True
  then have "\<not> (AL5_ICACHE_SIZE < length fw \<or> MCU_SRAM_SIZE < length bl_fw)" by (auto simp: fits_def)
  moreover from setup_and_start_ok [OF assms(1) True assms(2,3)] obtain c' n where
    "setup_and_start_mcu fw bl_fw c = Some (0, c')" "n \<le> 5"
    "calls c' = calls c @ stop_calls n @ reset_calls @
      [Copy_icache (length fw), Copy_sram (length bl_fw)] @ start_calls ic"
    "\<forall>i < length fw. cd_icache_mem c' i = fw ! i"
    "\<forall>i < length (whole_words bl_fw). hw_mem (hw_of c') (cd_regs c + i) = bl_fw ! i" by blast
  ultimately show ?thesis
    by (intro exI [of _ 0] exI [of _ c'] exI [of _ n]) (simp add: length_whole_words mult.commute)
qed

end
