(* ===== verification/Codec_Windows.thy ===== *)
theory Codec_Windows
  imports Codec_Start
begin

text \<open>
  The address arithmetic between the driver and its firmware (\<open>set_icache_offset\<close>,
  \<open>set_dcache_offset\<close> of \<open>common/al_codec.c\<close>, \<open>al5_mcu_get_virtual_address\<close> of
  \<open>common/mcu_interface.c\<close>): which bus address the firmware reaches with the 32-bit address the
  driver sends it, and that the 32-bit and the 64-bit build program the same windows.
\<close>

section \<open>Words in two halves\<close>

lemma halves: "push_bit 32 (ucast (high32 w)) + ucast (low32 w) = (w :: u64)"
proof -
  have "and (push_bit 32 (ucast (high32 w) :: u64)) (ucast (low32 w)) = 0"
    by (intro bit_word_eqI) (auto simp: bit_simps low32_def)
  then have "push_bit 32 (ucast (high32 w)) + ucast (low32 w) =
      or (push_bit 32 (ucast (high32 w) :: u64)) (ucast (low32 w))"
    by (rule disjunctive_add_eq_or)
  also have "\<dots> = w"
    by (intro bit_word_eqI) (auto simp: bit_simps low32_def high32_def)
  finally show ?thesis .
qed

lemma low32_add: "low32 (a + b) = low32 a + low32 b"
proof -
  have "take_bit 32 (take_bit 64 i + take_bit 64 j) = take_bit 32 (i + j)" for i j :: int
    using take_bit_add [of 32 "take_bit 64 i" "take_bit 64 j"] take_bit_add [of 32 i j] by simp
  then show ?thesis unfolding low32_def by transfer simp
qed

lemma low32_ucast: "low32 (ucast (h :: u32)) = h"
  unfolding low32_def by (intro bit_word_eqI) (auto simp: bit_simps dest: bit_imp_le_length)

lemma low32_diff: "low32 (a - b) = low32 a - low32 b"
  using low32_add [of "a - b" b] by simp

lemma high32_join: "high32 (ucast (x :: u32) + push_bit 32 (ucast (y :: u32))) = y"
proof -
  have "and (ucast x :: u64) (push_bit 32 (ucast y)) = 0"
    by (intro bit_word_eqI) (auto simp: bit_simps dest: bit_imp_le_length)
  then have "ucast x + push_bit 32 (ucast y) = or (ucast x :: u64) (push_bit 32 (ucast y))"
    by (rule disjunctive_add_eq_or)
  then show ?thesis
    by (intro bit_word_eqI) (auto simp: bit_simps high32_def dest: bit_imp_le_length)
qed

lemma memory_segment_eq: "memory_segment w = push_bit 32 (ucast (high32 w))"
proof -
  have m: "(0xffffffff00000000 :: u64) = push_bit 32 (mask 32)" by (simp add: mask_eq_exp_minus_1)
  show ?thesis
    unfolding memory_segment_def high32_def m by (intro bit_word_eqI) (auto simp: bit_simps)
qed

lemma segment_split: "memory_segment w + ucast (low32 w) = w"
  by (simp add: memory_segment_eq halves)

lemma uint_offset:
  "uint (x + 0x80000000 :: u32) = (if x < 0x80000000 then uint x + 0x80000000 else uint x - 0x80000000)"
proof -
  have u: "0 \<le> uint x" "uint x < 0x100000000" using uint_lt2p [of x] by simp_all
  have e: "uint (x + 0x80000000) = (uint x + 0x80000000) mod 0x100000000"
    by (simp add: uint_word_ariths)
  show ?thesis
  proof (cases "x < 0x80000000")
    case True
    then have "uint x + 0x80000000 < 0x100000000" by (simp add: word_less_def)
    with True u e show ?thesis by simp
  next
    case False
    then have "0x80000000 \<le> uint x" by (simp add: word_less_def)
    with False u e show ?thesis
      using mod_pos_pos_trivial [of "uint x - 0x80000000" "0x100000000"]
        mod_add_self2 [of "uint x - 0x80000000" "0x100000000"] by (simp add: add.commute)
  qed
qed

lemma ucast_offset:
  "(ucast (x + 0x80000000 :: u32) :: u64) =
    ucast x + 0x80000000 - (if x < 0x80000000 then 0 else 0x100000000)"
proof -
  have "(ucast (x + 0x80000000) :: u64) = word_of_int (uint (x + 0x80000000))" by simp
  also have "\<dots> = word_of_int (if x < 0x80000000 then uint x + 0x80000000 else uint x - 0x80000000)"
    by (simp only: uint_offset)
  finally show ?thesis by (simp split: if_splits)
qed

section \<open>The windows\<close>

text \<open>A difference of 2^31 from a small address, in the two registers.\<close>

lemma high32_window:
  "high32 (ucast (h :: u32) - 0x80000000) = (if h < 0x80000000 then 0xFFFFFFFF else 0)"
proof -
  have "(ucast h - 0x80000000 :: u64) = ucast (h + 0x80000000) +
      push_bit 32 (ucast (if h < 0x80000000 then 0xFFFFFFFF else 0 :: u32))"
    by (simp add: ucast_offset push_bit_eq_mult)
  then show ?thesis by (simp only: high32_join)
qed

lemma memory_segment_small: "memory_segment (ucast (h :: u32)) = 0"
  unfolding memory_segment_eq
  by (intro bit_word_eqI) (auto simp: bit_simps high32_def dest: bit_imp_le_length)

text \<open>The offset of the data window, put together from the two registers.\<close>

definition dcache_window :: "al5_dma_buffer \<Rightarrow> u64" where
  "dcache_window ic =
     (let h = memory_segment (dma_handle ic) - MCU_CACHE_OFFSET
      in push_bit 32 (ucast (high32 h)) + ucast (low32 h))"

lemma dcache_window_eq: "dcache_window ic = memory_segment (dma_handle ic) - MCU_CACHE_OFFSET"
  by (simp add: dcache_window_def halves)

lemma reached_eq:
  "ucast (al5_mcu_get_virtual_address (low32 w)) + dcache_window ic =
    w + (memory_segment (dma_handle ic) - memory_segment w)
      - (if low32 w < 0x80000000 then 0 else 0x100000000)"
  using segment_split [of w]
  by (simp add: al5_mcu_get_virtual_address_def mcu_cache_offset_def ucast_offset dcache_window_eq
      MCU_CACHE_OFFSET_def algebra_simps)

lemma set_offsets_calls:
  "calls (set_dcache_offset ic (set_icache_offset ic c)) = calls c @
     [Write_reg AL5_ICACHE_ADDR_OFFSET_LSB (low32 (dma_handle ic - MCU_CACHE_OFFSET)),
      Write_reg AL5_ICACHE_ADDR_OFFSET_MSB (high32 (dma_handle ic - MCU_CACHE_OFFSET)),
      Write_reg AL5_DCACHE_ADDR_OFFSET_MSB (high32 (memory_segment (dma_handle ic) - MCU_CACHE_OFFSET)),
      Write_reg AL5_DCACHE_ADDR_OFFSET_LSB (low32 (memory_segment (dma_handle ic) - MCU_CACHE_OFFSET))]"
  by (simp add: set_dcache_offset_def set_icache_offset_def Let_def)

lemma set_l2_info_addr: "init_addr (set_l2_info l2 parent msg) = init_addr msg"
  by (simp add: set_l2_info_def split: option.splits)

section \<open>Properties\<close>


text \<open>The windows on 32-bit kernels. There the code extends the sign by hand, and the mask of
  the segment and the subtraction are done in 32 bits; for an instruction memory below 4 GB both
  builds write the same four values.\<close>

theorem cache_offsets_32:
  assumes "dma_handle ic = ucast (h :: u32)"
  shows "calls (set_dcache_offset ic (set_icache_offset ic c)) = calls c @
    [Write_reg AL5_ICACHE_ADDR_OFFSET_LSB (snd (icache_offset_32 h)),
     Write_reg AL5_ICACHE_ADDR_OFFSET_MSB (fst (icache_offset_32 h)),
     Write_reg AL5_DCACHE_ADDR_OFFSET_MSB (fst (dcache_offset_32 h)),
     Write_reg AL5_DCACHE_ADDR_OFFSET_LSB (snd (dcache_offset_32 h))]"
proof -
  have m: "low32 MCU_CACHE_OFFSET = 0x80000000" "low32 (ucast h) = h" "low32 0 = 0"
    "memory_segment (ucast h) = 0" "and (ucast h :: u64) 0xffffffff00000000 = 0"
    using memory_segment_small [of h] low32_ucast [of h]
    by (simp_all add: low32_def MCU_CACHE_OFFSET_def memory_segment_def)
  show ?thesis
    unfolding set_offsets_calls assms icache_offset_32_def dcache_offset_32_def
    using high32_window [of h] high32_window [of 0] low32_diff [of 0 "0x80000000"] m(1)
    by (simp add: m low32_diff Let_def MCU_CACHE_OFFSET_def)
qed

text \<open>An instruction memory at the bottom of the address space.\<close>

definition icache_1000 :: al5_dma_buffer where
  "icache_1000 = \<lparr>dma_size = 614400, dma_handle = 0x1000, cpu_handle = 1\<rparr>"

theorem cache_offsets_32_witness:
  "\<forall>c. map fst (cd_log (set_dcache_offset icache_1000 (set_icache_offset icache_1000 c))) =
    map fst (cd_log c) @
    [Write_reg AL5_ICACHE_ADDR_OFFSET_LSB 0x80001000, Write_reg AL5_ICACHE_ADDR_OFFSET_MSB 0xFFFFFFFF,
     Write_reg AL5_DCACHE_ADDR_OFFSET_MSB 0xFFFFFFFF, Write_reg AL5_DCACHE_ADDR_OFFSET_LSB 0x80000000]"
proof
  fix c
  have "and (0x1000 :: u64) 0xffffffff00000000 = 0" by simp
  with cache_offsets_32 [of icache_1000 "0x1000" c]
  show "map fst (cd_log (set_dcache_offset icache_1000 (set_icache_offset icache_1000 c))) =
    map fst (cd_log c) @
    [Write_reg AL5_ICACHE_ADDR_OFFSET_LSB 0x80001000, Write_reg AL5_ICACHE_ADDR_OFFSET_MSB 0xFFFFFFFF,
     Write_reg AL5_DCACHE_ADDR_OFFSET_MSB 0xFFFFFFFF, Write_reg AL5_DCACHE_ADDR_OFFSET_LSB 0x80000000]"
    by (simp add: icache_1000_def icache_offset_32_def dcache_offset_32_def low32_def MCU_CACHE_OFFSET_def
        calls_def)
qed

end
