(* ===== verification/Enc_Mails.thy ===== *)
theory Enc_Mails
  imports Codec_Mails
begin

text \<open>
  The messages of the encoder driver (\<open>al5e/enc_mails_factory.c\<close>, \<open>al5e/enc_feedbacks.h\<close>,
  the structures of \<open>al5e/al_enc_ioctl.h\<close>). The parameters come from user space with a size the
  code does not check against the array that holds them; a copy of more bytes than the array has
  is undefined behaviour.
\<close>

section \<open>Structures\<close>

text \<open>\<open>u32 opaque[128]\<close> as its 512 bytes.\<close>

record al5_params =
  params_size :: u32
  params_opaque :: "u8 list"

definition params_bytes :: nat where
  "params_bytes = 512"

definition params_ok :: "al5_params \<Rightarrow> bool" where
  "params_ok p \<longleftrightarrow> length (params_opaque p) = params_bytes"

text \<open>The size fits the array.\<close>

definition params_fit :: "al5_params \<Rightarrow> bool" where
  "params_fit p \<longleftrightarrow> unat (params_size p) \<le> params_bytes"

definition params_data :: "al5_params \<Rightarrow> u8 list" where
  "params_data p = take (unat (params_size p)) (params_opaque p)"

definition params0 :: al5_params where
  "params0 = \<lparr>params_size = 8, params_opaque = replicate 512 1\<rparr>"

lemma params0_ok [simp]: "params_ok params0" "params_fit params0"
  by (simp_all add: params0_def params_ok_def params_fit_def params_bytes_def)

record al5_encode_msg =
  enc_params :: al5_params
  enc_addresses :: al5_params

record al5_channel_buffers =
  int_buffers_count :: u32
  int_buffers_size :: u32
  rec_buffers_count :: u32
  rec_buffers_size :: u32
  buffers_reserved :: u32

record al5e_feedback_channel =
  fb_chan_uid :: u32
  fb_user_uid :: u32
  fb_options :: u32
  fb_num_core :: u32
  fb_pps_param :: u32
  fb_buffers_needed :: al5_channel_buffers
  fb_error_code :: u32

text \<open>The structure read from the first 44 bytes of a body.\<close>

definition feedback_of_bytes :: "u8 list \<Rightarrow> al5e_feedback_channel option" where
  "feedback_of_bytes bs = do {
     chan \<leftarrow> load32 bs 0; user \<leftarrow> load32 bs 4; opts \<leftarrow> load32 bs 8; core \<leftarrow> load32 bs 12;
     pps \<leftarrow> load32 bs 16; ic \<leftarrow> load32 bs 20; isz \<leftarrow> load32 bs 24; rc \<leftarrow> load32 bs 28;
     rs \<leftarrow> load32 bs 32; res \<leftarrow> load32 bs 36; err \<leftarrow> load32 bs 40;
     Some \<lparr>fb_chan_uid = chan, fb_user_uid = user, fb_options = opts, fb_num_core = core,
           fb_pps_param = pps,
           fb_buffers_needed = \<lparr>int_buffers_count = ic, int_buffers_size = isz,
             rec_buffers_count = rc, rec_buffers_size = rs, buffers_reserved = res\<rparr>,
           fb_error_code = err\<rparr>
   }"

definition bytes_of_feedback :: "al5e_feedback_channel \<Rightarrow> u8 list" where
  "bytes_of_feedback fb = concat (map le32 [fb_chan_uid fb, fb_user_uid fb, fb_options fb,
     fb_num_core fb, fb_pps_param fb, int_buffers_count (fb_buffers_needed fb),
     int_buffers_size (fb_buffers_needed fb), rec_buffers_count (fb_buffers_needed fb),
     rec_buffers_size (fb_buffers_needed fb), buffers_reserved (fb_buffers_needed fb),
     fb_error_code fb])"

section \<open>The code\<close>

definition al5e_mail_get_status :: "al5_params \<Rightarrow> al5_mail \<Rightarrow> al5_params option" where
  "al5e_mail_get_status status mail = do {
     let n = al5_mail_get_size mail - 4;
     bs \<leftarrow> copy_into (params_opaque status) 0 (drop 4 (al5_mail_get_body mail)) (unat n);
     Some (status\<lparr>params_size := n, params_opaque := bs\<rparr>)
   }"

definition al5e_create_encode_one_frame_msg ::
    "u32 \<Rightarrow> al5_encode_msg \<Rightarrow> kmem \<Rightarrow> (al5_mail option \<times> kmem) option" where
  "al5e_create_encode_one_frame_msg chan_uid msg k =
     (let mail_size = 8 + params_size (enc_params msg) + params_size (enc_addresses msg);
          (mail, k) = al5_mail_create (uid_code AL_MCU_MSG_ENCODE_ONE_FRM) mail_size k
      in do {
        mail \<leftarrow> deref mail;
        mail \<leftarrow> al5_mail_write_word mail chan_uid;
        mail \<leftarrow> al5_mail_write_word mail 0;
        mail \<leftarrow> al5_mail_write mail (params_opaque (enc_params msg)) (params_size (enc_params msg));
        mail \<leftarrow> al5_mail_write mail (params_opaque (enc_addresses msg)) (params_size (enc_addresses msg));
        Some (Some mail, k)
      })"

definition al5e_create_channel_param_msg ::
    "u32 \<Rightarrow> al5_params \<Rightarrow> kmem \<Rightarrow> (al5_mail option \<times> kmem) option" where
  "al5e_create_channel_param_msg user_uid msg k =
     al5_create_classic_mail user_uid (uid_code AL_MCU_MSG_CREATE_CHANNEL) (params_opaque msg)
       (params_size msg) k"

section \<open>What is built and read\<close>

lemma write_too_long:
  "length src < unat n \<Longrightarrow> al5_mail_write m src n = None"
  by (simp add: al5_mail_write_def copy_into_def)

lemma unat_add3:
  "unat a + unat b + unat c < 2 ^ 32 \<Longrightarrow> unat (a + b + c) = unat a + unat b + unat c"
  for a b c :: u32
  by (simp add: unat_add_small)

lemma al5e_create_channel_param_msg_eq:
  assumes "km_ok k" "km_nofail k" "params_ok p" "params_fit p"
  shows "al5e_create_channel_param_msg user p k =
    Some (Some (mail_of (uid_code AL_MCU_MSG_CREATE_CHANNEL) (le32 user @ params_data p)), km_step 1 1 k)"
proof -
  have n: "unat (params_size p) \<le> 512" "unat (params_size p) \<le> length (params_opaque p)"
    using assms(3,4) by (simp_all add: params_ok_def params_fit_def params_bytes_def)
  obtain rest where "al5_mail_create (uid_code AL_MCU_MSG_CREATE_CHANNEL) (uid_size + params_size p) k =
      (Some (partial_mail (uid_code AL_MCU_MSG_CREATE_CHANNEL) [] rest), km_step 1 1 k)"
    "length rest = unat (uid_size + params_size p)"
    using assms(1,2) by (rule al5_mail_create_Some)
  moreover have "unat (uid_size + params_size p) = 4 + unat (params_size p)"
    using n by (simp add: uid_size_def unat_add_small)
  ultimately show ?thesis
    using n by (simp add: al5e_create_channel_param_msg_def al5_create_classic_mail_def
        al5_mail_write_word_partial al5_mail_write_partial partial_mail_complete params_data_def)
qed

lemma al5e_create_encode_eq:
  assumes "km_ok k" "km_nofail k" "params_ok (enc_params m)" "params_ok (enc_addresses m)"
    and "params_fit (enc_params m)" "params_fit (enc_addresses m)"
  shows "al5e_create_encode_one_frame_msg chan m k =
    Some (Some (mail_of (uid_code AL_MCU_MSG_ENCODE_ONE_FRM)
      (le32 chan @ le32 0 @ params_data (enc_params m) @ params_data (enc_addresses m))), km_step 1 1 k)"
proof -
  let ?a = "params_size (enc_params m)" and ?b = "params_size (enc_addresses m)"
  have n: "unat ?a \<le> 512" "unat ?b \<le> 512" "length (params_opaque (enc_params m)) = 512"
    "length (params_opaque (enc_addresses m)) = 512"
    using assms(3-6) by (simp_all add: params_ok_def params_fit_def params_bytes_def)
  then have sz: "unat (8 + ?a + ?b) = 8 + unat ?a + unat ?b"
    by (subst unat_add3) simp_all
  obtain rest where "al5_mail_create (uid_code AL_MCU_MSG_ENCODE_ONE_FRM) (8 + ?a + ?b) k =
      (Some (partial_mail (uid_code AL_MCU_MSG_ENCODE_ONE_FRM) [] rest), km_step 1 1 k)"
    "length rest = unat (8 + ?a + ?b)"
    using assms(1,2) by (rule al5_mail_create_Some)
  with n sz show ?thesis
    by (simp add: al5e_create_encode_one_frame_msg_def al5_mail_write_word_partial
        al5_mail_write_partial partial_mail_complete params_data_def)
qed

lemma bind_None_right: "(do { x \<leftarrow> m; None }) = None"
  by (cases m) simp_all

lemma al5e_create_encode_overrun:
  assumes "params_ok (enc_params m)" "params_ok (enc_addresses m)"
    and "\<not> params_fit (enc_params m) \<or> \<not> params_fit (enc_addresses m)"
  shows "al5e_create_encode_one_frame_msg chan m k = None"
  using assms(3)
proof
  assume "\<not> params_fit (enc_params m)"
  then have "al5_mail_write x (params_opaque (enc_params m)) (params_size (enc_params m)) = None" for x
    using assms(1) by (intro write_too_long) (simp add: params_ok_def params_fit_def)
  then show ?thesis
    by (simp add: al5e_create_encode_one_frame_msg_def bind_None_right split: prod.split)
next
  assume "\<not> params_fit (enc_addresses m)"
  then have "al5_mail_write x (params_opaque (enc_addresses m)) (params_size (enc_addresses m)) = None" for x
    using assms(2) by (intro write_too_long) (simp add: params_ok_def params_fit_def)
  then show ?thesis
    by (simp add: al5e_create_encode_one_frame_msg_def bind_None_right split: prod.split)
qed

lemma load32_le32_at:
  "length xs = n \<Longrightarrow> load32 (xs @ le32 w @ ys) n = Some w"
  using load32_append [of xs n "le32 w @ ys" 0] by simp

lemma feedback_roundtrip: "feedback_of_bytes (bytes_of_feedback fb @ rest) = Some fb"
proof -
  have "load32 (concat (map le32 ws) @ rest) (4 * i) = Some (ws ! i)" if "i < length ws" for ws i
  proof -
    have len: "length (concat (map le32 xs)) = 4 * length xs" for xs
      by (induction xs) simp_all
    have "ws = take i ws @ ws ! i # drop (Suc i) ws" using that by (rule id_take_nth_drop)
    then have "concat (map le32 ws) =
        concat (map le32 (take i ws)) @ le32 (ws ! i) @ concat (map le32 (drop (Suc i) ws))"
      by (metis concat.simps(2) concat_append list.simps(9) map_append)
    with load32_le32_at [of "concat (map le32 (take i ws))" "4 * i"] that show ?thesis
      by (simp add: len)
  qed
  note l = this
  let ?ws = "[fb_chan_uid fb, fb_user_uid fb, fb_options fb,
     fb_num_core fb, fb_pps_param fb, int_buffers_count (fb_buffers_needed fb),
     int_buffers_size (fb_buffers_needed fb), rec_buffers_count (fb_buffers_needed fb),
     rec_buffers_size (fb_buffers_needed fb), buffers_reserved (fb_buffers_needed fb),
     fb_error_code fb]"
  show ?thesis
    unfolding feedback_of_bytes_def bytes_of_feedback_def
    using l [of 0 ?ws] l [of 1 ?ws] l [of 2 ?ws] l [of 3 ?ws] l [of 4 ?ws] l [of 5 ?ws]
      l [of 6 ?ws] l [of 7 ?ws] l [of 8 ?ws] l [of 9 ?ws] l [of 10 ?ws]
    by (simp del: concat.simps append_assoc)
qed

lemma al5e_mail_get_status_eq:
  assumes "params_ok status" "length bs < 2 ^ 16"
  shows "al5e_mail_get_status status (mail_of uid bs) =
    (if 4 \<le> length bs \<and> length bs \<le> 516
     then Some \<lparr>params_size = of_nat (length bs - 4),
       params_opaque = drop 4 bs @ drop (length bs - 4) (params_opaque status)\<rparr> else None)"
proof -
  have sz: "unat (al5_mail_get_size (mail_of uid bs)) = length bs"
    using assms(2) by (simp add: al5_mail_get_size_def mail_of_sel unat_ucast_le unat_of_nat)
  have e: "al5_mail_get_size (mail_of uid bs) = of_nat (length bs)"
    using sz assms(2) by (simp add: word_unat_eq_iff unat_of_nat)
  show ?thesis
  proof (cases "4 \<le> length bs")
    case True
    have "(of_nat (length bs) :: u32) - 4 = of_nat (length bs - 4)" using True by simp
    moreover have "unat (of_nat (length bs - 4) :: u32) = length bs - 4"
      using assms(2) by (simp add: unat_of_nat del: of_nat_diff)
    ultimately show ?thesis
      using True assms(1) unfolding al5e_mail_get_status_def e
      by (cases "length bs \<le> 516"; cases status)
         (auto simp: copy_into_def mail_of_sel al5_mail_get_body_def params_ok_def params_bytes_def
          Let_def simp del: of_nat_diff)
  next
    case False
    then have "unat ((of_nat (length bs) :: u32) - 4) = length bs + 2 ^ 32 - 4"
      by (simp add: unat_sub_if_size unat_of_nat word_size)
    with False assms(1) show ?thesis
      unfolding al5e_mail_get_status_def e
      by (simp add: copy_into_def params_ok_def params_bytes_def Let_def)
  qed
qed

section \<open>Properties\<close>

text \<open>C34: the encode message. With both sizes within their 512-byte arrays it is the channel, a
  zero word and exactly the bytes of the two parameter blocks; a larger size, which user space
  chooses and nothing checks, makes the copies read past the arrays.\<close>

theorem al5e_create_encode_spec:
  assumes "km_ok k" "km_nofail k" "params_ok (enc_params m)" "params_ok (enc_addresses m)"
  shows "al5e_create_encode_one_frame_msg chan m k =
    (if params_fit (enc_params m) \<and> params_fit (enc_addresses m)
     then Some (Some (mail_of (uid_code AL_MCU_MSG_ENCODE_ONE_FRM)
       (le32 chan @ le32 0 @ params_data (enc_params m) @ params_data (enc_addresses m))), km_step 1 1 k)
     else None)"
  using al5e_create_encode_eq [OF assms] al5e_create_encode_overrun [OF assms(3,4)] by auto

theorem al5e_create_encode_spec_witness:
  "al5e_create_encode_one_frame_msg 3 \<lparr>enc_params = params0, enc_addresses = params0\<rparr> kmem0 =
     Some (Some (mail_of (uid_code AL_MCU_MSG_ENCODE_ONE_FRM)
       (le32 3 @ le32 0 @ params_data params0 @ params_data params0)), km_step 1 1 kmem0) \<and>
   al5e_create_encode_one_frame_msg 3
     \<lparr>enc_params = params0\<lparr>params_size := 513\<rparr>, enc_addresses = params0\<rparr> kmem0 = None"
proof
  show "al5e_create_encode_one_frame_msg 3 \<lparr>enc_params = params0, enc_addresses = params0\<rparr> kmem0 =
     Some (Some (mail_of (uid_code AL_MCU_MSG_ENCODE_ONE_FRM)
       (le32 3 @ le32 0 @ params_data params0 @ params_data params0)), km_step 1 1 kmem0)"
    by (subst al5e_create_encode_spec) simp_all
  show "al5e_create_encode_one_frame_msg 3
     \<lparr>enc_params = params0\<lparr>params_size := 513\<rparr>, enc_addresses = params0\<rparr> kmem0 = None"
    by (subst al5e_create_encode_spec)
       (simp_all add: params_fit_def params_bytes_def params_ok_def params0_def)
qed

text \<open>The status the firmware sends back. \<open>al5e_mail_get_status\<close> gives user space exactly the
  bytes behind the channel word when there are at most 512 of them; a longer status, or a body
  of less than a word (whose size wraps), writes outside the structure.\<close>

theorem al5e_mail_get_status_spec:
  assumes "params_ok status" "length bs < 2 ^ 16"
  shows "al5e_mail_get_status status (mail_of uid bs) =
    (if 4 \<le> length bs \<and> length bs \<le> 516
     then Some \<lparr>params_size = of_nat (length bs - 4),
       params_opaque = drop 4 bs @ drop (length bs - 4) (params_opaque status)\<rparr> else None)"
  using assms by (rule al5e_mail_get_status_eq)

theorem al5e_mail_get_status_spec_witness:
  "al5e_mail_get_status params0 (mail_of 7 [3, 0, 0, 0, 9, 9]) =
     Some \<lparr>params_size = 2, params_opaque = [9, 9] @ drop 2 (params_opaque params0)\<rparr> \<and>
   al5e_mail_get_status params0 (mail_of 7 []) = None"
proof -
  have "drop (Suc (Suc 0)) (params_opaque params0) = drop 2 (params_opaque params0)"
    by (simp only: numeral_2_eq_2)
  then show ?thesis
    using al5e_mail_get_status_spec [of params0 "[3, 0, 0, 0, 9, 9]" 7]
      al5e_mail_get_status_spec [of params0 "[]" 7]
    by simp
qed

end
