(* ===== verification/Enc_User.thy ===== *)
theory Enc_User
  imports Al_User Enc_Mails
begin

text \<open>
  The operations of an encoder channel (\<open>al5e/enc_user.c\<close>): creation in resumable steps, frames,
  status, stream buffers and reconstructed pictures.
\<close>

section \<open>Structures\<close>

record al5e_channel_status =
  st_options :: u32
  st_num_core :: u8
  st_pps_param :: u32
  st_error_code :: u32

record al5_reconstructed_info =
  rec_fd :: u32
  rec_pic_struct :: u32
  rec_poc :: u32

record al5_buffer =
  stream_buffer_ptr :: u64
  buf_handle :: u32
  buf_offset :: u32
  buf_size :: u32

definition CHECKPOINT_ALLOCATE_BUFFERS :: int where "CHECKPOINT_ALLOCATE_BUFFERS = 1"
definition CHECKPOINT_SEND_INTERMEDIATE_BUFFERS :: int where "CHECKPOINT_SEND_INTERMEDIATE_BUFFERS = 2"
definition CHECKPOINT_SEND_REFERENCE_BUFFERS :: int where "CHECKPOINT_SEND_REFERENCE_BUFFERS = 3"

lemmas checkpoint_defs = CHECKPOINT_ALLOCATE_BUFFERS_def CHECKPOINT_SEND_INTERMEDIATE_BUFFERS_def
  CHECKPOINT_SEND_REFERENCE_BUFFERS_def NO_CHECKPOINT_def

section \<open>Creating a channel\<close>

definition update_chan_param ::
    "al5e_channel_status \<Rightarrow> al5e_feedback_channel \<Rightarrow> al5e_channel_status" where
  "update_chan_param status message =
     \<lparr>st_options = fb_options message, st_num_core = ucast (fb_num_core message),
      st_pps_param = fb_pps_param message, st_error_code = fb_error_code message\<rparr>"

definition check_and_affect_chan_uid :: "u32 \<Rightarrow> al5_user \<Rightarrow> int \<times> al5_user" where
  "check_and_affect_chan_uid chan u =
     (if chan = u32_of_int BAD_CHAN then (- EINVAL, u)
      else (0, u\<lparr>u_chan_uid := int_of_u32 chan\<rparr>))"

text \<open>The words written for the buffers from index \<open>i\<close> on, \<open>n\<close> of them; an entry of the array
  that is NULL is followed.\<close>

fun write_buffers ::
    "nat \<Rightarrow> int \<Rightarrow> al5_dma_buffer option list option \<Rightarrow> al5_mail \<Rightarrow> al5_mail option" where
  "write_buffers 0 i buffers mail = Some mail"
| "write_buffers (Suc n) i buffers mail = do {
     b \<leftarrow> array_get buffers i;
     buffer \<leftarrow> deref b;
     let mcu_vaddr = al5_mcu_get_virtual_address (ucast (dma_handle buffer));
     mail \<leftarrow> al5_mail_write_word mail (ucast (dma_handle buffer));
     mail \<leftarrow> al5_mail_write_word mail mcu_vaddr;
     mail \<leftarrow> al5_mail_write_word mail (dma_size buffer);
     write_buffers n (i + 1) buffers mail
   }"

definition create_mail_from_bufpool ::
    "u32 \<Rightarrow> u32 \<Rightarrow> al5_buffers_pool \<Rightarrow> kmem \<Rightarrow> (al5_mail option \<times> kmem) option" where
  "create_mail_from_bufpool uid chan bufpool k =
     (let size_per_buffer = 3 * 4;
          content_size = u32_of_int (bp_count bufpool) * size_per_buffer;
          (mail, k) = al5_mail_create uid (4 + content_size) k
      in do {
        mail \<leftarrow> deref mail;
        mail \<leftarrow> al5_mail_write_word mail chan;
        mail \<leftarrow> write_buffers (nat (bp_count bufpool)) 0 (bp_buffers bufpool) mail;
        Some (Some mail, k)
      })"

text \<open>The size is rounded up to a page, in 32 bits; a size that is a multiple of the page already
  gets one page more.\<close>

definition rounded_rec_size :: "u32 \<Rightarrow> u32" where
  "rounded_rec_size sz = sz + (of_nat page_size - sz mod of_nat page_size)"

definition allocate_channel_buffers ::
    "al5_channel_buffers \<Rightarrow> al5_user \<Rightarrow> hw \<Rightarrow> (int \<times> al5_user \<times> hw) option" where
  "allocate_channel_buffers buffers u s = do {
     let rec_size = rounded_rec_size (rec_buffers_size buffers);
     (err, pool, k, d) \<leftarrow> al5_bufpool_allocate (u_int_buffers u)
       (int_of_u32 (int_buffers_count buffers)) (int_of_u32 (int_buffers_size buffers))
       (hw_k s) (hw_d s);
     let u = u\<lparr>u_int_buffers := pool\<rparr>;
     if err \<noteq> 0 then Some (err, u, s\<lparr>hw_k := k, hw_d := d\<rparr>)
     else do {
       (err, pool, k, d) \<leftarrow> al5_bufpool_allocate (u_rec_buffers u)
         (int_of_u32 (rec_buffers_count buffers)) (int_of_u32 rec_size) k d;
       Some (if err \<noteq> 0 then err else 0, u\<lparr>u_rec_buffers := pool\<rparr>, s\<lparr>hw_k := k, hw_d := d\<rparr>)
     }
   }"

definition send_intermediate_buffers :: "al5_user \<Rightarrow> hw \<Rightarrow> (int \<times> hw) option" where
  "send_intermediate_buffers u s = make_and_send
     (create_mail_from_bufpool (uid_code AL_MCU_MSG_PUSH_BUFFER_INTERMEDIATE)
        (u32_of_int (u_chan_uid u)) (u_int_buffers u)) s"

definition send_reference_buffers :: "al5_user \<Rightarrow> hw \<Rightarrow> (int \<times> hw) option" where
  "send_reference_buffers u s = make_and_send
     (create_mail_from_bufpool (uid_code AL_MCU_MSG_PUSH_BUFFER_REFERENCE)
        (u32_of_int (u_chan_uid u)) (u_rec_buffers u)) s"

text \<open>The results: error, status, feedback message, user, state below.\<close>

definition try_to_create_channel ::
    "env \<Rightarrow> al5_params \<Rightarrow> al5e_channel_status \<Rightarrow> al5e_feedback_channel \<Rightarrow> al5_user \<Rightarrow> hw
      \<Rightarrow> (int \<times> al5e_channel_status \<times> al5e_feedback_channel \<times> al5_user \<times> hw) option" where
  "try_to_create_channel e param status fb u s = do {
     (err, s) \<leftarrow> make_and_send (al5e_create_channel_param_msg (u32_of_int (u_uid u)) param) s;
     if err \<noteq> 0 then Some (err, status, fb, u, s)
     else let (err, feedback, u, s) = user_pop_timeout e AL5_USER_MAIL_CREATE u s
     in if err \<noteq> 0 then Some (err, status, fb, u, s)
     else do {
       m \<leftarrow> deref feedback;
       fb \<leftarrow> feedback_of_bytes (al5_mail_get_body m);
       let s = s\<lparr>hw_k := al5_free_mail feedback (hw_k s)\<rparr>;
       let status = update_chan_param status fb;
       let (err, u) = check_and_affect_chan_uid (fb_chan_uid fb) u;
       if err \<noteq> 0 then Some (err, status, fb, u, s) else Some (0, status, fb, u, s)
     }
   }"

definition channel_is_fully_created :: "al5_user \<Rightarrow> bool" where
  "channel_is_fully_created u \<longleftrightarrow> al5_chan_is_created u \<and> \<not> al5_have_checkpoint u"

definition feedback0 :: al5e_feedback_channel where
  "feedback0 = \<lparr>fb_chan_uid = 0, fb_user_uid = 0, fb_options = 0, fb_num_core = 0,
     fb_pps_param = 0, fb_buffers_needed = \<lparr>int_buffers_count = 0, int_buffers_size = 0,
       rec_buffers_count = 0, rec_buffers_size = 0, buffers_reserved = 0\<rparr>, fb_error_code = 0\<rparr>"

text \<open>The steps that send the pools' addresses, from the checkpoint the user has.\<close>

definition send_pools :: "al5_user \<Rightarrow> hw \<Rightarrow> (int \<times> al5_user \<times> hw) option" where
  "send_pools u s = do {
     (err, u, s) \<leftarrow>
       (if u_checkpoint u = CHECKPOINT_SEND_INTERMEDIATE_BUFFERS
        then do {
          (err, s) \<leftarrow> send_intermediate_buffers u s;
          if err \<noteq> 0 then Some (err, u, s)
          else Some (0, u\<lparr>u_checkpoint := CHECKPOINT_SEND_REFERENCE_BUFFERS\<rparr>, s)
        }
        else Some (0, u, s));
     if err \<noteq> 0 then Some (err, u, s)
     else if u_checkpoint u = CHECKPOINT_SEND_REFERENCE_BUFFERS
     then do {
       (err, s) \<leftarrow> send_reference_buffers u s;
       if err \<noteq> 0 then Some (err, u, s) else Some (0, u\<lparr>u_checkpoint := NO_CHECKPOINT\<rparr>, s)
     }
     else Some (0, u, s)
   }"

text \<open>The first two steps, each taken or not depending on the checkpoint.\<close>

definition create_step ::
    "env \<Rightarrow> al5_params \<Rightarrow> al5e_channel_status \<Rightarrow> al5_user \<Rightarrow> hw
      \<Rightarrow> (int \<times> al5e_channel_status \<times> al5e_feedback_channel \<times> al5_user \<times> hw) option" where
  "create_step e param status u s =
     (if \<not> al5_have_checkpoint u
      then do {
        (err, status, fb, u, s) \<leftarrow> try_to_create_channel e param status feedback0 u s;
        if err \<noteq> 0 then Some (err, status, fb, u, s)
        else Some (0, status, fb, u\<lparr>u_checkpoint := CHECKPOINT_ALLOCATE_BUFFERS\<rparr>, s)
      }
      else Some (0, status, feedback0, u, s))"

definition allocate_step ::
    "al5e_feedback_channel \<Rightarrow> al5_user \<Rightarrow> hw \<Rightarrow> (int \<times> al5_user \<times> hw) option" where
  "allocate_step fb u s =
     (if u_checkpoint u = CHECKPOINT_ALLOCATE_BUFFERS
      then do {
        (err, u, s) \<leftarrow> allocate_channel_buffers (fb_buffers_needed fb) u s;
        if err \<noteq> 0 then Some (err, u, s)
        else Some (0, u\<lparr>u_checkpoint := CHECKPOINT_SEND_INTERMEDIATE_BUFFERS\<rparr>, s)
      }
      else Some (0, u, s))"

definition al5e_user_create_channel ::
    "env \<Rightarrow> al5_params \<Rightarrow> al5e_channel_status \<Rightarrow> al5_user \<Rightarrow> hw
      \<Rightarrow> (int \<times> al5e_channel_status \<times> al5_user \<times> hw) option" where
  "al5e_user_create_channel e param status u s = do {
     (err, u, s) \<leftarrow> mutex_lock_killable e AL5_USER_CREATE u s;
     if err = - EINTR then Some (err, status, u, s)
     else if channel_is_fully_created u
     then Some (- EPERM, status, mutex_unlock AL5_USER_CREATE u, s)
     else do {
       (err, status, fb, u, s) \<leftarrow> create_step e param status u s;
       if err \<noteq> 0 then Some (err, status, mutex_unlock AL5_USER_CREATE u, s)
       else do {
         (err, u, s) \<leftarrow> allocate_step fb u s;
         if err \<noteq> 0
         then do {
           let u = mutex_unlock AL5_USER_CREATE (u\<lparr>u_checkpoint := NO_CHECKPOINT\<rparr>);
           (_, u, s) \<leftarrow> al5_user_destroy_channel e False u s;
           Some (err, status, u, s)
         }
         else do {
           (err, u, s) \<leftarrow> send_pools u s;
           Some (err, status, mutex_unlock AL5_USER_CREATE u, s)
         }
       }
     }
   }"

section \<open>Frames, status and buffers\<close>

definition al5e_user_encode_one_frame ::
    "env \<Rightarrow> al5_encode_msg \<Rightarrow> al5_user \<Rightarrow> hw \<Rightarrow> (int \<times> al5_user \<times> hw) option" where
  "al5e_user_encode_one_frame e msg u s = do {
     (err, u, s) \<leftarrow> mutex_lock_killable e AL5_USER_XCODE u s;
     if err = - EINTR then Some (err, u, s)
     else if \<not> al5_chan_is_created u then Some (- EPERM, mutex_unlock AL5_USER_XCODE u, s)
     else do {
       (err, s) \<leftarrow> make_and_send
         (al5e_create_encode_one_frame_msg (u32_of_int (u_chan_uid u)) msg) s;
       Some (err, mutex_unlock AL5_USER_XCODE u, s)
     }
   }"

definition al5e_user_wait_for_status ::
    "env \<Rightarrow> al5_params \<Rightarrow> al5_user \<Rightarrow> hw \<Rightarrow> (int \<times> al5_params \<times> al5_user \<times> hw) option" where
  "al5e_user_wait_for_status e msg u s =
     (case mutex_trylock AL5_USER_STATUS u of
        None \<Rightarrow> Some (- EINTR, msg, u, s)
      | Some u \<Rightarrow>
          if \<not> al5_chan_is_created u then Some (- EPERM, msg, mutex_unlock AL5_USER_STATUS u, s)
          else let (feedback, u, s) = user_pop e AL5_USER_MAIL_STATUS u s
          in do {
            (err, msg) \<leftarrow> (case feedback of
                None \<Rightarrow> Some (- EINTR, msg)
              | Some m \<Rightarrow> do { msg \<leftarrow> al5e_mail_get_status msg m; Some (0, msg) });
            Some (err, msg, mutex_unlock AL5_USER_STATUS u,
                  s\<lparr>hw_k := al5_free_mail feedback (hw_k s)\<rparr>)
          })"

text \<open>The eight bytes of a 64-bit pointer, little-endian.\<close>

definition le64 :: "u64 \<Rightarrow> u8 list" where
  "le64 w = le32 (ucast w) @ le32 (ucast (drop_bit 32 w))"

definition create_stream_buffer_msg ::
    "u32 \<Rightarrow> u32 \<Rightarrow> al5_buffer \<Rightarrow> kmem \<Rightarrow> (al5_mail option \<times> kmem) option" where
  "create_stream_buffer_msg chan addr buffer k =
     (let (mail, k) = al5_mail_create (uid_code AL_MCU_MSG_PUT_STREAM_BUFFER) 28 k
      in do {
        mail \<leftarrow> deref mail;
        mail \<leftarrow> al5_mail_write_word mail chan;
        mail \<leftarrow> al5_mail_write_word mail addr;
        mail \<leftarrow> al5_mail_write_word mail (al5_mcu_get_virtual_address addr);
        mail \<leftarrow> al5_mail_write_word mail (buf_size buffer);
        mail \<leftarrow> al5_mail_write_word mail (buf_offset buffer);
        mail \<leftarrow> al5_mail_write mail (le64 (stream_buffer_ptr buffer)) 8;
        Some (Some mail, k)
      })"

definition al5e_user_put_stream_buffer ::
    "al5_buffer \<Rightarrow> al5_user \<Rightarrow> hw \<Rightarrow> (int \<times> hw) option" where
  "al5e_user_put_stream_buffer buffer u s =
     (if \<not> al5_chan_is_created u then Some (- EPERM, s)
      else let (error, info, d) = al5_get_dmabuf_info (buf_handle buffer) (hw_d s);
               s = s\<lparr>hw_d := d\<rparr>
      in if error \<noteq> 0 then Some (error, s)
      else do {
        info \<leftarrow> deref info;
        if buf_size buffer > info_size info then Some (- EFAULT, s)
        else make_and_send
          (create_stream_buffer_msg (u32_of_int (u_chan_uid u)) (bus_address info) buffer) s
      })"

definition get_user_rec_buffer :: "int \<Rightarrow> al5_user \<Rightarrow> dsys \<Rightarrow> (int \<times> dsys) option" where
  "get_user_rec_buffer idx u d =
     (if idx > bp_count (u_rec_buffers u) \<or> idx < 0 then Some (- 1, d)
      else al5_bufpool_reserve_fd (u_rec_buffers u) idx d)"

definition al5e_user_get_rec ::
    "env \<Rightarrow> al5_reconstructed_info \<Rightarrow> al5_user \<Rightarrow> hw
      \<Rightarrow> (int \<times> al5_reconstructed_info \<times> al5_user \<times> hw) option" where
  "al5e_user_get_rec e msg u s =
     (case mutex_trylock AL5_USER_REC u of
        None \<Rightarrow> Some (- EINTR, msg, u, s)
      | Some u \<Rightarrow>
          if \<not> al5_chan_is_created u then Some (- EPERM, msg, mutex_unlock AL5_USER_REC u, s)
          else do {
            (err, s) \<leftarrow> make_and_send (al5_create_empty_mail (u32_of_int (u_chan_uid u))
              (uid_code AL_MCU_MSG_GET_RECONSTRUCTED_PICTURE)) s;
            if err \<noteq> 0 then Some (err, msg, mutex_unlock AL5_USER_REC u, s)
            else let (feedback, u, s) = user_pop e AL5_USER_MAIL_REC u s
            in case feedback of
              None \<Rightarrow> Some (- EINTR, msg, mutex_unlock AL5_USER_REC u, s)
            | Some m \<Rightarrow> do {
                idx \<leftarrow> al5_mail_get_word m 1;
                (fd, d) \<leftarrow> get_user_rec_buffer (int_of_u32 idx) u (hw_d s);
                let s = s\<lparr>hw_d := d\<rparr>;
                let msg = msg\<lparr>rec_fd := u32_of_int fd\<rparr>;
                (err, msg) \<leftarrow>
                  (if rec_fd msg = - 1 then Some (- EINVAL, msg)
                   else do {
                     pic \<leftarrow> al5_mail_get_word m 2;
                     poc \<leftarrow> al5_mail_get_word m 3;
                     Some (err, msg\<lparr>rec_pic_struct := pic, rec_poc := poc\<rparr>)
                   });
                Some (err, msg, mutex_unlock AL5_USER_REC u,
                      s\<lparr>hw_k := al5_free_mail feedback (hw_k s)\<rparr>)
              }
          })"

definition al5e_user_release_rec :: "u32 \<Rightarrow> al5_user \<Rightarrow> hw \<Rightarrow> (int \<times> al5_user \<times> hw) option" where
  "al5e_user_release_rec fd u s =
     (case mutex_trylock AL5_USER_REC u of
        None \<Rightarrow> Some (- EINTR, u, s)
      | Some u \<Rightarrow>
          if \<not> al5_chan_is_created u then Some (- EPERM, mutex_unlock AL5_USER_REC u, s)
          else do {
            (idx, d) \<leftarrow> al5_bufpool_get_id (u_rec_buffers u) (int_of_u32 fd) (hw_d s);
            let s = s\<lparr>hw_d := d\<rparr>;
            if idx < 0 then Some (- EINVAL, mutex_unlock AL5_USER_REC u, s)
            else do {
              (err, s) \<leftarrow> make_and_send (al5_create_classic_mail (u32_of_int (u_chan_uid u))
                (uid_code AL_MCU_MSG_RELEASE_RECONSTRUCTED_PICTURE)
                (le32 (u32_of_int idx)) 4) s;
              Some (err, mutex_unlock AL5_USER_REC u, s)
            }
          })"

section \<open>The message with a pool's addresses\<close>

text \<open>What the firmware is told of a buffer: its bus address, the address through the firmware's
  cache window, its size.\<close>

definition buffer_words :: "al5_dma_buffer \<Rightarrow> u8 list" where
  "buffer_words b = le32 (ucast (dma_handle b)) @
     le32 (al5_mcu_get_virtual_address (ucast (dma_handle b))) @ le32 (dma_size b)"

definition pool_small :: "al5_buffers_pool \<Rightarrow> bool" where
  "pool_small p \<longleftrightarrow> bp_count p < 2 ^ 16"

lemma length_buffer_words [simp]: "length (buffer_words b) = 12"
  by (simp add: buffer_words_def)

lemma length_concat_words: "length (concat (map buffer_words bs)) = 12 * length bs"
  by (induction bs) simp_all

lemma write_buffers_eq:
  assumes "n + i = length bs" "length rest = 12 * n" "length pre + length rest < 2 ^ 32"
  shows "write_buffers n (int i) (Some (map Some bs)) (partial_mail uid pre rest) =
    Some (mail_of uid (pre @ concat (map buffer_words (drop i bs))))"
  using assms
proof (induction n arbitrary: i pre rest)
  case 0
  then show ?case by (simp add: partial_mail_complete)
next
  case (Suc n)
  let ?b = "bs ! i" and ?rest = "drop 12 rest"
  have d: "drop i bs = ?b # drop (Suc i) bs" using Suc.prems(1) by (simp add: Cons_nth_drop_Suc)
  have g: "array_get (Some (map Some bs)) (int i) = Some (Some ?b)"
    using Suc.prems(1) array_get_nth [of i "map Some bs"] by simp
  have "write_buffers (Suc n) (int i) (Some (map Some bs)) (partial_mail uid pre rest) =
      write_buffers n (int (Suc i)) (Some (map Some bs)) (partial_mail uid (pre @ buffer_words ?b) ?rest)"
    using Suc.prems(2,3) g
    by (simp add: al5_mail_write_word_partial buffer_words_def Let_def add.commute)
  also have "\<dots> = Some (mail_of uid ((pre @ buffer_words ?b) @ concat (map buffer_words (drop (Suc i) bs))))"
    using Suc.prems by (intro Suc.IH) simp_all
  finally show ?case by (simp add: d)
qed

lemma create_mail_from_bufpool_eq:
  assumes "km_ok k" "km_nofail k" "pool_ok p" "pool_small p"
  shows "create_mail_from_bufpool uid chan p k =
    Some (Some (mail_of uid (le32 chan @ concat (map buffer_words (pool_buffers p)))), km_step 1 1 k)"
proof -
  obtain n where n: "bp_count p = int n" using assms(3) by (auto simp: pool_ok_def intro: that [of "nat _"])
  with assms(4) have small: "n < 2 ^ 16" by (simp add: pool_small_def)
  have "unat (u32_of_int (int n) * 12) = 12 * n"
  proof -
    have "unat (of_nat n :: u32) = n" using small by (simp add: unat_of_nat)
    with small show ?thesis by (simp add: unat_word_ariths)
  qed
  with small have sz: "unat (4 + u32_of_int (bp_count p) * 12) = 4 + 12 * n"
    unfolding n by (subst unat_add_small) simp_all
  obtain rest where r: "al5_mail_create uid (4 + u32_of_int (bp_count p) * 12) k =
      (Some (partial_mail uid [] rest), km_step 1 1 k)" "length rest = 4 + 12 * n"
    using assms(1,2) sz by (metis al5_mail_create_Some)
  have w: "al5_mail_write_word (partial_mail uid [] rest) chan =
      Some (partial_mail uid (le32 chan) (drop 4 rest))"
    using r(2) small by (simp add: al5_mail_write_word_partial)
  from assms(3) show ?thesis
  proof (cases rule: pool_ok_cases)
    case empty
    with n have "n = 0" by (simp add: al5_bufpool_init_def)
    with r w empty show ?thesis
      by (simp add: create_mail_from_bufpool_def al5_bufpool_init_def pool_buffers_def
          partial_mail_complete)
  next
    case (full bs hs)
    with n have "length bs = n" by simp
    with write_buffers_eq [of n 0 bs "drop 4 rest" "le32 chan" uid] r small
    have "write_buffers n 0 (Some (map Some bs)) (partial_mail uid (le32 chan) (drop 4 rest)) =
        Some (mail_of uid (le32 chan @ concat (map buffer_words bs)))" by simp
    with r w full n show ?thesis
      by (simp add: create_mail_from_bufpool_def pool_buffers_def comp_def)
  qed
qed

section \<open>Allocating the pools\<close>

lemma int_of_u32_cint: "is_cint (int_of_u32 w)"
  using sint_range_size [of w] by (simp add: is_cint_def word_size)

lemma int_of_u32_small: "unat w < 2 ^ 16 \<Longrightarrow> int_of_u32 w = int (unat w)"
  using sint_ucast_small [of w] by simp

definition buffers_small :: "al5_channel_buffers \<Rightarrow> bool" where
  "buffers_small b \<longleftrightarrow> unat (int_buffers_count b) < 2 ^ 16 \<and> unat (rec_buffers_count b) < 2 ^ 16"

lemma sys_ok_dma:
  "sys_ok s \<Longrightarrow> km_oracle k = km_oracle (hw_k s) \<Longrightarrow> sys_ok (s\<lparr>hw_k := k, hw_d := d\<rparr>)"
  by (auto simp: sys_ok_def hw_ok_def km_ok_def km_nofail_def)

lemma bufpool_allocate_nofail:
  assumes "km_nofail k" "unat count < 2 ^ 16"
  shows "\<exists>err p k' d'. al5_bufpool_allocate pool (int_of_u32 count) sz k d = Some (err, p, k', d') \<and>
    km_oracle k' = km_oracle k \<and> pool_ok p \<and> pool_small p \<and>
    (err = 0 \<and> bp_count p = int (unat count) \<or> err = - ENOMEM \<and> p = al5_bufpool_init)"
proof -
  from al5_bufpool_allocate_cases [OF int_of_u32_cint, of pool count sz k d] obtain err p k' d' where
    a: "al5_bufpool_allocate pool (int_of_u32 count) sz k d = Some (err, p, k', d')"
    "km_oracle k' = km_oracle k"
    "err = 0 \<Longrightarrow> pool_ok p \<and> bp_count p = int_of_u32 count"
    "err \<noteq> 0 \<Longrightarrow> err = - ENOMEM \<and> (km_nofail k \<and> 0 \<le> int_of_u32 count \<longrightarrow> p = al5_bufpool_init)"
    by (metis (no_types, lifting))
  have c: "int_of_u32 count = int (unat count)" using assms(2) by (rule int_of_u32_small)
  show ?thesis
  proof (cases "err = 0")
    case True
    from assms(2) have "int (unat count) < int (2 ^ 16)" by (simp only: of_nat_less_iff)
    then have "uint count < 2 ^ 16" by simp
    with True a(1-3) c show ?thesis by (auto simp: pool_small_def)
  next
    case False
    have "pool_small al5_bufpool_init" by (simp add: pool_small_def al5_bufpool_init_def)
    with False a(1,2,4) c assms(1) show ?thesis by auto
  qed
qed

text \<open>The pools after an allocation, successful or not, are in order.\<close>

definition pools_small :: "al5_user \<Rightarrow> bool" where
  "pools_small u \<longleftrightarrow> pools_ok u \<and> pool_small (u_int_buffers u) \<and> pool_small (u_rec_buffers u)"

lemma allocate_channel_buffers_ok:
  assumes "sys_ok s" "pools_small u" "buffers_small b"
  shows "\<exists>err ip rp k d. allocate_channel_buffers b u s =
      Some (err, u\<lparr>u_int_buffers := ip, u_rec_buffers := rp\<rparr>, s\<lparr>hw_k := k, hw_d := d\<rparr>) \<and>
    sys_ok (s\<lparr>hw_k := k, hw_d := d\<rparr>) \<and> pools_small (u\<lparr>u_int_buffers := ip, u_rec_buffers := rp\<rparr>) \<and>
    (err = 0 \<and> bp_count ip = int (unat (int_buffers_count b)) \<and>
       bp_count rp = int (unat (rec_buffers_count b)) \<or> err = - ENOMEM)"
proof -
  from assms have k: "km_nofail (hw_k s)" and c: "unat (int_buffers_count b) < 2 ^ 16"
    "unat (rec_buffers_count b) < 2 ^ 16"
    by (simp_all add: sys_ok_def buffers_small_def)
  from bufpool_allocate_nofail [OF k c(1), of "u_int_buffers u" "int_of_u32 (int_buffers_size b)" "hw_d s"]
  obtain err1 ip k1 d1 where 1: "al5_bufpool_allocate (u_int_buffers u)
      (int_of_u32 (int_buffers_count b)) (int_of_u32 (int_buffers_size b)) (hw_k s) (hw_d s) =
        Some (err1, ip, k1, d1)" "km_oracle k1 = km_oracle (hw_k s)" "pool_ok ip" "pool_small ip"
      "err1 = 0 \<and> bp_count ip = int (unat (int_buffers_count b)) \<or> err1 = - ENOMEM" by auto
  show ?thesis
  proof (cases "err1 = 0")
    case False
    with 1 sys_ok_dma [OF assms(1) 1(2)] assms(2) show ?thesis
      by (intro exI [of _ err1] exI [of _ ip] exI [of _ "u_rec_buffers u"] exI [of _ k1] exI [of _ d1])
         (auto simp: allocate_channel_buffers_def pools_small_def pools_ok_def Let_def)
  next
    case True
    have "km_nofail k1" using k 1(2) by (simp add: km_nofail_def)
    from bufpool_allocate_nofail [OF this c(2), of "u_rec_buffers u"
        "int_of_u32 (rounded_rec_size (rec_buffers_size b))" d1]
    obtain err2 rp k2 d2 where 2: "al5_bufpool_allocate (u_rec_buffers u)
        (int_of_u32 (rec_buffers_count b)) (int_of_u32 (rounded_rec_size (rec_buffers_size b))) k1 d1 =
          Some (err2, rp, k2, d2)" "km_oracle k2 = km_oracle k1" "pool_ok rp" "pool_small rp"
        "err2 = 0 \<and> bp_count rp = int (unat (rec_buffers_count b)) \<or> err2 = - ENOMEM" by auto
    have "km_oracle k2 = km_oracle (hw_k s)" using 1(2) 2(2) by simp
    from sys_ok_dma [OF assms(1) this] True 1 2 show ?thesis
      by (intro exI [of _ err2] exI [of _ ip] exI [of _ rp] exI [of _ k2] exI [of _ d2])
         (auto simp: allocate_channel_buffers_def pools_small_def pools_ok_def Let_def)
  qed
qed

section \<open>Sending the pools\<close>

lemma mail_msg_ok:
  assumes "sys_ok s" "pool_ok p" "pool_small p"
  shows "create_mail_from_bufpool uid chan p (hw_k s) =
    Some (Some (mail_of uid (le32 chan @ concat (map buffer_words (pool_buffers p)))), km_step 1 1 (hw_k s))"
  using create_mail_from_bufpool_eq assms sys_ok_kmem by blast

text \<open>The two messages for the state of a user.\<close>

definition int_pool_mail :: "al5_user \<Rightarrow> al5_mail" where
  "int_pool_mail u = mail_of (uid_code AL_MCU_MSG_PUSH_BUFFER_INTERMEDIATE)
     (le32 (u32_of_int (u_chan_uid u)) @ concat (map buffer_words (pool_buffers (u_int_buffers u))))"

definition rec_pool_mail :: "al5_user \<Rightarrow> al5_mail" where
  "rec_pool_mail u = mail_of (uid_code AL_MCU_MSG_PUSH_BUFFER_REFERENCE)
     (le32 (u32_of_int (u_chan_uid u)) @ concat (map buffer_words (pool_buffers (u_rec_buffers u))))"

lemma send_pool_cases:
  assumes "sys_ok s" "pool_ok p" "pool_small p"
    and m: "m = mail_of uid (le32 chan @ concat (map buffer_words (pool_buffers p)))"
  obtains (sent) s' where "make_and_send (create_mail_from_bufpool uid chan p) s = Some (0, s')"
      "sys_ok s'" "outbox s' = outbox s @ [wire_of m]" "hw_d s' = hw_d s"
      "unat (body_size m) + 8 \<le> outroom s"
  | (refused) "make_and_send (create_mail_from_bufpool uid chan p) s =
      Some (- EAGAIN, s\<lparr>hw_k := km_step 1 0 (hw_k s)\<rparr>)" "outroom s < unat (body_size m) + 8"
proof (rule make_and_send_cases [where s = s and m = m and mk = "create_mail_from_bufpool uid chan p"])
  show "sys_ok s" by (rule assms(1))
  show "create_mail_from_bufpool uid chan p (hw_k s) = Some (Some m, km_step 1 1 (hw_k s))"
    unfolding m using assms(1-3) by (rule mail_msg_ok)
  show "mail_wf m" by (simp add: m)
next
  fix s'
  assume "make_and_send (create_mail_from_bufpool uid chan p) s = Some (0, s')" "hw_frame s s'"
    "outbox s' = outbox s @ [wire_of m]" "hw_d s' = hw_d s" "unat (body_size m) + 8 \<le> outroom s"
  then show thesis using sys_ok_frame assms(1) by (intro sent [of s']) auto
next
  assume "make_and_send (create_mail_from_bufpool uid chan p) s =
      Some (- EAGAIN, s\<lparr>hw_k := km_step 1 0 (hw_k s)\<rparr>)" "outroom s < unat (body_size m) + 8"
  then show thesis by (rule refused)
qed

text \<open>From a checkpoint, either everything left is sent and the channel complete, or the mailbox
  is full and the checkpoint says what is left.\<close>

lemma send_pools_ok:
  assumes "sys_ok s" "pools_small u" "u_checkpoint u \<in> {CHECKPOINT_SEND_INTERMEDIATE_BUFFERS,
      CHECKPOINT_SEND_REFERENCE_BUFFERS}"
  shows "\<exists>err c s'. send_pools u s = Some (err, u\<lparr>u_checkpoint := c\<rparr>, s') \<and> sys_ok s' \<and>
    (err = 0 \<and> c = NO_CHECKPOINT \<and>
       outbox s' = outbox s @ (if u_checkpoint u = CHECKPOINT_SEND_INTERMEDIATE_BUFFERS
         then [wire_of (int_pool_mail u)] else []) @ [wire_of (rec_pool_mail u)] \<or>
     err = - EAGAIN \<and> c = u_checkpoint u \<and> outbox s' = outbox s \<or>
     err = - EAGAIN \<and> c = CHECKPOINT_SEND_REFERENCE_BUFFERS \<and>
       u_checkpoint u = CHECKPOINT_SEND_INTERMEDIATE_BUFFERS \<and>
       outbox s' = outbox s @ [wire_of (int_pool_mail u)])"
proof -
  have p: "pool_ok (u_int_buffers u)" "pool_small (u_int_buffers u)" "pool_ok (u_rec_buffers u)"
    "pool_small (u_rec_buffers u)"
    using assms(2) by (simp_all add: pools_small_def pools_ok_def)
  have rec: "\<exists>err c s'. send_pools v t = Some (err, v\<lparr>u_checkpoint := c\<rparr>, s') \<and> sys_ok s' \<and>
      (err = 0 \<and> c = NO_CHECKPOINT \<and> outbox s' = outbox t @ [wire_of (rec_pool_mail u)] \<or>
       err = - EAGAIN \<and> c = CHECKPOINT_SEND_REFERENCE_BUFFERS \<and> outbox s' = outbox t)"
    if "sys_ok t" and v: "v = u\<lparr>u_checkpoint := CHECKPOINT_SEND_REFERENCE_BUFFERS\<rparr>" for t v
    by (rule send_pool_cases [where p = "u_rec_buffers u" and s = t and m = "rec_pool_mail u"
          and uid = "uid_code AL_MCU_MSG_PUSH_BUFFER_REFERENCE"
          and chan = "u32_of_int (u_chan_uid u)", OF that(1) p(3,4)])
       (use that in \<open>simp_all add: send_pools_def send_reference_buffers_def rec_pool_mail_def v
          checkpoint_defs\<close>)
  show ?thesis
  proof (cases "u_checkpoint u = CHECKPOINT_SEND_REFERENCE_BUFFERS")
    case True
    then have "u = u\<lparr>u_checkpoint := CHECKPOINT_SEND_REFERENCE_BUFFERS\<rparr>" by (cases u) simp
    from rec [OF assms(1) this] True show ?thesis by (auto simp: checkpoint_defs)
  next
    case False
    with assms(3) have c: "u_checkpoint u = CHECKPOINT_SEND_INTERMEDIATE_BUFFERS" by simp
    show ?thesis
    proof (rule send_pool_cases [where p = "u_int_buffers u" and s = s and m = "int_pool_mail u"
          and uid = "uid_code AL_MCU_MSG_PUSH_BUFFER_INTERMEDIATE"
          and chan = "u32_of_int (u_chan_uid u)", OF assms(1) p(1,2)])
      show "int_pool_mail u = mail_of (uid_code AL_MCU_MSG_PUSH_BUFFER_INTERMEDIATE)
         (le32 (u32_of_int (u_chan_uid u)) @ concat (map buffer_words (pool_buffers (u_int_buffers u))))"
        by (simp add: int_pool_mail_def)
    next
      fix s'
      assume m: "make_and_send (create_mail_from_bufpool (uid_code AL_MCU_MSG_PUSH_BUFFER_INTERMEDIATE)
          (u32_of_int (u_chan_uid u)) (u_int_buffers u)) s = Some (0, s')" "sys_ok s'"
        "outbox s' = outbox s @ [wire_of (int_pool_mail u)]"
      let ?v = "u\<lparr>u_checkpoint := CHECKPOINT_SEND_REFERENCE_BUFFERS\<rparr>"
      have "send_pools u s = send_pools ?v s'"
        using m(1) c by (simp add: send_pools_def send_intermediate_buffers_def checkpoint_defs)
      with rec [OF m(2) refl] m(3) c show ?thesis by (auto simp: checkpoint_defs)
    next
      assume "make_and_send (create_mail_from_bufpool (uid_code AL_MCU_MSG_PUSH_BUFFER_INTERMEDIATE)
          (u32_of_int (u_chan_uid u)) (u_int_buffers u)) s =
            Some (- EAGAIN, s\<lparr>hw_k := km_step 1 0 (hw_k s)\<rparr>)"
      moreover have "u = u\<lparr>u_checkpoint := CHECKPOINT_SEND_INTERMEDIATE_BUFFERS\<rparr>"
        using c by (cases u) simp
      ultimately show ?thesis
        using c assms(1)
        by (intro exI [of _ "- EAGAIN"] exI [of _ "u_checkpoint u"]
            exI [of _ "s\<lparr>hw_k := km_step 1 0 (hw_k s)\<rparr>"])
           (simp add: send_pools_def send_intermediate_buffers_def)
    qed
  qed
qed

section \<open>The outcomes of a creation\<close>

text \<open>What the firmware and the other threads owe a creation: the wait for the answer ends as
  documented, and an answer holds the feedback structure, with numbers of buffers below
  \<open>2^16\<close>.\<close>

definition feedback_ok :: "al5_mail \<Rightarrow> bool" where
  "feedback_ok m \<longleftrightarrow>
     (\<exists>fb. feedback_of_bytes (body m) = Some fb \<and> buffers_small (fb_buffers_needed fb))"

definition create_answers :: "(al5_mail \<Rightarrow> bool) \<Rightarrow> env \<Rightarrow> bool" where
  "create_answers ok e \<longleftrightarrow> (\<forall>st r st'. e_wait e AL5_USER_MAIL_CREATE st = (r, st') \<longrightarrow>
     wait_timeout_result r (u_queues (fst st') AL5_USER_MAIL_CREATE) \<and>
     (\<forall>m \<in> set (q_list (u_queues (fst st') AL5_USER_MAIL_CREATE)). ok m))"

definition answers_ok :: "env \<Rightarrow> bool" where
  "answers_ok = create_answers feedback_ok"

text \<open>A user whose channel is absent, complete, or in the middle of the creation.\<close>

definition enc_inv :: "al5_user \<Rightarrow> bool" where
  "enc_inv u \<longleftrightarrow> pools_small u \<and>
     (al5_have_checkpoint u \<longrightarrow> al5_chan_is_created u \<and>
        u_checkpoint u \<in> {CHECKPOINT_SEND_INTERMEDIATE_BUFFERS, CHECKPOINT_SEND_REFERENCE_BUFFERS})"

lemma pop_create_answer:
  assumes "env_ok e" "create_answers ok e"
  shows "\<exists>err m u' s'. user_pop_timeout e AL5_USER_MAIL_CREATE u s = (err, m, u', s') \<and>
    env_keeps (u, s) (u', s') \<and>
    (err = 0 \<and> (\<exists>x. m = Some x \<and> ok x) \<or> err \<in> {- EINTR, - EINVAL} \<and> m = None)"
proof -
  obtain r u1 s1 where w: "e_wait e AL5_USER_MAIL_CREATE (u, s) = (r, u1, s1)"
    by (cases "e_wait e AL5_USER_MAIL_CREATE (u, s)") auto
  from assms(1) have "env_keeps (u, s) (snd (e_wait e AL5_USER_MAIL_CREATE (u, s)))"
    by (simp add: env_ok_def split_def)
  with w have k: "env_keeps (u, s) (u1, s1)" by simp
  let ?q = "u_queues u1 AL5_USER_MAIL_CREATE"
  from assms(2) w have wr: "wait_timeout_result r ?q" and fb: "\<forall>m \<in> set (q_list ?q). ok m"
    unfolding create_answers_def by fastforce+
  show ?thesis
  proof (cases "q_list ?q")
    case Nil
    with w k wr al5_queue_pop_timeout_none [OF Nil wr, of "hw_k s1"] show ?thesis
      by (auto simp: user_pop_timeout_def env_keeps_def set_queue_def)
  next
    case (Cons m ms)
    with w k fb al5_queue_pop_timeout_mail [OF Cons, of r "hw_k s1"] show ?thesis
      by (auto simp: user_pop_timeout_def env_keeps_def set_queue_def)
  qed
qed

lemmas user_pop_timeout_ok = pop_create_answer [where ok = feedback_ok, folded answers_ok_def]

text \<open>Same but for the channel and the queues.\<close>

definition same_rest :: "al5_user \<Rightarrow> al5_user \<Rightarrow> bool" where
  "same_rest u u' \<longleftrightarrow> u_uid u' = u_uid u \<and> u_checkpoint u' = u_checkpoint u \<and>
     u_int_buffers u' = u_int_buffers u \<and> u_rec_buffers u' = u_rec_buffers u"

lemma int_of_u32_BAD_CHAN: "chan \<noteq> u32_of_int BAD_CHAN \<Longrightarrow> int_of_u32 chan \<noteq> BAD_CHAN"
  by (metis u32_of_int_of_u32)

lemma try_to_create_channel_ok:
  assumes "env_ok e" "answers_ok e" "sys_ok s" "params_ok p" "params_fit p"
  shows "\<exists>err st fb u' s'. try_to_create_channel e p status feedback0 u s =
      Some (err, st, fb, u', s') \<and> sys_ok s' \<and> same_rest u u' \<and>
    (if err = 0 then al5_chan_is_created u' \<and> buffers_small (fb_buffers_needed fb)
     else u_chan_uid u' = u_chan_uid u \<and> err \<in> {- EAGAIN, - EINTR, - EINVAL})"
proof -
  let ?m = "mail_of (uid_code AL_MCU_MSG_CREATE_CHANNEL) (le32 (u32_of_int (u_uid u)) @ params_data p)"
  obtain err s1 where m: "make_and_send (al5e_create_channel_param_msg (u32_of_int (u_uid u)) p) s =
      Some (err, s1)" "sys_ok s1" "err \<in> {0, - EAGAIN}"
    using make_and_send_ok [where mk = "al5e_create_channel_param_msg (u32_of_int (u_uid u)) p" and m = ?m]
      al5e_create_channel_param_msg_eq [OF _ _ assms(4,5)] assms(3) by (metis destroy_mail_wf)
  show ?thesis
  proof (cases "err = 0")
    case False
    with m show ?thesis by (auto simp: try_to_create_channel_def same_rest_def)
  next
    case True
    from user_pop_timeout_ok [OF assms(1,2), of u s1] obtain err2 fm u2 s2 where
      p: "user_pop_timeout e AL5_USER_MAIL_CREATE u s1 = (err2, fm, u2, s2)"
      "env_keeps (u, s1) (u2, s2)"
      "err2 = 0 \<and> (\<exists>x. fm = Some x \<and> feedback_ok x) \<or> err2 \<in> {- EINTR, - EINVAL} \<and> fm = None"
      by blast
    from p(2) m(2) have s2: "sys_ok s2" and rest: "same_rest u u2" "u_chan_uid u2 = u_chan_uid u"
      by (simp_all add: env_keeps_def same_rest_def)
    show ?thesis
    proof (cases "err2 = 0")
      case False
      with True m p s2 rest show ?thesis by (auto simp: try_to_create_channel_def)
    next
      case e2: True
      with p(3) obtain x fb where x: "fm = Some x" "feedback_of_bytes (body x) = Some fb"
        "buffers_small (fb_buffers_needed fb)" by (auto simp: feedback_ok_def)
      have s3: "sys_ok (s2\<lparr>hw_k := al5_free_mail fm (hw_k s2)\<rparr>)"
        using s2 x(1) by (simp add: al5_free_mail_def kfree_step)
      show ?thesis
      proof (cases "fb_chan_uid fb = u32_of_int BAD_CHAN")
        case bad: True
        with True e2 m p x s3 rest show ?thesis
          by (auto simp: try_to_create_channel_def al5_mail_get_body_def
              check_and_affect_chan_uid_def Let_def)
      next
        case good: False
        with int_of_u32_BAD_CHAN True e2 m p x s3 rest show ?thesis
          by (auto simp: try_to_create_channel_def al5_mail_get_body_def same_rest_def
              check_and_affect_chan_uid_def Let_def al5_chan_is_created_def)
      qed
    qed
  qed
qed

lemma create_step_ok:
  assumes "env_ok e" "answers_ok e" "sys_ok s" "params_ok p" "params_fit p" "enc_inv u"
    and "\<not> channel_is_fully_created u"
  shows "\<exists>err st fb u' s'. create_step e p status u s = Some (err, st, fb, u', s') \<and> sys_ok s' \<and>
    pools_small u' \<and>
    (if err = 0 then al5_chan_is_created u' \<and> (u_checkpoint u' = CHECKPOINT_ALLOCATE_BUFFERS \<and>
         buffers_small (fb_buffers_needed fb) \<or>
       u_checkpoint u' \<in> {CHECKPOINT_SEND_INTERMEDIATE_BUFFERS, CHECKPOINT_SEND_REFERENCE_BUFFERS} \<and>
         u' = u)
     else err \<in> {- EAGAIN, - EINTR, - EINVAL} \<and> \<not> al5_chan_is_created u' \<and> enc_inv u')"
proof (cases "al5_have_checkpoint u")
  case True
  with assms(3,6) show ?thesis by (auto simp: create_step_def enc_inv_def)
next
  case False
  then have nc: "\<not> al5_chan_is_created u" using assms(7) by (simp add: channel_is_fully_created_def)
  from try_to_create_channel_ok [OF assms(1-5), of status u] obtain err st fb u' s' where
    t: "try_to_create_channel e p status feedback0 u s = Some (err, st, fb, u', s')" "sys_ok s'"
      "same_rest u u'"
      "if err = 0 then al5_chan_is_created u' \<and> buffers_small (fb_buffers_needed fb)
       else u_chan_uid u' = u_chan_uid u \<and> err \<in> {- EAGAIN, - EINTR, - EINVAL}" by blast
  have ps: "pools_small u'" using t(3) assms(6)
    by (simp add: enc_inv_def pools_small_def pools_ok_def same_rest_def)
  show ?thesis
  proof (cases "err = 0")
    case True
    with False t ps show ?thesis
      by (auto simp: create_step_def pools_small_def pools_ok_def al5_chan_is_created_def)
  next
    case ne: False
    with t(4) have "\<not> al5_chan_is_created u'" using nc by (simp add: al5_chan_is_created_def)
    moreover have "enc_inv u'"
      using ps t(3) False by (simp add: enc_inv_def same_rest_def al5_have_checkpoint_def)
    ultimately show ?thesis
      using False ne t(1,2,4) ps by (auto simp: create_step_def)
  qed
qed

lemma allocate_step_ok:
  assumes "sys_ok s" "pools_small u" "al5_chan_is_created u"
    and "u_checkpoint u = CHECKPOINT_ALLOCATE_BUFFERS \<and> buffers_small (fb_buffers_needed fb) \<or>
      u_checkpoint u \<in> {CHECKPOINT_SEND_INTERMEDIATE_BUFFERS, CHECKPOINT_SEND_REFERENCE_BUFFERS}"
  shows "\<exists>err u' s'. allocate_step fb u s = Some (err, u', s') \<and> sys_ok s' \<and> pools_small u' \<and>
    al5_chan_is_created u' \<and>
    (err = 0 \<and> u_checkpoint u' \<in> {CHECKPOINT_SEND_INTERMEDIATE_BUFFERS, CHECKPOINT_SEND_REFERENCE_BUFFERS} \<or>
     err = - ENOMEM)"
proof (cases "u_checkpoint u = CHECKPOINT_ALLOCATE_BUFFERS")
  case False
  with assms show ?thesis by (auto simp: allocate_step_def)
next
  case True
  with assms(4) have "buffers_small (fb_buffers_needed fb)" by (auto simp: checkpoint_defs)
  from allocate_channel_buffers_ok [OF assms(1,2) this] obtain err ip rp k d where
    a: "allocate_channel_buffers (fb_buffers_needed fb) u s =
      Some (err, u\<lparr>u_int_buffers := ip, u_rec_buffers := rp\<rparr>, s\<lparr>hw_k := k, hw_d := d\<rparr>)"
      "sys_ok (s\<lparr>hw_k := k, hw_d := d\<rparr>)"
      "pools_small (u\<lparr>u_int_buffers := ip, u_rec_buffers := rp\<rparr>)" "err = 0 \<or> err = - ENOMEM" by auto
  show ?thesis
  proof (cases "err = 0")
    case True
    with \<open>u_checkpoint u = _\<close> a assms(3) show ?thesis
      by (auto simp: allocate_step_def pools_small_def pools_ok_def al5_chan_is_created_def)
  next
    case False
    with True a assms(3) show ?thesis
      by (auto simp: allocate_step_def al5_chan_is_created_def)
  qed
qed

lemma enc_inv_unlock [simp]: "enc_inv (mutex_unlock op u) = enc_inv u"
  by (simp add: enc_inv_def mutex_unlock_def pools_small_def pools_ok_def al5_have_checkpoint_def
      al5_chan_is_created_def)

lemma channel_is_fully_created_unlock [simp]:
  "channel_is_fully_created (mutex_unlock op u) = channel_is_fully_created u"
  by (simp add: mutex_unlock_def channel_is_fully_created_def al5_have_checkpoint_def
      al5_chan_is_created_def)

lemma unlock_released [simp]: "\<not> u_locks (mutex_unlock op u) op"
  by (simp add: mutex_unlock_def)

lemma destroyed_enc_inv: "destroyed u \<Longrightarrow> enc_inv u"
  by (simp add: destroyed_def enc_inv_def pools_small_def pools_ok_def)
     (simp add: pool_small_def al5_bufpool_init_def)

lemma env_keeps_enc_inv: "env_keeps (u, s) (u', s') \<Longrightarrow> enc_inv u' = enc_inv u \<and>
    channel_is_fully_created u' = channel_is_fully_created u"
  by (simp add: enc_inv_def env_keeps_def pools_small_def pools_ok_def channel_is_fully_created_def
      al5_have_checkpoint_def al5_chan_is_created_def)

lemma failed_allocation_ok:
  assumes "env_ok e" "sys_ok s" "pools_small u" "al5_chan_is_created u"
  defines "v \<equiv> mutex_unlock AL5_USER_CREATE (u\<lparr>u_checkpoint := NO_CHECKPOINT\<rparr>)"
  shows "\<exists>err u' s'. al5_user_destroy_channel e False v s = Some (err, u', s') \<and> sys_ok s' \<and>
    enc_inv u' \<and> (if err = 0 then destroyed u' else channel_is_fully_created u')"
proof -
  have v: "pools_ok v" "al5_chan_is_created v" "channel_is_fully_created v" "enc_inv v"
    using assms(3,4) by (simp_all add: v_def mutex_unlock_def pools_small_def pools_ok_def
        al5_chan_is_created_def channel_is_fully_created_def al5_have_checkpoint_def enc_inv_def)
  from al5_user_destroy_channel_ok [OF assms(1,2) v(1), of False] v(2) obtain err u' s' where
    d: "al5_user_destroy_channel e False v s = Some (err, u', s')" "sys_ok s'"
    "if err = 0 then destroyed u' else err \<in> {- EAGAIN, - EINTR} \<and> env_keeps (v, s) (u', s')"
    by auto
  show ?thesis
  proof (cases "err = 0")
    case True
    with d destroyed_enc_inv show ?thesis by auto
  next
    case False
    with d(3) have "env_keeps (v, s) (u', s')" by simp
    from env_keeps_enc_inv [OF this] v d False show ?thesis by auto
  qed
qed

lemma al5e_user_create_channel_ok:
  assumes "env_ok e" "answers_ok e" "sys_ok s" "params_ok p" "params_fit p" "enc_inv u"
  shows "\<exists>err st u' s'. al5e_user_create_channel e p status u s = Some (err, st, u', s') \<and>
    sys_ok s' \<and> enc_inv u' \<and> (err = 0 \<longrightarrow> channel_is_fully_created u') \<and>
    err \<in> {0, - EPERM, - EAGAIN, - EINTR, - EINVAL, - ENOMEM} \<and>
    (fst (e_lock e AL5_USER_CREATE (u, s)) = 0 \<and> err \<noteq> - ENOMEM \<longrightarrow> \<not> u_locks u' AL5_USER_CREATE)"
  using assms(1)
proof (cases rule: mutex_lock_killable_ok [where op = AL5_USER_CREATE and u = u and s = s])
  case (killed u1 s1)
  with env_keeps_enc_inv [OF killed(2)] assms(3,6) show ?thesis
    by (auto simp: al5e_user_create_channel_def env_keeps_def)
next
  case (taken u0 u1 s1)
  from env_keeps_enc_inv [OF taken(2)] assms(3,6) taken(2) have inv: "enc_inv u1" and s1: "sys_ok s1"
    by (simp_all add: env_keeps_def)
  show ?thesis
  proof (cases "channel_is_fully_created u1")
    case True
    with taken(1) inv s1 show ?thesis by (simp add: al5e_user_create_channel_def)
  next
    case nf: False
    from create_step_ok [OF assms(1,2) s1 assms(4,5) inv nf, of status] obtain err st fb u2 s2 where
      c: "create_step e p status u1 s1 = Some (err, st, fb, u2, s2)" "sys_ok s2" "pools_small u2"
      "if err = 0 then al5_chan_is_created u2 \<and> (u_checkpoint u2 = CHECKPOINT_ALLOCATE_BUFFERS \<and>
         buffers_small (fb_buffers_needed fb) \<or>
       u_checkpoint u2 \<in> {CHECKPOINT_SEND_INTERMEDIATE_BUFFERS, CHECKPOINT_SEND_REFERENCE_BUFFERS} \<and>
         u2 = u1)
       else err \<in> {- EAGAIN, - EINTR, - EINVAL} \<and> \<not> al5_chan_is_created u2 \<and> enc_inv u2" by blast
    show ?thesis
    proof (cases "err = 0")
      case False
      with c taken(1) nf show ?thesis by (auto simp: al5e_user_create_channel_def)
    next
      case e0: True
      with c(4) have cc: "al5_chan_is_created u2"
        and ck: "u_checkpoint u2 = CHECKPOINT_ALLOCATE_BUFFERS \<and> buffers_small (fb_buffers_needed fb) \<or>
          u_checkpoint u2 \<in> {CHECKPOINT_SEND_INTERMEDIATE_BUFFERS, CHECKPOINT_SEND_REFERENCE_BUFFERS}"
        by auto
      from allocate_step_ok [OF c(2,3) cc ck] obtain err3 u3 s3 where
        a: "allocate_step fb u2 s2 = Some (err3, u3, s3)" "sys_ok s3" "pools_small u3"
        "al5_chan_is_created u3"
        "err3 = 0 \<and> u_checkpoint u3 \<in> {CHECKPOINT_SEND_INTERMEDIATE_BUFFERS, CHECKPOINT_SEND_REFERENCE_BUFFERS} \<or>
         err3 = - ENOMEM" by blast
      show ?thesis
      proof (cases "err3 = 0")
        case False
        from failed_allocation_ok [OF assms(1) a(2-4)] obtain err4 u4 s4 where
          "al5_user_destroy_channel e False
             (mutex_unlock AL5_USER_CREATE (u3\<lparr>u_checkpoint := NO_CHECKPOINT\<rparr>)) s3 =
             Some (err4, u4, s4)" "sys_ok s4" "enc_inv u4" by blast
        with False taken(1) nf c(1) e0 a(1,5) show ?thesis
          by (simp add: al5e_user_create_channel_def)
      next
        case e3: True
        with a(5) have k3: "u_checkpoint u3 \<in> {CHECKPOINT_SEND_INTERMEDIATE_BUFFERS, CHECKPOINT_SEND_REFERENCE_BUFFERS}"
          by simp
        from send_pools_ok [OF a(2,3) k3] obtain err4 cp s4 where
          p: "send_pools u3 s3 = Some (err4, u3\<lparr>u_checkpoint := cp\<rparr>, s4)" "sys_ok s4"
          "err4 = 0 \<and> cp = NO_CHECKPOINT \<or> err4 = - EAGAIN \<and> cp \<in>
             {CHECKPOINT_SEND_INTERMEDIATE_BUFFERS, CHECKPOINT_SEND_REFERENCE_BUFFERS}"
          using k3 by (metis insertI1 insertI2)
        have "enc_inv (u3\<lparr>u_checkpoint := cp\<rparr>)" "err4 = 0 \<Longrightarrow> channel_is_fully_created (u3\<lparr>u_checkpoint := cp\<rparr>)"
          using p(3) a(3,4)
          by (auto simp: enc_inv_def pools_small_def pools_ok_def al5_chan_is_created_def
              channel_is_fully_created_def al5_have_checkpoint_def)
        with p taken(1) nf c(1) e0 a(1) e3 show ?thesis
          by (auto simp: al5e_user_create_channel_def)
      qed
    qed
  qed
qed

section \<open>Locks that are given back\<close>

lemma unlock_taken: "\<not> u_locks u op \<Longrightarrow>
  mutex_unlock op (u\<lparr>u_locks := (u_locks u)(op := True)\<rparr>) = u"
  by (cases u) (auto simp: mutex_unlock_def fun_eq_iff)

lemma lock_taken: "e_lock e op (u, s) = (0, u1, s1) \<Longrightarrow> \<not> u_locks u1 op \<Longrightarrow>
  mutex_lock_killable e op u s = Some (0, u1\<lparr>u_locks := (u_locks u1)(op := True)\<rparr>, s1)"
  by (simp add: mutex_lock_killable_def take_lock_def)

lemma u_lock_update [simp]:
  "al5_chan_is_created (u\<lparr>u_locks := l\<rparr>) = al5_chan_is_created u"
  "channel_is_fully_created (u\<lparr>u_locks := l\<rparr>) = channel_is_fully_created u"
  "al5_have_checkpoint (u\<lparr>u_locks := l\<rparr>) = al5_have_checkpoint u"
  "pools_small (u\<lparr>u_locks := l\<rparr>) = pools_small u"
  "rec_pool_mail (u\<lparr>u_locks := l\<rparr>) = rec_pool_mail u"
  "int_pool_mail (u\<lparr>u_locks := l\<rparr>) = int_pool_mail u"
  by (simp_all add: al5_chan_is_created_def channel_is_fully_created_def al5_have_checkpoint_def
      pools_small_def pools_ok_def rec_pool_mail_def int_pool_mail_def)

section \<open>Mutexes\<close>

text \<open>Every operation leaves the mutexes as it found them, on every path that returns.\<close>

lemma try_to_create_channel_lock:
  assumes "env_leaves_lock e op" "try_to_create_channel e p status fb u s = Some (err, st, fb', u', s')"
  shows "u_locks u' op = u_locks u op"
  using assms(2) user_pop_lock(2) [OF assms(1)]
  by (auto simp: try_to_create_channel_def check_and_affect_chan_uid_def Let_def
      split: Option.bind_splits prod.splits if_splits)

lemma create_step_lock:
  assumes "env_leaves_lock e op" "create_step e p status u s = Some (err, st, fb, u', s')"
  shows "u_locks u' op = u_locks u op"
  using assms(2) try_to_create_channel_lock [OF assms(1)]
  by (auto simp: create_step_def split: Option.bind_splits if_splits)

lemma allocate_step_lock:
  "allocate_step fb u s = Some (err, u', s') \<Longrightarrow> u_locks u' = u_locks u"
  by (auto simp: allocate_step_def allocate_channel_buffers_def Let_def
      split: Option.bind_splits if_splits)

lemma send_pools_lock: "send_pools u s = Some (err, u', s') \<Longrightarrow> u_locks u' = u_locks u"
  by (auto simp: send_pools_def split: Option.bind_splits if_splits)

lemma al5e_user_create_channel_lock:
  assumes e: "env_leaves_lock e op"
    and c: "al5e_user_create_channel e p status u s = Some (err, st, u', s')"
  shows "u_locks u' op = u_locks u op"
proof -
  from c obtain e1 u1 s1 where l: "mutex_lock_killable e AL5_USER_CREATE u s = Some (e1, u1, s1)"
    by (auto simp: al5e_user_create_channel_def split: Option.bind_splits)
  note lk = mutex_lock_killable_lock [OF e l]
  show ?thesis
  proof (cases "e1 = - EINTR \<or> channel_is_fully_created u1")
    case True
    with c l lk show ?thesis
      by (auto simp: al5e_user_create_channel_def split: if_splits)
  next
    case False
    with c l obtain e2 st2 fb u2 s2 where n: "create_step e p status u1 s1 = Some (e2, st2, fb, u2, s2)"
      by (auto simp: al5e_user_create_channel_def split: Option.bind_splits)
    have k2: "u_locks u2 op = u_locks u1 op" using create_step_lock [OF e n] .
    show ?thesis
    proof (cases "e2 = 0")
      case e2: False
      with False c l lk n k2 show ?thesis
        by (auto simp: al5e_user_create_channel_def split: if_splits)
    next
      case True
      with False c l n obtain e3 u3 s3 where a: "allocate_step fb u2 s2 = Some (e3, u3, s3)"
        by (auto simp: al5e_user_create_channel_def split: Option.bind_splits)
      note k3 = allocate_step_lock [OF a]
      let ?v = "mutex_unlock AL5_USER_CREATE (u3\<lparr>u_checkpoint := NO_CHECKPOINT\<rparr>)"
      have v: "u_locks ?v op = (op \<noteq> AL5_USER_CREATE \<and> u_locks u3 op)" by simp
      show ?thesis
      proof (cases "e3 = 0")
        case e3: False
        with True False c l n a obtain e4 where "al5_user_destroy_channel e False ?v s3 = Some (e4, u', s')"
          by (auto simp: al5e_user_create_channel_def split: Option.bind_splits)
        from al5_user_destroy_channel_lock [OF e this] v k2 k3 lk False show ?thesis
          by (auto split: if_splits)
      next
        case e3: True
        with True False c l n a obtain e4 u4 where p: "send_pools u3 s3 = Some (e4, u4, s')"
          "u' = mutex_unlock AL5_USER_CREATE u4"
          by (auto simp: al5e_user_create_channel_def split: Option.bind_splits)
        from send_pools_lock [OF p(1)] p(2) k2 k3 lk False show ?thesis by (auto split: if_splits)
      qed
    qed
  qed
qed

lemma al5e_user_encode_one_frame_lock:
  assumes e: "env_leaves_lock e op" and c: "al5e_user_encode_one_frame e m u s = Some (err, u', s')"
  shows "u_locks u' op = u_locks u op"
  using c mutex_lock_killable_lock [OF e]
  by (auto simp: al5e_user_encode_one_frame_def split: Option.bind_splits if_splits)

lemma al5e_user_wait_for_status_lock:
  assumes e: "env_leaves_lock e op" and c: "al5e_user_wait_for_status e m u s = Some (err, m', u', s')"
  shows "u_locks u' op = u_locks u op"
  using c mutex_trylock_lock [of AL5_USER_STATUS u _ op] user_pop_lock(1) [OF e]
  by (auto simp: al5e_user_wait_for_status_def
      split: option.splits Option.bind_splits if_splits prod.splits)

lemma al5e_user_get_rec_lock:
  assumes e: "env_leaves_lock e op" and c: "al5e_user_get_rec e m u s = Some (err, m', u', s')"
  shows "u_locks u' op = u_locks u op"
  using c mutex_trylock_lock [of AL5_USER_REC u _ op] user_pop_lock(1) [OF e]
  by (auto simp: al5e_user_get_rec_def Let_def
      split: option.splits Option.bind_splits if_splits prod.splits)

lemma al5e_user_release_rec_lock:
  assumes c: "al5e_user_release_rec fd u s = Some (err, u', s')"
  shows "u_locks u' op = u_locks u op"
  using c mutex_trylock_lock [of AL5_USER_REC u _ op]
  by (auto simp: al5e_user_release_rec_def Let_def
      split: option.splits Option.bind_splits if_splits)

text \<open>The four results of waiting for a status.\<close>

lemma wait_for_status_eq:
  assumes "params_ok msg" "length bs < 2 ^ 16"
    and "e_wait e AL5_USER_MAIL_STATUS (u\<lparr>u_locks := (u_locks u)(AL5_USER_STATUS := True)\<rparr>, s) = (r, u1, s1)"
    and "q_list (u_queues u1 AL5_USER_MAIL_STATUS) = ms" "ms = [] \<or> hd ms = mail_of uid bs"
  shows "if u_locks u AL5_USER_STATUS then al5e_user_wait_for_status e msg u s = Some (- EINTR, msg, u, s)
    else if \<not> al5_chan_is_created u then al5e_user_wait_for_status e msg u s = Some (- EPERM, msg, u, s)
    else if ms = []
    then al5e_user_wait_for_status e msg u s = Some (- EINTR, msg, mutex_unlock AL5_USER_STATUS u1, s1)
    else if 4 \<le> length bs \<and> length bs \<le> 516
    then \<exists>msg' u'. al5e_user_wait_for_status e msg u s =
        Some (0, msg', u', s1\<lparr>hw_k := km_step 0 (- 2) (hw_k s1)\<rparr>) \<and>
      unat (params_size msg') = length bs - 4 \<and> params_data msg' = drop 4 bs \<and>
      q_list (u_queues u' AL5_USER_MAIL_STATUS) = tl ms \<and> \<not> u_locks u' AL5_USER_STATUS
    else al5e_user_wait_for_status e msg u s = None"
proof -
  consider (locked) "u_locks u AL5_USER_STATUS"
    | (none) "\<not> u_locks u AL5_USER_STATUS" "\<not> al5_chan_is_created u"
    | (empty) "\<not> u_locks u AL5_USER_STATUS" "al5_chan_is_created u" "ms = []"
    | (mail) "\<not> u_locks u AL5_USER_STATUS" "al5_chan_is_created u" "ms \<noteq> []" by blast
  then show ?thesis
  proof cases
    case locked
    then show ?thesis by (simp add: al5e_user_wait_for_status_def mutex_trylock_def take_lock_def)
  next
    case none
    with unlock_taken show ?thesis
      by (simp add: al5e_user_wait_for_status_def mutex_trylock_def take_lock_def)
  next
    case empty
    then have "set_queue AL5_USER_MAIL_STATUS (u_queues u1 AL5_USER_MAIL_STATUS) u1 = u1"
      by (simp add: set_queue_def)
    with empty assms(3,4) show ?thesis
      by (simp add: al5e_user_wait_for_status_def mutex_trylock_def take_lock_def user_pop_def
          al5_queue_pop_simps al5_free_mail_def)
  next
    case mail
    with assms(4,5) have q: "q_list (u_queues u1 AL5_USER_MAIL_STATUS) = mail_of uid bs # tl ms"
      by (cases ms) auto
    show ?thesis
    proof (cases "4 \<le> length bs \<and> length bs \<le> 516")
      case True
      let ?p = "\<lparr>params_size = of_nat (length bs - 4),
        params_opaque = drop 4 bs @ drop (length bs - 4) (params_opaque msg)\<rparr>"
      have st: "al5e_mail_get_status msg (mail_of uid bs) = Some ?p"
        using al5e_mail_get_status_eq [OF assms(1,2), of uid] True by simp
      have n: "unat (params_size ?p) = length bs - 4"
        using assms(2) by (simp add: unat_of_nat del: of_nat_diff)
      moreover have "params_data ?p = drop 4 bs" unfolding params_data_def n by simp
      ultimately show ?thesis
        using mail assms(3) q st True
        by (auto simp: al5e_user_wait_for_status_def mutex_trylock_def take_lock_def user_pop_def
            al5_queue_pop_simps al5_free_mail_def kfree_step set_queue_def mutex_unlock_def
            simp del: of_nat_diff)
    next
      case False
      with al5e_mail_get_status_eq [OF assms(1,2), of uid] mail assms(3) q show ?thesis
        by (auto simp: al5e_user_wait_for_status_def mutex_trylock_def take_lock_def user_pop_def
            al5_queue_pop_simps)
    qed
  qed
qed

section \<open>Properties\<close>

text \<open>C14: creating an encoder channel always returns, whatever the other threads and the firmware
  answer within their contracts. It leaves a user that is consistent: the channel is absent,
  complete, or stopped at one of the two sending steps with its pools in order, from where the
  next call continues. It returns 0 only with a complete channel. Every mutex the other threads
  leave alone is as it was before, also when the failure of an allocation makes the call destroy
  the channel.\<close>

theorem al5e_user_create_channel_outcomes:
  assumes "env_ok e" "answers_ok e" "sys_ok s" "params_ok p" "params_fit p" "enc_inv u"
  shows "\<exists>err st u' s'. al5e_user_create_channel e p status u s = Some (err, st, u', s') \<and>
    sys_ok s' \<and> enc_inv u' \<and> (err = 0 \<longrightarrow> channel_is_fully_created u') \<and>
    err \<in> {0, - EPERM, - EAGAIN, - EINTR, - EINVAL, - ENOMEM} \<and>
    (\<forall>op. env_leaves_lock e op \<longrightarrow> u_locks u' op = u_locks u op)"
  using al5e_user_create_channel_ok [OF assms, of status] al5e_user_create_channel_lock [of e]
  by blast

definition status0 :: al5e_channel_status where
  "status0 = \<lparr>st_options = 0, st_num_core = 0, st_pps_param = 0, st_error_code = 0\<rparr>"

text \<open>An answer for channel 5 that asks for one buffer of each kind, and the thread that receives
  it while the creation waits.\<close>

definition feedback5 :: al5e_feedback_channel where
  "feedback5 = feedback0\<lparr>fb_chan_uid := 5, fb_buffers_needed :=
     \<lparr>int_buffers_count = 1, int_buffers_size = 64, rec_buffers_count = 1, rec_buffers_size = 64,
      buffers_reserved = 0\<rparr>\<rparr>"

definition answer_env :: env where
  "answer_env = \<lparr>e_lock = e_lock (calm_env 0),
     e_wait = (\<lambda>q st. (1, set_queue q
       \<lparr>q_list = [mail_of (uid_code AL_MCU_MSG_CREATE_CHANNEL) (bytes_of_feedback feedback5)],
        q_locked = True\<rparr> (fst st), snd st))\<rparr>"

lemma answer_env_ok: "env_ok answer_env" "answers_ok answer_env"
proof -
  show "env_ok answer_env"
    by (auto simp: env_ok_def answer_env_def calm_env_def env_keeps_def set_queue_def)
  have "feedback_of_bytes (bytes_of_feedback feedback5) = Some feedback5"
    using feedback_roundtrip [of feedback5 "[]"] by simp
  then have "feedback_ok (mail_of (uid_code AL_MCU_MSG_CREATE_CHANNEL) (bytes_of_feedback feedback5))"
    by (simp add: feedback_ok_def mail_of_sel buffers_small_def feedback5_def)
  then show "answers_ok answer_env"
    by (auto simp: answers_ok_def create_answers_def answer_env_def set_queue_def wait_timeout_result_def
        mail_is_available_def)
qed

lemma enc_inv_init: "enc_inv (al5_user_init i)"
  by (simp add: enc_inv_def al5_user_init_def al5_have_checkpoint_def pools_small_def pools_ok_def)
     (simp add: pool_small_def al5_bufpool_init_def)

theorem al5e_user_create_channel_outcomes_witness:
  "\<exists>err st u' s'. al5e_user_create_channel answer_env params0 status0 (al5_user_init 2) hw0 =
      Some (err, st, u', s') \<and> sys_ok s' \<and> enc_inv u' \<and> (err = 0 \<longrightarrow> channel_is_fully_created u')"
  using al5e_user_create_channel_outcomes [OF answer_env_ok hw0_ok(1) params0_ok enc_inv_init,
      of status0 2]
  by blast


definition user_at_reference :: al5_user where
  "user_at_reference = (al5_user_init 2)\<lparr>u_chan_uid := 5, u_checkpoint := CHECKPOINT_SEND_REFERENCE_BUFFERS\<rparr>"


text \<open>Encoding a frame, in the state in which the mutex is taken. Without a channel it fails
  with \<open>-EPERM\<close>; with one, and parameters that fit, it sends exactly one message for this
  channel, or fails with \<open>-EAGAIN\<close> without an effect on the mailbox when there is no room; the
  user is unchanged and the mutex given back. Parameter sizes beyond the arrays, which come from
  user space unchecked, are undefined behaviour.\<close>

theorem al5e_user_encode_one_frame_spec:
  assumes "e_lock e AL5_USER_XCODE (u, s) = (0, u1, s1)" "\<not> u_locks u1 AL5_USER_XCODE"
    and "sys_ok s1" "params_ok (enc_params m)" "params_ok (enc_addresses m)"
  defines "msg \<equiv> mail_of (uid_code AL_MCU_MSG_ENCODE_ONE_FRM) (le32 (u32_of_int (u_chan_uid u1)) @
      le32 0 @ params_data (enc_params m) @ params_data (enc_addresses m))"
  shows "if \<not> al5_chan_is_created u1 then al5e_user_encode_one_frame e m u s = Some (- EPERM, u1, s1)
    else if \<not> params_fit (enc_params m) \<or> \<not> params_fit (enc_addresses m)
    then al5e_user_encode_one_frame e m u s = None
    else \<exists>err s'. al5e_user_encode_one_frame e m u s = Some (err, u1, s') \<and> sys_ok s' \<and>
      (if unat (body_size msg) + 8 \<le> outroom s1
       then err = 0 \<and> outbox s' = outbox s1 @ [wire_of msg] \<and> signalled s'
       else err = - EAGAIN \<and> outbox s' = outbox s1)"
proof -
  let ?u = "u1\<lparr>u_locks := (u_locks u1)(AL5_USER_XCODE := True)\<rparr>"
  let ?mk = "al5e_create_encode_one_frame_msg (u32_of_int (u_chan_uid u1)) m"
  note l = lock_taken [OF assms(1,2)] and un = unlock_taken [OF assms(2)]
  have k: "km_ok (hw_k s1)" "km_nofail (hw_k s1)" using assms(3) sys_ok_kmem by auto
  consider (none) "\<not> al5_chan_is_created u1"
    | (bad) "al5_chan_is_created u1" "\<not> params_fit (enc_params m) \<or> \<not> params_fit (enc_addresses m)"
    | (fit) "al5_chan_is_created u1" "params_fit (enc_params m)" "params_fit (enc_addresses m)" by blast
  then show ?thesis
  proof cases
    case none
    then show ?thesis using l un by (simp add: al5e_user_encode_one_frame_def)
  next
    case bad
    with al5e_create_encode_overrun [OF assms(4,5)] l show ?thesis
      by (simp add: al5e_user_encode_one_frame_def make_and_send_def)
  next
    case fit
    have c: "?mk (hw_k s1) = Some (Some msg, km_step 1 1 (hw_k s1))"
      unfolding msg_def using k assms(4,5) fit(2,3) by (rule al5e_create_encode_eq)
    have eq: "al5e_user_encode_one_frame e m u s = do {
        (err, s) \<leftarrow> make_and_send ?mk s1; Some (err, u1, s) }"
      using fit(1) l un by (simp add: al5e_user_encode_one_frame_def)
    show ?thesis
    proof (rule make_and_send_cases [where s = s1 and m = msg and mk = ?mk, OF assms(3) c])
      show "mail_wf msg" by (simp add: msg_def)
    next
      fix s'
      assume "make_and_send ?mk s1 = Some (0, s')" "hw_frame s1 s'"
        "outbox s' = outbox s1 @ [wire_of msg]" "signalled s'" "unat (body_size msg) + 8 \<le> outroom s1"
      with eq fit sys_ok_frame assms(3) show ?thesis by auto
    next
      assume "make_and_send ?mk s1 = Some (- EAGAIN, s1\<lparr>hw_k := km_step 1 0 (hw_k s1)\<rparr>)"
        "outroom s1 < unat (body_size msg) + 8"
      with eq fit assms(3) show ?thesis by auto
    qed
  qed
qed

theorem al5e_user_encode_one_frame_spec_witness:
  "al5e_user_encode_one_frame (calm_env 0) \<lparr>enc_params = params0, enc_addresses = params0\<rparr>
     (al5_user_init 2) hw0 = Some (- EPERM, al5_user_init 2, hw0)"
proof -
  have n: "\<not> al5_chan_is_created (al5_user_init 2)"
    by (simp add: al5_user_init_def al5_chan_is_created_def)
  have l: "e_lock (calm_env 0) AL5_USER_XCODE (al5_user_init 2, hw0) = (0, al5_user_init 2, hw0)"
    "\<not> u_locks (al5_user_init 2) AL5_USER_XCODE"
    by (simp_all add: calm_env_def al5_user_init_def)
  show ?thesis
    using al5e_user_encode_one_frame_spec [OF l hw0_ok(1),
        of "\<lparr>enc_params = params0, enc_addresses = params0\<rparr>"] n
    by simp
qed

text \<open>Waiting for a status. A second waiter, and a user without a channel, are turned away; a
  waiter released without a mail gets \<open>-EINTR\<close>; else the oldest status is copied to the caller,
  its mail and node are freed, and the mutex is given back. A status of more than 512 bytes
  overruns the caller's structure.\<close>

theorem al5e_user_wait_for_status_spec:
  assumes "params_ok msg" "length bs < 2 ^ 16"
    and "e_wait e AL5_USER_MAIL_STATUS (u\<lparr>u_locks := (u_locks u)(AL5_USER_STATUS := True)\<rparr>, s) = (r, u1, s1)"
    and "q_list (u_queues u1 AL5_USER_MAIL_STATUS) = ms" "ms = [] \<or> hd ms = mail_of uid bs"
  shows "if u_locks u AL5_USER_STATUS then al5e_user_wait_for_status e msg u s = Some (- EINTR, msg, u, s)
    else if \<not> al5_chan_is_created u then al5e_user_wait_for_status e msg u s = Some (- EPERM, msg, u, s)
    else if ms = []
    then al5e_user_wait_for_status e msg u s = Some (- EINTR, msg, mutex_unlock AL5_USER_STATUS u1, s1)
    else if 4 \<le> length bs \<and> length bs \<le> 516
    then \<exists>msg' u'. al5e_user_wait_for_status e msg u s =
        Some (0, msg', u', s1\<lparr>hw_k := km_step 0 (- 2) (hw_k s1)\<rparr>) \<and>
      unat (params_size msg') = length bs - 4 \<and> params_data msg' = drop 4 bs \<and>
      q_list (u_queues u' AL5_USER_MAIL_STATUS) = tl ms \<and> \<not> u_locks u' AL5_USER_STATUS
    else al5e_user_wait_for_status e msg u s = None"
  using assms by (rule wait_for_status_eq)

theorem al5e_user_wait_for_status_spec_witness:
  "al5e_user_wait_for_status (calm_env (- ERESTARTSYS)) params0 user3 hw0 =
     Some (- EINTR, params0, user3, hw0)"
proof -
  have l: "\<not> u_locks user3 AL5_USER_STATUS" by (simp add: user3_ok)
  have w: "e_wait (calm_env (- ERESTARTSYS)) AL5_USER_MAIL_STATUS
      (user3\<lparr>u_locks := (u_locks user3)(AL5_USER_STATUS := True)\<rparr>, hw0) =
      (- ERESTARTSYS, user3\<lparr>u_locks := (u_locks user3)(AL5_USER_STATUS := True)\<rparr>, hw0)"
    by (simp add: calm_env_def)
  have q: "q_list (u_queues (user3\<lparr>u_locks := (u_locks user3)(AL5_USER_STATUS := True)\<rparr>)
      AL5_USER_MAIL_STATUS) = []"
    by (simp add: user3_def al5_user_init_def al5_queue_init_def)
  show ?thesis
    using al5e_user_wait_for_status_spec [OF params0_ok(1) _ w q, of "[]" 0] l user3_ok(2)
      unlock_taken [OF l]
    by simp
qed

text \<open>Reserving a reconstructed picture. Every index the firmware may name below the number
  of buffers gives the descriptor of that buffer; the index equal to this number, which the test
  \<open>id > count\<close> lets pass, reads behind the end of the array.\<close>

theorem get_user_rec_buffer_spec:
  assumes "pool_ok (u_rec_buffers u)"
  shows "if idx = bp_count (u_rec_buffers u) then get_user_rec_buffer idx u d = None
    else if 0 \<le> idx \<and> idx < bp_count (u_rec_buffers u)
    then \<exists>d'. get_user_rec_buffer idx u d =
        Some (fst (dcall (Dma_buf_fd (pool_handles (u_rec_buffers u) ! nat idx)) d), d')
    else get_user_rec_buffer idx u d = Some (- 1, d)"
  using assms
proof (cases rule: pool_ok_cases)
  case empty
  then show ?thesis
    by (auto simp: get_user_rec_buffer_def al5_bufpool_init_def al5_bufpool_reserve_fd_def array_get_def)
next
  case (full bs hs)
  then show ?thesis
    by (auto simp: get_user_rec_buffer_def al5_bufpool_reserve_fd_def array_get_def pool_handles_def
        Let_def split_def)
qed

theorem get_user_rec_buffer_spec_witness:
  "get_user_rec_buffer 2 (user3\<lparr>u_rec_buffers := pool2\<rparr>) dsys7 = None \<and>
   (\<exists>d'. get_user_rec_buffer 1 (user3\<lparr>u_rec_buffers := pool2\<rparr>) dsys7 = Some (7, d'))"
  using get_user_rec_buffer_spec [of "user3\<lparr>u_rec_buffers := pool2\<rparr>" 2 dsys7]
    get_user_rec_buffer_spec [of "user3\<lparr>u_rec_buffers := pool2\<rparr>" 1 dsys7]
  by (simp add: pool2_ok dcall_def dsys7_def Let_def)

end
