(* ===== verification/Ioctl.thy ===== *)
theory Ioctl
  imports Al_User
begin

text \<open>
  What the two command dispatchers share: the numbering of the commands (\<open>include/al_ioctl.h\<close>
  with the kernel's \<open>_IO\<close> and \<open>_IOWR\<close>), the copy back to the caller's memory, and the two
  commands on buffers.
\<close>

section \<open>Command numbers\<close>

text \<open>The kernel's encoding: direction in two bits, size of the argument in 14, the type 'q' (113)
  and the number in eight bits each.\<close>

definition IOC :: "nat \<Rightarrow> nat \<Rightarrow> nat \<Rightarrow> u32" where
  "IOC dir nr size_arg = of_nat (dir * 2 ^ 30 + size_arg * 2 ^ 16 + 113 * 2 ^ 8 + nr)"

abbreviation (input) IO :: "nat \<Rightarrow> u32" where "IO nr \<equiv> IOC 0 nr 0"
abbreviation (input) IOWR :: "nat \<Rightarrow> nat \<Rightarrow> u32" where "IOWR nr size_arg \<equiv> IOC 3 nr size_arg"

definition sizeof_u32 :: nat where "sizeof_u32 = 4"
definition sizeof_dma_info :: nat where "sizeof_dma_info = 3 * 4"
definition sizeof_params :: nat where "sizeof_params = 4 + 4 * 128"

definition GET_DMA_FD :: u32 where "GET_DMA_FD = IOWR 13 sizeof_dma_info"
definition GET_DMA_PHY :: u32 where "GET_DMA_PHY = IOWR 18 sizeof_dma_info"

lemmas ioc_defs = IOC_def sizeof_u32_def sizeof_dma_info_def sizeof_params_def GET_DMA_FD_def
  GET_DMA_PHY_def

section \<open>Copying back\<close>

text \<open>\<open>copy_to_user\<close> after the operation: the operation's result, unless the caller's memory cannot
  be written. What the operation did stays done.\<close>

definition copied :: "bool \<Rightarrow> int \<Rightarrow> 'w \<Rightarrow> int \<times> 'w option" where
  "copied writable ret w = (if writable then (ret, Some w) else (- EFAULT, None))"

lemma copied_cases:
  obtains "copied writable ret w = (ret, Some w)" | "copied writable ret w = (- EFAULT, None)"
  by (cases writable) (auto simp: copied_def)

section \<open>Commands on buffers\<close>

definition ioctl_dma_fd ::
    "al5_dma_info option \<Rightarrow> bool \<Rightarrow> hw \<Rightarrow> int \<times> al5_dma_info option \<times> hw" where
  "ioctl_dma_fd arg writable s =
     (let (ret, out, k, d) = al5_ioctl_get_dma_fd arg writable (hw_k s) (hw_d s)
      in (ret, out, s\<lparr>hw_k := k, hw_d := d\<rparr>))"

definition ioctl_dma_phy ::
    "al5_dma_info option \<Rightarrow> bool \<Rightarrow> hw \<Rightarrow> int \<times> al5_dma_info option \<times> hw" where
  "ioctl_dma_phy arg writable s =
     (let (ret, out, d) = al5_ioctl_get_dmabuf_dma_addr arg writable (hw_d s)
      in (ret, out, s\<lparr>hw_d := d\<rparr>))"

lemma al5_allocate_dmabuf_oracle:
  "al5_allocate_dmabuf sz k d = (err, fd, k', d') \<Longrightarrow> km_oracle k' = km_oracle k"
  by (auto simp: al5_allocate_dmabuf_def al5_create_dmabuf_fd_def Let_def
      dest!: al5_alloc_dma_live al5_dmabuf_wrap_oracle split: option.splits prod.splits if_splits)

lemma al5_ioctl_get_dma_fd_oracle:
  "al5_ioctl_get_dma_fd arg writable k d = (err, out, k', d') \<Longrightarrow> km_oracle k' = km_oracle k"
  by (auto simp: al5_ioctl_get_dma_fd_def Let_def
      dest!: al5_allocate_dmabuf_oracle split: option.splits prod.splits if_splits)

lemma ioctl_dma_ok:
  assumes "sys_ok s"
  shows "sys_ok (snd (snd (ioctl_dma_fd arg writable s)))"
    and "sys_ok (snd (snd (ioctl_dma_phy arg writable s)))"
proof -
  obtain ret out k d where f: "al5_ioctl_get_dma_fd arg writable (hw_k s) (hw_d s) = (ret, out, k, d)"
    by (cases "al5_ioctl_get_dma_fd arg writable (hw_k s) (hw_d s)") auto
  with sys_ok_oracle(1) [OF assms al5_ioctl_get_dma_fd_oracle [OF f]]
  show "sys_ok (snd (snd (ioctl_dma_fd arg writable s)))" by (simp add: ioctl_dma_fd_def)
  show "sys_ok (snd (snd (ioctl_dma_phy arg writable s)))"
    using sys_ok_oracle(2) [OF assms] by (simp add: ioctl_dma_phy_def split_def Let_def)
qed

section \<open>What the operations leave as it is\<close>

lemma env_keeps_free [simp]:
  "env_keeps st (u, s\<lparr>hw_k := al5_free_mail m (hw_k s)\<rparr>) = env_keeps st (u, s)"
  by (cases m) (simp_all add: env_keeps_def al5_free_mail_def kfree_step)

lemma env_keeps_hw_d [simp]: "env_keeps st (u, s\<lparr>hw_d := d\<rparr>) = env_keeps st (u, s)"
  by (simp add: env_keeps_def sys_ok_def hw_ok_def)

lemma env_keeps_hw_d_free [simp]:
  "env_keeps st (u, s\<lparr>hw_d := d, hw_k := al5_free_mail m (hw_k s)\<rparr>) = env_keeps st (u, s)"
  using env_keeps_free [where s = "s\<lparr>hw_d := d\<rparr>"] by simp

lemma env_keeps_unlock [simp]: "env_keeps st (mutex_unlock op u, s) = env_keeps st (u, s)"
  by (simp add: env_keeps_def mutex_unlock_def)

lemma user_pop_mail:
  assumes "env_ok e"
  obtains m u' s' where "user_pop e q u s = (m, u', s')" "env_keeps (u, s) (u', s')"
    "\<And>x. m = Some x \<Longrightarrow> x \<in> set (q_list (u_queues (fst (snd (e_wait e q (u, s)))) q))"
proof -
  obtain m u' s' where p: "user_pop e q u s = (m, u', s')" by (cases "user_pop e q u s") auto
  moreover have "env_keeps (u, s) (u', s')" using user_pop_ok [OF assms, of u s q] p by simp
  moreover have "x \<in> set (q_list (u_queues (fst (snd (e_wait e q (u, s)))) q))" if "m = Some x" for x
    using p that by (auto simp: user_pop_def al5_queue_pop_def mails_pop_def
        split: prod.splits list.splits)
  ultimately show thesis using that by blast
qed

lemma make_and_send_keeps:
  assumes "sys_ok s" "\<And>k. km_ok k \<Longrightarrow> km_nofail k \<Longrightarrow> mk k = Some (Some m, km_step 1 1 k)" "mail_wf m"
  obtains err s' where "make_and_send mk s = Some (err, s')" "err \<in> {0, - EAGAIN}" "sys_ok s'"
  using make_and_send_ok [OF assms] by blast

lemma trylock_keeps:
  "mutex_trylock op u = Some u' \<Longrightarrow> env_keeps (u, s) (u', s)"
  by (auto simp: mutex_trylock_def take_lock_def split: if_splits)

section \<open>The life of an open file\<close>

text \<open>A device file with its command dispatcher \<open>ioctl\<close>: the second argument of a command is what
  the caller and the other threads contribute to it, \<open>call_ok\<close> their contract. One step of the
  file is a command of its owner, or what other threads do between two commands; the file starts
  with the user that \<open>al5_codec_open\<close> has bound.\<close>

type_synonym ('m, 'w) dispatcher =
  "u32 \<Rightarrow> 'm \<Rightarrow> al5_user \<Rightarrow> hw \<Rightarrow> (int \<times> 'w option \<times> al5_user \<times> hw) option"

inductive file_step :: "('m, 'w) dispatcher \<Rightarrow> ('m \<Rightarrow> bool) \<Rightarrow> ustate \<Rightarrow> ustate \<Rightarrow> bool"
  for ioctl :: "('m, 'w) dispatcher" and call_ok :: "'m \<Rightarrow> bool" where
  command: "ioctl cmd m u s = Some (err, w, u', s') \<Longrightarrow> call_ok m \<Longrightarrow>
    file_step ioctl call_ok (u, s) (u', s')"
| others: "env_keeps (u, s) (u', s') \<Longrightarrow> file_step ioctl call_ok (u, s) (u', s')"

inductive file_reachable :: "('m, 'w) dispatcher \<Rightarrow> ('m \<Rightarrow> bool) \<Rightarrow> ustate \<Rightarrow> bool"
  for ioctl :: "('m, 'w) dispatcher" and call_ok :: "'m \<Rightarrow> bool" where
  bound: "sys_ok s \<Longrightarrow> file_reachable ioctl call_ok (al5_user_init uid, s)"
| step: "file_reachable ioctl call_ok st \<Longrightarrow> file_step ioctl call_ok st st' \<Longrightarrow>
    file_reachable ioctl call_ok st'"

inductive_cases file_stepE: "file_step ioctl call_ok (u, s) (u', s')"

text \<open>What a dispatcher promises: every command within its contract returns and keeps the
  invariant of the user. Then a file is never stuck and never corrupt.\<close>

locale command_file =
  fixes ioctl :: "('m, 'w) dispatcher"
    and call_ok :: "'m \<Rightarrow> bool"
    and inv :: "al5_user \<Rightarrow> bool"
  assumes inv_init: "inv (al5_user_init uid)"
    and inv_others: "env_keeps (u, s) (u', s') \<Longrightarrow> inv u \<Longrightarrow> inv u'"
    and returns: "sys_ok s \<Longrightarrow> inv u \<Longrightarrow> call_ok m \<Longrightarrow>
      \<exists>err w u' s'. ioctl cmd m u s = Some (err, w, u', s') \<and> sys_ok s' \<and> inv u'"
begin

lemma step_inv:
  assumes "file_step ioctl call_ok (u, s) (u', s')" "sys_ok s" "inv u"
  shows "sys_ok s' \<and> inv u'"
  using assms(1)
proof (rule file_stepE)
  fix cmd m err w
  assume "ioctl cmd m u s = Some (err, w, u', s')" "call_ok m"
  with returns [OF assms(2,3), of m cmd] show ?thesis by auto
next
  assume "env_keeps (u, s) (u', s')"
  with inv_others [of u s u' s'] assms(2,3) show ?thesis by (auto simp: env_keeps_def)
qed

lemma reachable_inv: "file_reachable ioctl call_ok st \<Longrightarrow> sys_ok (snd st) \<and> inv (fst st)"
proof (induction rule: file_reachable.induct)
  case (bound s uid)
  with inv_init show ?case by simp
next
  case (step st st')
  then show ?case using step_inv by (metis prod.collapse)
qed

lemma safe:
  assumes "file_reachable ioctl call_ok (u, s)" "call_ok m"
  shows "sys_ok s \<and> inv u \<and> (\<exists>err w u' s'. ioctl cmd m u s = Some (err, w, u', s') \<and>
    file_reachable ioctl call_ok (u', s'))"
proof -
  have ok: "sys_ok s" "inv u" using reachable_inv [OF assms(1)] by simp_all
  with returns [OF ok assms(2)] obtain err w u' s' where
    r: "ioctl cmd m u s = Some (err, w, u', s')" by blast
  with assms have "file_reachable ioctl call_ok (u', s')"
    by (blast intro: file_reachable.step file_step.command)
  with ok r show ?thesis by blast
qed

end

end
