(* ===== verification/Enc_Ioctl.thy ===== *)
theory Enc_Ioctl
  imports Enc_User Ioctl
begin

text \<open>
  The command dispatcher of the encoder's device file (\<open>al5e_ioctl\<close> of \<open>al5e/al_enc.c\<close>), and the
  life of an open file: any run of commands on it.
\<close>

section \<open>Commands\<close>

definition sizeof_config_channel :: nat where "sizeof_config_channel = sizeof_params + 16"
definition sizeof_encode_msg :: nat where "sizeof_encode_msg = 2 * sizeof_params"
definition sizeof_buffer :: nat where "sizeof_buffer = 24"
definition sizeof_reconstructed_info :: nat where "sizeof_reconstructed_info = 3 * 4"

definition ENC_CONFIG_CHANNEL :: u32 where "ENC_CONFIG_CHANNEL = IOWR 2 sizeof_config_channel"
definition ENC_DESTROY_CHANNEL :: u32 where "ENC_DESTROY_CHANNEL = IO 4"
definition AL_MCU_ENCODE_ONE_FRM :: u32 where "AL_MCU_ENCODE_ONE_FRM = IOWR 5 sizeof_encode_msg"
definition ENC_WAIT_FOR_STATUS :: u32 where "ENC_WAIT_FOR_STATUS = IOWR 6 sizeof_params"
definition AL_MCU_PUT_STREAM_BUFFER :: u32 where "AL_MCU_PUT_STREAM_BUFFER = IOWR 22 sizeof_buffer"
definition AL_MCU_GET_REC_PICTURE :: u32 where
  "AL_MCU_GET_REC_PICTURE = IOWR 23 sizeof_reconstructed_info"
definition AL_MCU_RELEASE_REC_PICTURE :: u32 where "AL_MCU_RELEASE_REC_PICTURE = IOWR 24 sizeof_u32"

lemmas enc_cmd_defs = ENC_CONFIG_CHANNEL_def ENC_DESTROY_CHANNEL_def AL_MCU_ENCODE_ONE_FRM_def
  ENC_WAIT_FOR_STATUS_def AL_MCU_PUT_STREAM_BUFFER_def AL_MCU_GET_REC_PICTURE_def
  AL_MCU_RELEASE_REC_PICTURE_def sizeof_config_channel_def sizeof_encode_msg_def sizeof_buffer_def
  sizeof_reconstructed_info_def ioc_defs

text \<open>The caller's memory at \<open>arg\<close>: what \<open>copy_from_user\<close> reads there as each structure
  (\<^const>\<open>None\<close> if it fails), and whether \<open>copy_to_user\<close> succeeds.\<close>

record enc_user_mem =
  um_config :: "(al5_params \<times> al5e_channel_status) option"
  um_params :: "al5_params option"
  um_encode :: "al5_encode_msg option"
  um_rec :: "al5_reconstructed_info option"
  um_fd :: "u32 option"
  um_buffer :: "al5_buffer option"
  um_dma :: "al5_dma_info option"
  um_writable :: bool

text \<open>The structure written back.\<close>

datatype enc_written =
    Config_written al5_params al5e_channel_status
  | Params_written al5_params
  | Encode_written al5_encode_msg
  | Rec_written al5_reconstructed_info
  | Dma_written al5_dma_info

definition al5e_ioctl_usage :: int where
  "al5e_ioctl_usage = - EINVAL"

text \<open>The cases of the switch: the result, what is stored at \<open>arg\<close>, the user and the state below.\<close>

type_synonym enc_result = "(int \<times> enc_written option \<times> al5_user \<times> hw) option"

definition enc_config_channel :: "env \<Rightarrow> enc_user_mem \<Rightarrow> al5_user \<Rightarrow> hw \<Rightarrow> enc_result" where
  "enc_config_channel e mem u s =
     (case um_config mem of
        None \<Rightarrow> Some (- EFAULT, None, u, s)
      | Some (param, status) \<Rightarrow> do {
          (ret, status, u, s) \<leftarrow> al5e_user_create_channel e param status u s;
          let (ret, w) = copied (um_writable mem) ret (Config_written param status);
          Some (ret, w, u, s)
        })"

definition enc_destroy_channel :: "env \<Rightarrow> al5_user \<Rightarrow> hw \<Rightarrow> enc_result" where
  "enc_destroy_channel e u s = do {
     (ret, u, s) \<leftarrow> al5_user_destroy_channel e False u s;
     Some (ret, None, u, s)
   }"

definition enc_wait_for_status :: "env \<Rightarrow> enc_user_mem \<Rightarrow> al5_user \<Rightarrow> hw \<Rightarrow> enc_result" where
  "enc_wait_for_status e mem u s =
     (case um_params mem of
        None \<Rightarrow> Some (- EFAULT, None, u, s)
      | Some status \<Rightarrow> do {
          (ret, status, u, s) \<leftarrow> al5e_user_wait_for_status e status u s;
          let (ret, w) = copied (um_writable mem) ret (Params_written status);
          Some (ret, w, u, s)
        })"

definition enc_encode_one_frame :: "env \<Rightarrow> enc_user_mem \<Rightarrow> al5_user \<Rightarrow> hw \<Rightarrow> enc_result" where
  "enc_encode_one_frame e mem u s =
     (case um_encode mem of
        None \<Rightarrow> Some (- EFAULT, None, u, s)
      | Some msg \<Rightarrow> do {
          (ret, u, s) \<leftarrow> al5e_user_encode_one_frame e msg u s;
          let (ret, w) = copied (um_writable mem) ret (Encode_written msg);
          Some (ret, w, u, s)
        })"

definition enc_get_rec :: "env \<Rightarrow> enc_user_mem \<Rightarrow> al5_user \<Rightarrow> hw \<Rightarrow> enc_result" where
  "enc_get_rec e mem u s =
     (case um_rec mem of
        None \<Rightarrow> Some (- EFAULT, None, u, s)
      | Some msg \<Rightarrow> do {
          (ret, msg, u, s) \<leftarrow> al5e_user_get_rec e msg u s;
          let (ret, w) = copied (um_writable mem) ret (Rec_written msg);
          Some (ret, w, u, s)
        })"

definition enc_release_rec :: "enc_user_mem \<Rightarrow> al5_user \<Rightarrow> hw \<Rightarrow> enc_result" where
  "enc_release_rec mem u s =
     (case um_fd mem of
        None \<Rightarrow> Some (- EFAULT, None, u, s)
      | Some fd \<Rightarrow> do {
          (ret, u, s) \<leftarrow> al5e_user_release_rec fd u s;
          Some (ret, None, u, s)
        })"

definition enc_put_stream_buffer :: "enc_user_mem \<Rightarrow> al5_user \<Rightarrow> hw \<Rightarrow> enc_result" where
  "enc_put_stream_buffer mem u s =
     (case um_buffer mem of
        None \<Rightarrow> Some (- EFAULT, None, u, s)
      | Some buffer \<Rightarrow> do {
          (ret, s) \<leftarrow> al5e_user_put_stream_buffer buffer u s;
          Some (ret, None, u, s)
        })"

definition enc_dma :: "(al5_dma_info option \<Rightarrow> bool \<Rightarrow> hw \<Rightarrow> int \<times> al5_dma_info option \<times> hw)
    \<Rightarrow> enc_user_mem \<Rightarrow> al5_user \<Rightarrow> hw \<Rightarrow> enc_result" where
  "enc_dma op mem u s =
     (let (ret, w, s) = op (um_dma mem) (um_writable mem) s
      in Some (ret, map_option Dma_written w, u, s))"

definition al5e_ioctl :: "env \<Rightarrow> u32 \<Rightarrow> enc_user_mem \<Rightarrow> al5_user \<Rightarrow> hw \<Rightarrow> enc_result" where
  "al5e_ioctl e cmd mem u s =
     (if cmd = ENC_CONFIG_CHANNEL then enc_config_channel e mem u s
      else if cmd = ENC_DESTROY_CHANNEL then enc_destroy_channel e u s
      else if cmd = ENC_WAIT_FOR_STATUS then enc_wait_for_status e mem u s
      else if cmd = AL_MCU_ENCODE_ONE_FRM then enc_encode_one_frame e mem u s
      else if cmd = AL_MCU_GET_REC_PICTURE then enc_get_rec e mem u s
      else if cmd = AL_MCU_RELEASE_REC_PICTURE then enc_release_rec mem u s
      else if cmd = AL_MCU_PUT_STREAM_BUFFER then enc_put_stream_buffer mem u s
      else if cmd = GET_DMA_FD then enc_dma ioctl_dma_fd mem u s
      else if cmd = GET_DMA_PHY then enc_dma ioctl_dma_phy mem u s
      else Some (al5e_ioctl_usage, None, u, s))"

section \<open>Contracts\<close>

text \<open>The sizes the caller chose fit; the firmware's status messages fit the caller's structure,
  and its reconstructed pictures are not the one number \<open>get_user_rec_buffer\<close> lets pass by
  mistake. Without them the code reads or writes outside its objects, as the properties about
  these operations show.\<close>

definition enc_mem_ok :: "enc_user_mem \<Rightarrow> bool" where
  "enc_mem_ok mem \<longleftrightarrow>
     (\<forall>p st. um_config mem = Some (p, st) \<longrightarrow> params_ok p \<and> params_fit p) \<and>
     (\<forall>p. um_params mem = Some p \<longrightarrow> params_ok p) \<and>
     (\<forall>m. um_encode mem = Some m \<longrightarrow> params_ok (enc_params m) \<and> params_fit (enc_params m) \<and>
        params_ok (enc_addresses m) \<and> params_fit (enc_addresses m))"

definition status_ok :: "al5_mail \<Rightarrow> bool" where
  "status_ok m \<longleftrightarrow> (\<exists>uid bs. m = mail_of uid bs \<and> 4 \<le> length bs \<and> length bs \<le> 516)"

definition rec_ok :: "al5_user \<Rightarrow> al5_mail \<Rightarrow> bool" where
  "rec_ok u m \<longleftrightarrow> 16 \<le> length (body m) \<and>
     (\<forall>w. al5_mail_get_word m 1 = Some w \<longrightarrow> int_of_u32 w \<noteq> bp_count (u_rec_buffers u))"

definition status_waits_ok :: "env \<Rightarrow> bool" where
  "status_waits_ok e \<longleftrightarrow> (\<forall>st m.
     m \<in> set (q_list (u_queues (fst (snd (e_wait e AL5_USER_MAIL_STATUS st))) AL5_USER_MAIL_STATUS)) \<longrightarrow>
     status_ok m)"

definition rec_waits_ok :: "env \<Rightarrow> bool" where
  "rec_waits_ok e \<longleftrightarrow> (\<forall>st m.
     m \<in> set (q_list (u_queues (fst (snd (e_wait e AL5_USER_MAIL_REC st))) AL5_USER_MAIL_REC)) \<longrightarrow>
     rec_ok (fst st) m)"

definition waits_ok :: "env \<Rightarrow> bool" where
  "waits_ok e \<longleftrightarrow> status_waits_ok e \<and> rec_waits_ok e"

definition enc_env_ok :: "env \<Rightarrow> bool" where
  "enc_env_ok e \<longleftrightarrow> env_ok e \<and> answers_ok e \<and> waits_ok e"


section \<open>Each operation returns and keeps the user in order\<close>

lemma al5e_user_encode_one_frame_keeps:
  assumes "env_ok e" "sys_ok s" "params_ok (enc_params m)" "params_ok (enc_addresses m)"
    and "params_fit (enc_params m)" "params_fit (enc_addresses m)"
  shows "\<exists>err u' s'. al5e_user_encode_one_frame e m u s = Some (err, u', s') \<and> env_keeps (u, s) (u', s')"
  using assms(1)
proof (cases rule: mutex_lock_killable_ok [where op = AL5_USER_XCODE and u = u and s = s])
  case (killed u1 s1)
  then show ?thesis by (simp add: al5e_user_encode_one_frame_def)
next
  case (taken u0 u1 s1)
  with assms(2) have s1: "sys_ok s1" by (simp add: env_keeps_def)
  show ?thesis
  proof (rule make_and_send_keeps [OF s1 al5e_create_encode_eq [OF _ _ assms(3-6)] destroy_mail_wf])
    fix err s'
    assume "make_and_send (al5e_create_encode_one_frame_msg (u32_of_int (u_chan_uid u1)) m) s1 =
      Some (err, s')" "sys_ok s'"
    moreover have "env_keeps (u, s) (u1, s')"
      using taken(2) \<open>sys_ok s'\<close> by (simp add: env_keeps_def)
    ultimately show ?thesis
      using taken(1,2) by (auto simp: al5e_user_encode_one_frame_def)
  qed
qed

lemma status_mail_read:
  assumes "status_ok m" "params_ok p"
  shows "\<exists>p'. al5e_mail_get_status p m = Some p'"
proof -
  from assms(1) obtain uid bs where "m = mail_of uid bs" "4 \<le> length bs" "length bs \<le> 516"
    by (auto simp: status_ok_def)
  with al5e_mail_get_status_eq [OF assms(2), of bs uid] show ?thesis by simp
qed

lemma al5e_user_wait_for_status_keeps:
  assumes "env_ok e" "status_waits_ok e" "params_ok p"
  shows "\<exists>err p' u' s'. al5e_user_wait_for_status e p u s = Some (err, p', u', s') \<and>
    env_keeps (u, s) (u', s')"
proof (cases "mutex_trylock AL5_USER_STATUS u")
  case None
  then show ?thesis by (simp add: al5e_user_wait_for_status_def)
next
  case (Some v)
  have v: "env_keeps (u, s) (v, s)" using Some by (rule trylock_keeps)
  show ?thesis
  proof (rule user_pop_mail [OF assms(1), where q = AL5_USER_MAIL_STATUS and u = v and s = s])
    fix m u' s'
    assume m: "user_pop e AL5_USER_MAIL_STATUS v s = (m, u', s')" "env_keeps (v, s) (u', s')"
      "\<And>x. m = Some x \<Longrightarrow> x \<in> set (q_list (u_queues
        (fst (snd (e_wait e AL5_USER_MAIL_STATUS (v, s)))) AL5_USER_MAIL_STATUS))"
    have "\<exists>p'. al5e_mail_get_status p x = Some p'" if "m = Some x" for x
      using status_mail_read [OF _ assms(3)] m(3) [OF that] assms(2) by (auto simp: status_waits_ok_def)
    then show ?thesis
      using Some v m(1) env_keeps_trans [OF v m(2)]
      by (cases m) (auto simp: al5e_user_wait_for_status_def)
  qed
qed

lemma create_stream_buffer_msg_eq:
  assumes "km_ok k" "km_nofail k"
  shows "create_stream_buffer_msg chan addr b k = Some (Some (mail_of (uid_code AL_MCU_MSG_PUT_STREAM_BUFFER)
    (le32 chan @ le32 addr @ le32 (al5_mcu_get_virtual_address addr) @ le32 (buf_size b) @
     le32 (buf_offset b) @ le64 (stream_buffer_ptr b))), km_step 1 1 k)"
proof -
  obtain rest where "al5_mail_create (uid_code AL_MCU_MSG_PUT_STREAM_BUFFER) 28 k =
      (Some (partial_mail (uid_code AL_MCU_MSG_PUT_STREAM_BUFFER) [] rest), km_step 1 1 k)"
    "length rest = unat (28 :: u32)"
    using assms by (rule al5_mail_create_Some)
  moreover have "length (le64 w) = 8" for w by (simp add: le64_def)
  ultimately show ?thesis
    by (simp add: create_stream_buffer_msg_def al5_mail_write_word_partial al5_mail_write_partial
        partial_mail_complete)
qed

lemma al5e_user_put_stream_buffer_keeps:
  assumes "sys_ok s"
  shows "\<exists>err s'. al5e_user_put_stream_buffer b u s = Some (err, s') \<and> sys_ok s'"
proof (cases "al5_chan_is_created u")
  case False
  with assms show ?thesis by (simp add: al5e_user_put_stream_buffer_def)
next
  case True
  obtain err info d where i: "al5_get_dmabuf_info (buf_handle b) (hw_d s) = (err, info, d)"
    by (cases "al5_get_dmabuf_info (buf_handle b) (hw_d s)") auto
  have s1: "sys_ok (s\<lparr>hw_d := d\<rparr>)" using sys_ok_oracle(2) [OF assms] .
  show ?thesis
  proof (cases info)
    case None
    with al5_get_dmabuf_info_live [OF i] True i s1 show ?thesis
      by (simp add: al5e_user_put_stream_buffer_def)
  next
    case (Some x)
    show ?thesis
    proof (rule make_and_send_keeps [OF s1 create_stream_buffer_msg_eq destroy_mail_wf])
      fix err' s'
      assume "make_and_send (create_stream_buffer_msg (u32_of_int (u_chan_uid u)) (bus_address x) b)
        (s\<lparr>hw_d := d\<rparr>) = Some (err', s')" "sys_ok s'"
      with True i Some al5_get_dmabuf_info_live [OF i] s1 show ?thesis
        by (auto simp: al5e_user_put_stream_buffer_def Let_def)
    qed
  qed
qed


lemma le32_reads:
  "16 \<le> length (body m) \<Longrightarrow> i < 4 \<Longrightarrow> \<exists>w. al5_mail_get_word m (of_nat i) = Some w"
  by (auto simp: al5_mail_get_word_def load32_def unat_of_nat unat_word_ariths)

lemma get_user_rec_buffer_returns:
  assumes "pool_ok (u_rec_buffers u)" "idx \<noteq> bp_count (u_rec_buffers u)"
  shows "\<exists>fd d'. get_user_rec_buffer idx u d = Some (fd, d')"
  using assms(1)
proof (cases rule: pool_ok_cases)
  case empty
  with assms(2) show ?thesis by (auto simp: get_user_rec_buffer_def al5_bufpool_init_def)
next
  case (full bs hs)
  with assms(2) show ?thesis
    by (auto simp: get_user_rec_buffer_def al5_bufpool_reserve_fd_def array_get_def Let_def split_def)
qed

lemma al5e_user_get_rec_keeps:
  assumes "env_ok e" "rec_waits_ok e" "sys_ok s" "enc_inv u"
  shows "\<exists>err m' u' s'. al5e_user_get_rec e msg u s = Some (err, m', u', s') \<and> env_keeps (u, s) (u', s')"
proof (cases "mutex_trylock AL5_USER_REC u")
  case None
  then show ?thesis by (simp add: al5e_user_get_rec_def)
next
  case (Some v)
  have v: "env_keeps (u, s) (v, s)" using Some by (rule trylock_keeps)
  show ?thesis
  proof (cases "al5_chan_is_created v")
    case False
    with Some v show ?thesis by (simp add: al5e_user_get_rec_def)
  next
    case created: True
    show ?thesis
    proof (rule make_and_send_keeps [OF assms(3) al5_create_empty_mail_eq destroy_mail_wf])
      fix err s1
      assume m: "make_and_send (al5_create_empty_mail (u32_of_int (u_chan_uid v))
        (uid_code AL_MCU_MSG_GET_RECONSTRUCTED_PICTURE)) s = Some (err, s1)" "sys_ok s1"
      have v1: "env_keeps (u, s) (v, s1)" using v m(2) by (simp add: env_keeps_def)
      show ?thesis
      proof (cases "err = 0")
        case False
        with Some created m v1 show ?thesis by (simp add: al5e_user_get_rec_def)
      next
        case True
        show ?thesis
        proof (rule user_pop_mail [OF assms(1), where q = AL5_USER_MAIL_REC and u = v and s = s1])
          fix f u' s'
          assume p: "user_pop e AL5_USER_MAIL_REC v s1 = (f, u', s')" "env_keeps (v, s1) (u', s')"
            "\<And>x. f = Some x \<Longrightarrow> x \<in> set (q_list (u_queues
              (fst (snd (e_wait e AL5_USER_MAIL_REC (v, s1)))) AL5_USER_MAIL_REC))"
          have k: "env_keeps (u, s) (u', s')" using env_keeps_trans [OF v1 p(2)] .
          show ?thesis
          proof (cases f)
            case None
            with True Some created m p(1) k show ?thesis by (simp add: al5e_user_get_rec_def)
          next
            case f: (Some x)
            have "rec_ok v x" using p(3) [OF f] assms(2) unfolding rec_waits_ok_def by fastforce
            moreover have rb: "u_rec_buffers v = u_rec_buffers u'" using p(2) by (simp add: env_keeps_def)
            ultimately obtain w1 w2 w3 where w: "al5_mail_get_word x 1 = Some w1"
              "al5_mail_get_word x 2 = Some w2" "al5_mail_get_word x 3 = Some w3"
              "int_of_u32 w1 \<noteq> bp_count (u_rec_buffers u')"
              using le32_reads [of x 1] le32_reads [of x 2] le32_reads [of x 3]
              by (auto simp: rec_ok_def)
            have "pool_ok (u_rec_buffers u')"
              using assms(4) k by (simp add: env_keeps_def enc_inv_def pools_small_def pools_ok_def)
            from get_user_rec_buffer_returns [OF this w(4), of "hw_d s'"] obtain fd d where
              "get_user_rec_buffer (int_of_u32 w1) u' (hw_d s') = Some (fd, d)" by blast
            with True Some created m p(1) k f w(1-3) show ?thesis
              by (simp add: al5e_user_get_rec_def Let_def split: if_split)
          qed
        qed
      qed
    qed
  qed
qed


lemma al5_bufpool_get_id_returns:
  assumes "pool_ok p"
  shows "\<exists>i d'. al5_bufpool_get_id p fd d = Some (i, d')"
  using assms
proof (cases rule: pool_ok_cases)
  case empty
  then show ?thesis by (simp add: al5_bufpool_get_id_def al5_bufpool_init_def Let_def split_def)
next
  case (full bs hs)
  with find_handle_first [of "length hs" 0 hs] show ?thesis
    by (simp add: al5_bufpool_get_id_def Let_def split_def)
qed

lemma al5e_user_release_rec_keeps:
  assumes "sys_ok s" "enc_inv u"
  shows "\<exists>err u' s'. al5e_user_release_rec fd u s = Some (err, u', s') \<and> env_keeps (u, s) (u', s')"
proof (cases "mutex_trylock AL5_USER_REC u")
  case None
  then show ?thesis by (simp add: al5e_user_release_rec_def)
next
  case (Some v)
  have v: "env_keeps (u, s) (v, s)" using Some by (rule trylock_keeps)
  have "pool_ok (u_rec_buffers v)"
    using assms(2) v by (simp add: env_keeps_def enc_inv_def pools_small_def pools_ok_def)
  from al5_bufpool_get_id_returns [OF this] obtain i d where
    g: "al5_bufpool_get_id (u_rec_buffers v) (int_of_u32 fd) (hw_d s) = Some (i, d)" by blast
  have s1: "sys_ok (s\<lparr>hw_d := d\<rparr>)" using sys_ok_oracle(2) [OF assms(1)] .
  have mk: "al5_create_classic_mail c n (le32 w) 4 k = Some (Some (mail_of n (le32 c @ le32 w)), km_step 1 1 k)"
    if "km_ok k" "km_nofail k" for c n w k
  proof -
    have "fst (al5_mail_create n (uid_size + 4) k) \<noteq> None"
      by (rule al5_mail_create_Some [OF that, of n "uid_size + 4"]) simp
    then have "al5_create_classic_mail c n (le32 w) 4 k \<noteq> Some (None, km_step 1 0 k)"
      by (auto simp: al5_create_classic_mail_def split: prod.splits Option.bind_splits)
    with al5_create_classic_mail_cases [OF that(1), of 4 "le32 w" c n] show ?thesis by simp
  qed
  show ?thesis
  proof (rule make_and_send_keeps [OF s1 mk [where c = "u32_of_int (u_chan_uid v)"
        and n = "uid_code AL_MCU_MSG_RELEASE_RECONSTRUCTED_PICTURE" and w = "u32_of_int i"] destroy_mail_wf])
    fix err s'
    assume "make_and_send (al5_create_classic_mail (u32_of_int (u_chan_uid v))
        (uid_code AL_MCU_MSG_RELEASE_RECONSTRUCTED_PICTURE) (le32 (u32_of_int i)) 4)
      (s\<lparr>hw_d := d\<rparr>) = Some (err, s')" "sys_ok s'"
    moreover have "env_keeps (u, s) (v, s')" using v \<open>sys_ok s'\<close> by (simp add: env_keeps_def)
    ultimately show ?thesis
      using Some v g by (simp add: al5e_user_release_rec_def Let_def)
  qed
qed


section \<open>The dispatcher\<close>

text \<open>A result: the call returned, with the user and the state below in order.\<close>

definition enc_returns :: "enc_result \<Rightarrow> bool" where
  "enc_returns r \<longleftrightarrow> (\<exists>err w u s. r = Some (err, w, u, s) \<and> sys_ok s \<and> enc_inv u)"

lemma enc_returnsI [intro]: "sys_ok s \<Longrightarrow> enc_inv u \<Longrightarrow> enc_returns (Some (err, w, u, s))"
  by (auto simp: enc_returns_def)

lemma enc_returns_copied [simp]:
  "enc_returns (case copied b ret x of (ret, w) \<Rightarrow> Some (ret, w, u, s)) = (sys_ok s \<and> enc_inv u)"
  by (cases b) (auto simp: copied_def enc_returns_def)

lemma enc_kept:
  "env_keeps (u, s) (u', s') \<Longrightarrow> sys_ok s \<Longrightarrow> enc_inv u \<Longrightarrow> sys_ok s' \<and> enc_inv u'"
  using env_keeps_enc_inv [of u s u' s'] by (simp add: env_keeps_def)

lemma enc_config_returns:
  assumes "env_ok e" "answers_ok e" "sys_ok s" "enc_inv u" "enc_mem_ok mem"
  shows "enc_returns (enc_config_channel e mem u s)"
proof (cases "um_config mem")
  case None
  with assms show ?thesis by (auto simp: enc_config_channel_def)
next
  case (Some c)
  obtain p st where c: "c = (p, st)" by (cases c)
  with Some assms(5) have "params_ok p" "params_fit p" unfolding enc_mem_ok_def by blast+
  from al5e_user_create_channel_ok [OF assms(1-3) this assms(4), of st] Some c
  show ?thesis by (auto simp: enc_config_channel_def)
qed

lemma enc_destroy_returns:
  assumes "env_ok e" "sys_ok s" "enc_inv u"
  shows "enc_returns (enc_destroy_channel e u s)"
proof -
  have "pools_ok u"
    using assms(3) by (simp add: enc_inv_def pools_small_def)
  from al5_user_destroy_channel_ok [OF assms(1,2) this, of False] obtain err u' s' where
    d: "al5_user_destroy_channel e False u s = Some (err, u', s')" "sys_ok s'"
    "u' = u \<or> destroyed u' \<or> env_keeps (u, s) (u', s')"
    by (auto split: if_splits)
  then have "enc_inv u'" using enc_kept assms(2,3) destroyed_enc_inv by blast
  with d show ?thesis by (auto simp: enc_destroy_channel_def)
qed

lemma enc_wait_returns:
  assumes "env_ok e" "status_waits_ok e" "sys_ok s" "enc_inv u" "enc_mem_ok mem"
  shows "enc_returns (enc_wait_for_status e mem u s)"
proof (cases "um_params mem")
  case None
  with assms show ?thesis by (auto simp: enc_wait_for_status_def)
next
  case (Some p)
  with assms(5) have "params_ok p"
    by (simp add: enc_mem_ok_def)
  from al5e_user_wait_for_status_keeps [OF assms(1,2) this, of u s] enc_kept Some assms(3,4)
  show ?thesis by (auto simp: enc_wait_for_status_def)
qed

lemma enc_encode_returns:
  assumes "env_ok e" "sys_ok s" "enc_inv u" "enc_mem_ok mem"
  shows "enc_returns (enc_encode_one_frame e mem u s)"
proof (cases "um_encode mem")
  case None
  with assms show ?thesis by (auto simp: enc_encode_one_frame_def)
next
  case (Some msg)
  with assms(4) have "params_ok (enc_params msg)" "params_ok (enc_addresses msg)"
    "params_fit (enc_params msg)" "params_fit (enc_addresses msg)" by (simp_all add: enc_mem_ok_def)
  from al5e_user_encode_one_frame_keeps [OF assms(1,2) this, of u] enc_kept Some assms
  show ?thesis by (auto simp: enc_encode_one_frame_def)
qed

lemma enc_get_rec_returns:
  assumes "env_ok e" "um_rec mem \<noteq> None \<longrightarrow> rec_waits_ok e" "sys_ok s" "enc_inv u"
  shows "enc_returns (enc_get_rec e mem u s)"
proof (cases "um_rec mem")
  case None
  with assms show ?thesis by (auto simp: enc_get_rec_def)
next
  case (Some msg)
  with assms(2) have "rec_waits_ok e" by simp
  from al5e_user_get_rec_keeps [OF assms(1) this assms(3,4), of msg] enc_kept Some assms(3,4)
  show ?thesis by (auto simp: enc_get_rec_def)
qed

lemma enc_release_rec_returns:
  assumes "sys_ok s" "enc_inv u"
  shows "enc_returns (enc_release_rec mem u s)"
proof (cases "um_fd mem")
  case None
  with assms show ?thesis by (auto simp: enc_release_rec_def)
next
  case (Some fd)
  from al5e_user_release_rec_keeps [OF assms, of fd] obtain err u' s' where
    r: "al5e_user_release_rec fd u s = Some (err, u', s')" "env_keeps (u, s) (u', s')" by blast
  with enc_kept [OF r(2) assms] Some show ?thesis by (auto simp: enc_release_rec_def)
qed

lemma enc_put_returns:
  assumes "sys_ok s" "enc_inv u"
  shows "enc_returns (enc_put_stream_buffer mem u s)"
proof (cases "um_buffer mem")
  case None
  with assms show ?thesis by (auto simp: enc_put_stream_buffer_def)
next
  case (Some b)
  from al5e_user_put_stream_buffer_keeps [OF assms(1), of b u] Some assms
  show ?thesis by (auto simp: enc_put_stream_buffer_def)
qed

lemma enc_dma_returns:
  assumes "enc_inv u" "sys_ok (snd (snd (op (um_dma mem) (um_writable mem) s)))"
  shows "enc_returns (enc_dma op mem u s)"
  using assms by (auto simp: enc_dma_def split_def Let_def)

text \<open>Only the command that reads a reconstructed picture needs the contract on their numbers.\<close>

lemma al5e_ioctl_returns_if:
  assumes "env_ok e" "answers_ok e" "status_waits_ok e" "um_rec mem \<noteq> None \<longrightarrow> rec_waits_ok e"
    and "sys_ok s" "enc_inv u" "enc_mem_ok mem"
  shows "enc_returns (al5e_ioctl e cmd mem u s)"
  unfolding al5e_ioctl_def
  using assms(5,6) enc_config_returns [OF assms(1,2,5-7)] enc_destroy_returns [OF assms(1,5,6)]
    enc_wait_returns [OF assms(1,3,5-7)] enc_encode_returns [OF assms(1,5-7)]
    enc_get_rec_returns [OF assms(1,4-6)]
    enc_release_rec_returns [OF assms(5,6)] enc_put_returns [OF assms(5,6)]
    enc_dma_returns [OF assms(6)] ioctl_dma_ok [OF assms(5)]
  by (simp add: enc_returnsI)

lemma al5e_ioctl_returns:
  assumes "enc_env_ok e" "sys_ok s" "enc_inv u" "enc_mem_ok mem"
  shows "enc_returns (al5e_ioctl e cmd mem u s)"
  using assms by (intro al5e_ioctl_returns_if) (simp_all add: enc_env_ok_def waits_ok_def)

text \<open>The mutexes, for every command and every path.\<close>

lemma copied_Some:
  "(case copied b ret x of (ret, w) \<Rightarrow> Some (ret, w, u, s)) = Some (err, w', u', s') \<Longrightarrow> u' = u"
  by (cases b) (auto simp: copied_def)

lemma al5e_ioctl_lock:
  assumes "env_leaves_lock e op" "al5e_ioctl e cmd mem u s = Some (err, w, u', s')"
  shows "u_locks u' op = u_locks u op"
  using assms(2)
    al5e_user_create_channel_lock [OF assms(1)] al5_user_destroy_channel_lock [OF assms(1)]
    al5e_user_wait_for_status_lock [OF assms(1)] al5e_user_encode_one_frame_lock [OF assms(1)]
    al5e_user_get_rec_lock [OF assms(1)] al5e_user_release_rec_lock copied_Some
  unfolding al5e_ioctl_def enc_config_channel_def enc_destroy_channel_def enc_wait_for_status_def
    enc_encode_one_frame_def enc_get_rec_def enc_release_rec_def enc_put_stream_buffer_def enc_dma_def
  by (auto split: if_splits option.splits Option.bind_splits prod.splits)


section \<open>The life of an open file\<close>

text \<open>A command with the threads it runs among and the caller's memory, both within their
  contracts.\<close>

definition enc_call :: "u32 \<Rightarrow> env \<times> enc_user_mem \<Rightarrow> al5_user \<Rightarrow> hw \<Rightarrow> enc_result" where
  "enc_call cmd em = al5e_ioctl (fst em) cmd (snd em)"

definition enc_call_ok :: "env \<times> enc_user_mem \<Rightarrow> bool" where
  "enc_call_ok em \<longleftrightarrow> enc_env_ok (fst em) \<and> enc_mem_ok (snd em)"

interpretation enc_file: command_file enc_call enc_call_ok enc_inv
proof
  show "enc_inv (al5_user_init uid)" for uid by (rule enc_inv_init)
  show "enc_inv u'" if "env_keeps (u, s) (u', s')" "enc_inv u" for u s u' s'
    using env_keeps_enc_inv [OF that(1)] that(2) by simp
  show "\<exists>err w u' s'. enc_call cmd em u s = Some (err, w, u', s') \<and> sys_ok s' \<and> enc_inv u'"
    if "sys_ok s" "enc_inv u" "enc_call_ok em" for cmd em u s
    using al5e_ioctl_returns [of "fst em" s u "snd em" cmd] that
    by (simp add: enc_call_def enc_call_ok_def enc_returns_def)
qed

text \<open>The thread that answers the creation and nothing else, for the witnesses.\<close>

definition enc_answer_env :: env where
  "enc_answer_env = \<lparr>e_lock = e_lock (calm_env 0),
     e_wait = (\<lambda>q st. (1, set_queue q
       \<lparr>q_list = (if q = AL5_USER_MAIL_CREATE
          then [mail_of (uid_code AL_MCU_MSG_CREATE_CHANNEL) (bytes_of_feedback feedback5)] else []),
        q_locked = False\<rparr> (fst st), snd st))\<rparr>"

lemma enc_answer_env_ok: "enc_env_ok enc_answer_env" "env_leaves_lock enc_answer_env op"
proof -
  have "env_ok enc_answer_env"
    by (auto simp: env_ok_def enc_answer_env_def calm_env_def env_keeps_def set_queue_def)
  moreover have "answers_ok enc_answer_env"
    using answer_env_ok(2)
    by (simp add: answers_ok_def create_answers_def enc_answer_env_def answer_env_def set_queue_def
        wait_timeout_result_def mail_is_available_def)
  moreover have "waits_ok enc_answer_env"
    by (simp add: waits_ok_def status_waits_ok_def rec_waits_ok_def enc_answer_env_def set_queue_def)
  ultimately show "enc_env_ok enc_answer_env" by (simp add: enc_env_ok_def)
  show "env_leaves_lock enc_answer_env op"
    by (auto simp: env_leaves_lock_def enc_answer_env_def calm_env_def)
qed

definition enc_mem0 :: enc_user_mem where
  "enc_mem0 = \<lparr>um_config = Some (params0, status0), um_params = None, um_encode = None, um_rec = None,
     um_fd = None, um_buffer = None, um_dma = None, um_writable = True\<rparr>"

lemma enc_mem0_ok: "enc_mem_ok enc_mem0"
  by (simp add: enc_mem_ok_def enc_mem0_def)

section \<open>Properties\<close>

text \<open>An open encoder file is never stuck and never corrupt. After any run of commands with
  arguments that fit, in any order, interleaved with other threads that keep their contract, the
  driver's structures are in order (mailboxes, allocator, pools, the checkpoint of a creation in
  progress), and every further command, known or not, returns.\<close>

theorem enc_file_safe:
  assumes "file_reachable enc_call enc_call_ok (u, s)" "enc_env_ok e" "enc_mem_ok mem"
  shows "sys_ok s \<and> enc_inv u \<and> (\<exists>err w u' s'. al5e_ioctl e cmd mem u s = Some (err, w, u', s') \<and>
    file_reachable enc_call enc_call_ok (u', s'))"
  using enc_file.safe [OF assms(1), of "(e, mem)" cmd] assms(2,3)
  by (simp add: enc_call_def enc_call_ok_def)

theorem enc_file_safe_witness:
  "\<exists>err w u s. al5e_ioctl enc_answer_env ENC_CONFIG_CHANNEL enc_mem0 (al5_user_init 2) hw0 =
      Some (err, w, u, s) \<and> sys_ok s \<and> enc_inv u"
proof -
  have "file_reachable enc_call enc_call_ok (al5_user_init 2, hw0)"
    using hw0_ok(1) by (rule file_reachable.bound)
  from enc_file_safe [OF this enc_answer_env_ok(1) enc_mem0_ok, of ENC_CONFIG_CHANNEL]
  obtain err w u s where r: "al5e_ioctl enc_answer_env ENC_CONFIG_CHANNEL enc_mem0 (al5_user_init 2) hw0 =
    Some (err, w, u, s)" "file_reachable enc_call enc_call_ok (u, s)" by blast
  from enc_file_safe [OF r(2) enc_answer_env_ok(1) enc_mem0_ok] r(1) show ?thesis by blast
qed

text \<open>C23: every command gives its mutexes back. Whatever the command, its argument and the path it
  takes (unreadable memory, interrupted wait, full mailbox, failed allocation), each mutex the
  other threads leave alone is as it was.\<close>

theorem al5e_ioctl_balanced:
  assumes "env_leaves_lock e op" "al5e_ioctl e cmd mem u s = Some (err, w, u', s')"
  shows "u_locks u' op = u_locks u op"
  using assms by (rule al5e_ioctl_lock)

theorem al5e_ioctl_balanced_witness:
  "\<exists>err w u s. al5e_ioctl enc_answer_env ENC_CONFIG_CHANNEL enc_mem0 (al5_user_init 2) hw0 =
      Some (err, w, u, s) \<and> \<not> u_locks u AL5_USER_CREATE"
proof -
  obtain err w u s where r: "al5e_ioctl enc_answer_env ENC_CONFIG_CHANNEL enc_mem0 (al5_user_init 2) hw0 =
    Some (err, w, u, s)"
    using al5e_ioctl_returns [OF enc_answer_env_ok(1) hw0_ok(1) enc_inv_init enc_mem0_ok]
    unfolding enc_returns_def by blast
  with al5e_ioctl_balanced [OF enc_answer_env_ok(2) r, of AL5_USER_CREATE] show ?thesis
    by (auto simp: al5_user_init_def)
qed

end
