(* ===== verification/Dec_Mails.thy ===== *)
theory Dec_Mails
  imports Enc_Mails
begin

text \<open>
  The messages of the decoder driver (\<open>al5d/dec_mails_factory.c\<close>, the structures of
  \<open>al5d/al_dec_ioctl.h\<close>). \<open>struct al5_params\<close> has the same layout in both drivers.
\<close>

section \<open>Structures\<close>

record al5_decode_msg =
  dec_params :: al5_params
  dec_addresses :: al5_params
  slice_param_v :: u32

record al5_search_sc_msg =
  sc_param :: al5_params
  sc_buffer_addrs :: al5_params

text \<open>A 16-bit and a 32-bit field, with two bytes of padding between them.\<close>

record al5_scstatus =
  num_sc :: u16
  num_bytes :: u32

section \<open>The code\<close>

definition al5d_mail_get_status :: "al5_params \<Rightarrow> al5_mail \<Rightarrow> al5_params option" where
  "al5d_mail_get_status status mail = do {
     let n = (ucast (body_size mail) :: u32) - 4;
     bs \<leftarrow> copy_into (params_opaque status) 0 (drop 4 (body mail)) (unat n);
     Some (status\<lparr>params_size := n, params_opaque := bs\<rparr>)
   }"

definition al5d_mail_get_sc_status :: "al5_mail \<Rightarrow> al5_scstatus option" where
  "al5d_mail_get_sc_status mail = do {
     a \<leftarrow> load32 (body mail) 4;
     b \<leftarrow> load32 (body mail) 8;
     Some \<lparr>num_sc = ucast a, num_bytes = b\<rparr>
   }"

definition write_decode_mail :: "al5_mail option \<Rightarrow> u32 \<Rightarrow> al5_decode_msg \<Rightarrow> al5_mail option" where
  "write_decode_mail mail chan_uid msg = do {
     mail \<leftarrow> deref mail;
     mail \<leftarrow> al5_mail_write_word mail chan_uid;
     mail \<leftarrow> al5_mail_write mail (params_opaque (dec_params msg)) (params_size (dec_params msg));
     mail \<leftarrow> al5_mail_write mail (params_opaque (dec_addresses msg)) (params_size (dec_addresses msg));
     al5_mail_write_word mail (slice_param_v msg)
   }"

definition al5d_create_decode_one_slice_msg ::
    "u32 \<Rightarrow> al5_decode_msg \<Rightarrow> kmem \<Rightarrow> (al5_mail option \<times> kmem) option" where
  "al5d_create_decode_one_slice_msg chan_uid msg k =
     (let mail_size = 4 + params_size (dec_params msg) + params_size (dec_addresses msg) + 4;
          (mail, k) = al5_mail_create (uid_code AL_MCU_MSG_DECODE_ONE_SLICE) mail_size k
      in do { mail \<leftarrow> write_decode_mail mail chan_uid msg; Some (Some mail, k) })"

definition al5d_create_decode_one_frame_msg ::
    "u32 \<Rightarrow> al5_decode_msg \<Rightarrow> kmem \<Rightarrow> (al5_mail option \<times> kmem) option" where
  "al5d_create_decode_one_frame_msg chan_uid msg k =
     (let mail_size = 4 + params_size (dec_params msg) + params_size (dec_addresses msg) + 4;
          (mail, k) = al5_mail_create (uid_code AL_MCU_MSG_DECODE_ONE_FRM) mail_size k
      in do { mail \<leftarrow> write_decode_mail mail chan_uid msg; Some (Some mail, k) })"

definition al5d_create_channel_param_msg ::
    "u32 \<Rightarrow> al5_params \<Rightarrow> kmem \<Rightarrow> (al5_mail option \<times> kmem) option" where
  "al5d_create_channel_param_msg user_uid msg k =
     (let mail_size = 4 + params_size msg;
          (mail, k) = al5_mail_create (uid_code AL_MCU_MSG_CREATE_CHANNEL) mail_size k
      in do {
        mail \<leftarrow> deref mail;
        mail \<leftarrow> al5_mail_write_word mail user_uid;
        mail \<leftarrow> al5_mail_write mail (params_opaque msg) (params_size msg);
        Some (Some mail, k)
      })"

definition al5d_create_search_sc_mail ::
    "u32 \<Rightarrow> al5_search_sc_msg \<Rightarrow> kmem \<Rightarrow> (al5_mail option \<times> kmem) option" where
  "al5d_create_search_sc_mail user_uid msg k =
     (let mail_size = 4 + params_size (sc_param msg) + params_size (sc_buffer_addrs msg);
          (mail, k) = al5_mail_create (uid_code AL_MCU_MSG_SEARCH_START_CODE) mail_size k
      in do {
        mail \<leftarrow> deref mail;
        mail \<leftarrow> al5_mail_write_word mail user_uid;
        mail \<leftarrow> al5_mail_write mail (params_opaque (sc_param msg)) (params_size (sc_param msg));
        mail \<leftarrow> al5_mail_write mail (params_opaque (sc_buffer_addrs msg))
                  (params_size (sc_buffer_addrs msg));
        Some (Some mail, k)
      })"

section \<open>What is built\<close>

definition decode_msg_fit :: "al5_decode_msg \<Rightarrow> bool" where
  "decode_msg_fit m \<longleftrightarrow> params_ok (dec_params m) \<and> params_ok (dec_addresses m) \<and>
     params_fit (dec_params m) \<and> params_fit (dec_addresses m)"

definition decode_body :: "u32 \<Rightarrow> al5_decode_msg \<Rightarrow> u8 list" where
  "decode_body chan m = le32 chan @ params_data (dec_params m) @ params_data (dec_addresses m) @
     le32 (slice_param_v m)"

lemma params_fitD:
  "params_ok p \<Longrightarrow> params_fit p \<Longrightarrow> unat (params_size p) \<le> 512 \<and> length (params_opaque p) = 512"
  by (simp add: params_ok_def params_fit_def params_bytes_def)

lemma write_decode_mail_eq:
  assumes "decode_msg_fit m"
    and "length rest = 8 + unat (params_size (dec_params m)) + unat (params_size (dec_addresses m))"
  shows "write_decode_mail (Some (partial_mail uid [] rest)) chan m = Some (mail_of uid (decode_body chan m))"
proof -
  let ?a = "params_size (dec_params m)" and ?b = "params_size (dec_addresses m)"
  have n: "unat ?a \<le> 512" "unat ?b \<le> 512" "length (params_opaque (dec_params m)) = 512"
    "length (params_opaque (dec_addresses m)) = 512"
    using assms(1) params_fitD by (simp_all add: decode_msg_fit_def)
  with assms(2) show ?thesis
    by (simp add: write_decode_mail_def al5_mail_write_word_partial al5_mail_write_partial
        partial_mail_complete params_data_def decode_body_def)
qed

lemma decode_mail_size:
  assumes "decode_msg_fit m"
  shows "unat (4 + params_size (dec_params m) + params_size (dec_addresses m) + 4) =
    8 + unat (params_size (dec_params m)) + unat (params_size (dec_addresses m))"
proof -
  let ?a = "params_size (dec_params m)" and ?b = "params_size (dec_addresses m)"
  have n: "unat ?a \<le> 512" "unat ?b \<le> 512"
    using assms(1) params_fitD by (simp_all add: decode_msg_fit_def)
  then have "unat (4 + ?a + ?b) = 4 + unat ?a + unat ?b" by (subst unat_add3) simp_all
  with n show ?thesis by (simp add: unat_add_small)
qed

lemma al5d_create_decode_eq:
  assumes "km_ok k" "km_nofail k" "decode_msg_fit m"
  shows "al5d_create_decode_one_frame_msg chan m k =
      Some (Some (mail_of (uid_code AL_MCU_MSG_DECODE_ONE_FRM) (decode_body chan m)), km_step 1 1 k)"
    "al5d_create_decode_one_slice_msg chan m k =
      Some (Some (mail_of (uid_code AL_MCU_MSG_DECODE_ONE_SLICE) (decode_body chan m)), km_step 1 1 k)"
proof -
  let ?n = "4 + params_size (dec_params m) + params_size (dec_addresses m) + 4"
  have c: "\<exists>rest. al5_mail_create u ?n k = (Some (partial_mail u [] rest), km_step 1 1 k) \<and>
      length rest = unat ?n" for u
    using al5_mail_create_Some [OF assms(1,2), of u ?n] by blast
  show "al5d_create_decode_one_frame_msg chan m k =
      Some (Some (mail_of (uid_code AL_MCU_MSG_DECODE_ONE_FRM) (decode_body chan m)), km_step 1 1 k)"
    using c [of "uid_code AL_MCU_MSG_DECODE_ONE_FRM"] decode_mail_size [OF assms(3)]
      write_decode_mail_eq [OF assms(3)]
    by (auto simp: al5d_create_decode_one_frame_msg_def Let_def)
  show "al5d_create_decode_one_slice_msg chan m k =
      Some (Some (mail_of (uid_code AL_MCU_MSG_DECODE_ONE_SLICE) (decode_body chan m)), km_step 1 1 k)"
    using c [of "uid_code AL_MCU_MSG_DECODE_ONE_SLICE"] decode_mail_size [OF assms(3)]
      write_decode_mail_eq [OF assms(3)]
    by (auto simp: al5d_create_decode_one_slice_msg_def Let_def)
qed

lemma al5d_create_channel_param_msg_eq:
  assumes "km_ok k" "km_nofail k" "params_ok p" "params_fit p"
  shows "al5d_create_channel_param_msg user p k =
    Some (Some (mail_of (uid_code AL_MCU_MSG_CREATE_CHANNEL) (le32 user @ params_data p)), km_step 1 1 k)"
proof -
  have n: "unat (params_size p) \<le> 512" "length (params_opaque p) = 512"
    using params_fitD [OF assms(3,4)] by simp_all
  obtain rest where "al5_mail_create (uid_code AL_MCU_MSG_CREATE_CHANNEL) (4 + params_size p) k =
      (Some (partial_mail (uid_code AL_MCU_MSG_CREATE_CHANNEL) [] rest), km_step 1 1 k)"
    "length rest = unat (4 + params_size p)"
    using assms(1,2) by (rule al5_mail_create_Some)
  moreover have "unat (4 + params_size p) = 4 + unat (params_size p)"
    using n by (simp add: unat_add_small)
  ultimately show ?thesis
    using n by (simp add: al5d_create_channel_param_msg_def al5_mail_write_word_partial
        al5_mail_write_partial partial_mail_complete params_data_def)
qed

lemma al5d_create_search_sc_eq:
  assumes "km_ok k" "km_nofail k" "params_ok (sc_param m)" "params_fit (sc_param m)"
    and "params_ok (sc_buffer_addrs m)" "params_fit (sc_buffer_addrs m)"
  shows "al5d_create_search_sc_mail user m k =
    Some (Some (mail_of (uid_code AL_MCU_MSG_SEARCH_START_CODE)
      (le32 user @ params_data (sc_param m) @ params_data (sc_buffer_addrs m))), km_step 1 1 k)"
proof -
  let ?a = "params_size (sc_param m)" and ?b = "params_size (sc_buffer_addrs m)"
  have n: "unat ?a \<le> 512" "unat ?b \<le> 512" "length (params_opaque (sc_param m)) = 512"
    "length (params_opaque (sc_buffer_addrs m)) = 512"
    using params_fitD assms(3-6) by simp_all
  obtain rest where "al5_mail_create (uid_code AL_MCU_MSG_SEARCH_START_CODE) (4 + ?a + ?b) k =
      (Some (partial_mail (uid_code AL_MCU_MSG_SEARCH_START_CODE) [] rest), km_step 1 1 k)"
    "length rest = unat (4 + ?a + ?b)"
    using assms(1,2) by (rule al5_mail_create_Some)
  moreover have "unat (4 + ?a + ?b) = 4 + unat ?a + unat ?b"
    using n by (subst unat_add3) simp_all
  ultimately show ?thesis
    using n by (simp add: al5d_create_search_sc_mail_def al5_mail_write_word_partial
        al5_mail_write_partial partial_mail_complete params_data_def)
qed

section \<open>Properties\<close>

text \<open>The decode message. The two sizes come from user space and are not checked. Sizes within the
  512-byte arrays give the channel, the two parameter blocks and the slice word, in a block of
  exactly that size; larger ones make the copies read past the arrays.\<close>

theorem al5d_create_decode_spec:
  assumes "km_ok k" "km_nofail k" "params_ok (dec_params m)" "params_ok (dec_addresses m)"
  shows "al5d_create_decode_one_frame_msg chan m k =
    (if params_fit (dec_params m) \<and> params_fit (dec_addresses m)
     then Some (Some (mail_of (uid_code AL_MCU_MSG_DECODE_ONE_FRM)
       (le32 chan @ params_data (dec_params m) @ params_data (dec_addresses m) @
        le32 (slice_param_v m))), km_step 1 1 k)
     else None)"
proof (cases "params_fit (dec_params m) \<and> params_fit (dec_addresses m)")
  case True
  then have "decode_msg_fit m" using assms(3,4) by (simp add: decode_msg_fit_def)
  with True al5d_create_decode_eq(1) [OF assms(1,2)] show ?thesis by (simp add: decode_body_def)
next
  case False
  then have "write_decode_mail mail chan m = None" for mail
  proof (cases "params_fit (dec_params m)")
    case True
    then have "al5_mail_write x (params_opaque (dec_addresses m)) (params_size (dec_addresses m)) = None" for x
      using False assms(4) by (intro write_too_long) (simp add: params_ok_def params_fit_def)
    then show ?thesis by (simp add: write_decode_mail_def bind_None_right)
  next
    case False
    then have "al5_mail_write x (params_opaque (dec_params m)) (params_size (dec_params m)) = None" for x
      using assms(3) by (intro write_too_long) (simp add: params_ok_def params_fit_def)
    then show ?thesis by (simp add: write_decode_mail_def bind_None_right)
  qed
  with False show ?thesis by (auto simp: al5d_create_decode_one_frame_msg_def Let_def split: prod.split)
qed

definition decode0 :: al5_decode_msg where
  "decode0 = \<lparr>dec_params = params0, dec_addresses = params0, slice_param_v = 5\<rparr>"

theorem al5d_create_decode_spec_witness:
  "al5d_create_decode_one_frame_msg 3 decode0 kmem0 =
     Some (Some (mail_of (uid_code AL_MCU_MSG_DECODE_ONE_FRM)
       (le32 3 @ params_data params0 @ params_data params0 @ le32 5)), km_step 1 1 kmem0)"
  by (subst al5d_create_decode_spec) (simp_all add: decode0_def)

end
