(* ===== verification/Dec_User.thy ===== *)
theory Dec_User
  imports Enc_User Dec_Mails
begin

text \<open>
  The operations of a decoder channel (\<open>al5d/dec_user.c\<close>): creation, frames, slices, status and
  the search for start codes. The contracts of the waits are those of the encoder.
\<close>

section \<open>The code\<close>

record al5d_channel_status =
  dst_num_core :: u8
  dst_error_code :: u32

definition al5d_update_chan_param :: "al5d_channel_status \<Rightarrow> al5_mail \<Rightarrow> al5d_channel_status option" where
  "al5d_update_chan_param status mail = do {
     tmp_num_core \<leftarrow> load32 (body mail) 8;
     error_code \<leftarrow> load32 (body mail) 12;
     Some (status\<lparr>dst_error_code := error_code, dst_num_core := ucast tmp_num_core\<rparr>)
   }"

definition init_chan :: "al5_mail \<Rightarrow> al5_user \<Rightarrow> (int \<times> al5_user) option" where
  "init_chan mail u = do {
     chan \<leftarrow> al5_mail_get_chan_uid mail;
     let u = u\<lparr>u_chan_uid := int_of_u32 chan\<rparr>;
     if \<not> al5_chan_is_created u then Some (- EINVAL, u) else Some (0, u)
   }"

definition al5d_user_create_channel ::
    "env \<Rightarrow> al5_params \<Rightarrow> al5d_channel_status \<Rightarrow> al5_user \<Rightarrow> hw
      \<Rightarrow> (int \<times> al5d_channel_status \<times> al5_user \<times> hw) option" where
  "al5d_user_create_channel e param status u s = do {
     (err, u, s) \<leftarrow> mutex_lock_killable e AL5_USER_CREATE u s;
     if err = - EINTR then Some (err, status, u, s)
     else if al5_chan_is_created u then Some (- EPERM, status, mutex_unlock AL5_USER_CREATE u, s)
     else do {
       (err, s) \<leftarrow> make_and_send (al5d_create_channel_param_msg (u32_of_int (u_uid u)) param) s;
       if err \<noteq> 0 then Some (err, status, mutex_unlock AL5_USER_CREATE u, s)
       else let (err, feedback, u, s) = user_pop_timeout e AL5_USER_MAIL_CREATE u s
       in if err \<noteq> 0 then Some (err, status, mutex_unlock AL5_USER_CREATE u, s)
       else do {
         m \<leftarrow> deref feedback;
         status \<leftarrow> al5d_update_chan_param status m;
         (err, u) \<leftarrow> init_chan m u;
         Some (err, status, mutex_unlock AL5_USER_CREATE u,
               s\<lparr>hw_k := al5_free_mail feedback (hw_k s)\<rparr>)
       }
     }
   }"

text \<open>The two operations differ in the message only.\<close>

definition send_for_channel ::
    "(u32 \<Rightarrow> kmem \<Rightarrow> (al5_mail option \<times> kmem) option) \<Rightarrow> env \<Rightarrow> al5_user \<Rightarrow> hw
      \<Rightarrow> (int \<times> al5_user \<times> hw) option" where
  "send_for_channel mk e u s = do {
     (err, u, s) \<leftarrow> mutex_lock_killable e AL5_USER_XCODE u s;
     if err = - EINTR then Some (err, u, s)
     else if \<not> al5_chan_is_created u then Some (- EPERM, mutex_unlock AL5_USER_XCODE u, s)
     else do {
       (err, s) \<leftarrow> make_and_send (mk (u32_of_int (u_chan_uid u))) s;
       Some (err, mutex_unlock AL5_USER_XCODE u, s)
     }
   }"

definition al5d_user_decode_one_slice ::
    "env \<Rightarrow> al5_decode_msg \<Rightarrow> al5_user \<Rightarrow> hw \<Rightarrow> (int \<times> al5_user \<times> hw) option" where
  "al5d_user_decode_one_slice e msg =
     send_for_channel (\<lambda>c. al5d_create_decode_one_slice_msg c msg) e"

definition al5d_user_decode_one_frame ::
    "env \<Rightarrow> al5_decode_msg \<Rightarrow> al5_user \<Rightarrow> hw \<Rightarrow> (int \<times> al5_user \<times> hw) option" where
  "al5d_user_decode_one_frame e msg =
     send_for_channel (\<lambda>c. al5d_create_decode_one_frame_msg c msg) e"

definition al5d_user_search_start_code ::
    "al5_search_sc_msg \<Rightarrow> al5_user \<Rightarrow> hw \<Rightarrow> (int \<times> hw) option" where
  "al5d_user_search_start_code msg u s =
     make_and_send (al5d_create_search_sc_mail (u32_of_int (u_uid u)) msg) s"

definition al5d_user_wait_for_status ::
    "env \<Rightarrow> al5_params \<Rightarrow> al5_user \<Rightarrow> hw \<Rightarrow> (int \<times> al5_params \<times> al5_user \<times> hw) option" where
  "al5d_user_wait_for_status e msg u s =
     (case mutex_trylock AL5_USER_STATUS u of
        None \<Rightarrow> Some (- EINTR, msg, u, s)
      | Some u \<Rightarrow>
          if \<not> al5_chan_is_created u then Some (- EPERM, msg, mutex_unlock AL5_USER_STATUS u, s)
          else let (feedback, u, s) = user_pop e AL5_USER_MAIL_STATUS u s
          in do {
            (err, msg) \<leftarrow> (case feedback of
                None \<Rightarrow> Some (- EINTR, msg)
              | Some m \<Rightarrow> do { msg \<leftarrow> al5d_mail_get_status msg m; Some (0, msg) });
            Some (err, msg, mutex_unlock AL5_USER_STATUS u,
                  s\<lparr>hw_k := al5_free_mail feedback (hw_k s)\<rparr>)
          })"

definition al5d_user_wait_for_start_code ::
    "env \<Rightarrow> al5_scstatus \<Rightarrow> al5_user \<Rightarrow> hw \<Rightarrow> (int \<times> al5_scstatus \<times> al5_user \<times> hw) option" where
  "al5d_user_wait_for_start_code e msg u s =
     (case mutex_trylock AL5_USER_SC u of
        None \<Rightarrow> Some (- EINTR, msg, u, s)
      | Some u \<Rightarrow>
          let (feedback, u, s) = user_pop e AL5_USER_MAIL_SC u s
          in do {
            (err, msg) \<leftarrow> (case feedback of
                None \<Rightarrow> Some (- EINTR, msg)
              | Some m \<Rightarrow> do { msg \<leftarrow> al5d_mail_get_sc_status m; Some (0, msg) });
            Some (err, msg, mutex_unlock AL5_USER_SC u,
                  s\<lparr>hw_k := al5_free_mail feedback (hw_k s)\<rparr>)
          })"

section \<open>Answers to a creation\<close>

text \<open>An answer of the firmware has four words; its first is the channel.\<close>

definition dec_answer_ok :: "al5_mail \<Rightarrow> bool" where
  "dec_answer_ok m \<longleftrightarrow> al5_mail_get_uid m = uid_code AL_MCU_MSG_CREATE_CHANNEL \<and> 16 \<le> length (body m)"

definition dec_answers_ok :: "env \<Rightarrow> bool" where
  "dec_answers_ok = create_answers dec_answer_ok"

lemmas dec_pop_timeout = pop_create_answer [where ok = dec_answer_ok, folded dec_answers_ok_def]

lemma init_chan_ok:
  assumes "dec_answer_ok m"
  shows "\<exists>err c. init_chan m u = Some (err, u\<lparr>u_chan_uid := c\<rparr>) \<and>
    (if err = 0 then c \<noteq> BAD_CHAN else err = - EINVAL \<and> c = BAD_CHAN)"
proof -
  from assms obtain w where "al5_mail_get_word m 0 = Some w"
    by (auto simp: dec_answer_ok_def al5_mail_get_word_def load32_def)
  with assms have c: "al5_mail_get_chan_uid m = Some w"
    by (simp add: al5_mail_get_chan_uid_def dec_answer_ok_def Let_def)
  show ?thesis
  proof (cases "int_of_u32 w = BAD_CHAN")
    case True
    with c show ?thesis
      by (intro exI [of _ "- EINVAL"] exI [of _ BAD_CHAN])
         (simp add: init_chan_def al5_chan_is_created_def Let_def)
  next
    case False
    with c show ?thesis
      by (intro exI [of _ 0] exI [of _ "int_of_u32 w"])
         (simp add: init_chan_def al5_chan_is_created_def Let_def)
  qed
qed

section \<open>The outcomes of a creation\<close>

lemma al5d_user_create_channel_ok:
  assumes "env_ok e" "dec_answers_ok e" "sys_ok s" "params_ok p" "params_fit p"
  shows "\<exists>err st u' s'. al5d_user_create_channel e p status u s = Some (err, st, u', s') \<and> sys_ok s' \<and>
    same_rest u u' \<and>
    (err = 0 \<longrightarrow> al5_chan_is_created u' \<and> \<not> al5_chan_is_created u) \<and>
    (err \<noteq> 0 \<longrightarrow> al5_chan_is_created u' = al5_chan_is_created u) \<and>
    err \<in> {0, - EPERM, - EAGAIN, - EINTR, - EINVAL} \<and>
    (fst (e_lock e AL5_USER_CREATE (u, s)) = 0 \<longrightarrow> \<not> u_locks u' AL5_USER_CREATE)"
  using assms(1)
proof (cases rule: mutex_lock_killable_ok [where op = AL5_USER_CREATE and u = u and s = s])
  case (killed u1 s1)
  with assms(3) show ?thesis
    by (auto simp: al5d_user_create_channel_def env_keeps_def same_rest_def al5_chan_is_created_def)
next
  case (taken u0 u1 s1)
  from taken(2) assms(3) have s1: "sys_ok s1" and r1: "same_rest u u1"
    and c1: "al5_chan_is_created u1 = al5_chan_is_created u"
    by (simp_all add: env_keeps_def same_rest_def al5_chan_is_created_def)
  have un: "same_rest u (mutex_unlock op v)" if "same_rest u v" for op v
    using that by (simp add: same_rest_def mutex_unlock_def)
  have cu: "al5_chan_is_created (mutex_unlock op v) = al5_chan_is_created v" for op v
    by (simp add: mutex_unlock_def al5_chan_is_created_def)
  let ?mk = "al5d_create_channel_param_msg (u32_of_int (u_uid u1)) p"
  show ?thesis
  proof (cases "al5_chan_is_created u1")
    case True
    with taken(1) s1 un [OF r1] c1 cu show ?thesis by (simp add: al5d_user_create_channel_def)
  next
    case nc: False
    obtain err s2 where m: "make_and_send ?mk s1 = Some (err, s2)" "sys_ok s2" "err \<in> {0, - EAGAIN}"
      using make_and_send_ok [where mk = ?mk, OF s1 al5d_create_channel_param_msg_eq
        [OF _ _ assms(4,5)] destroy_mail_wf] by blast
    show ?thesis
    proof (cases "err = 0")
      case False
      with taken(1) nc m un [OF r1] c1 cu show ?thesis by (auto simp: al5d_user_create_channel_def)
    next
      case e0: True
      from dec_pop_timeout [OF assms(1,2), of u1 s2] obtain err2 fm u2 s3 where
        p: "user_pop_timeout e AL5_USER_MAIL_CREATE u1 s2 = (err2, fm, u2, s3)"
        "env_keeps (u1, s2) (u2, s3)"
        "err2 = 0 \<and> (\<exists>x. fm = Some x \<and> dec_answer_ok x) \<or> err2 \<in> {- EINTR, - EINVAL} \<and> fm = None"
        by blast
      from p(2) m(2) r1 have s3: "sys_ok s3" and r2: "same_rest u u2"
        and c2: "al5_chan_is_created u2 = al5_chan_is_created u1"
        by (simp_all add: env_keeps_def same_rest_def al5_chan_is_created_def)
      show ?thesis
      proof (cases "err2 = 0")
        case False
        with taken(1) nc m(1) e0 p s3 un [OF r2] c1 c2 cu show ?thesis
          by (auto simp: al5d_user_create_channel_def)
      next
        case e2: True
        with p(3) obtain x where x: "fm = Some x" "dec_answer_ok x" by auto
        from x(2) obtain st where st: "al5d_update_chan_param status x = Some st"
          by (auto simp: dec_answer_ok_def al5d_update_chan_param_def load32_def)
        from init_chan_ok [OF x(2), of u2] obtain err3 c where
          i: "init_chan x u2 = Some (err3, u2\<lparr>u_chan_uid := c\<rparr>)"
          "if err3 = 0 then c \<noteq> BAD_CHAN else err3 = - EINVAL \<and> c = BAD_CHAN" by blast
        have s4: "sys_ok (s3\<lparr>hw_k := al5_free_mail fm (hw_k s3)\<rparr>)"
          using s3 x(1) by (simp add: al5_free_mail_def kfree_step)
        have r3: "same_rest u (mutex_unlock AL5_USER_CREATE (u2\<lparr>u_chan_uid := c\<rparr>))"
          using r2 by (simp add: same_rest_def mutex_unlock_def)
        have "al5d_user_create_channel e p status u s = Some (err3, st,
            mutex_unlock AL5_USER_CREATE (u2\<lparr>u_chan_uid := c\<rparr>), s3\<lparr>hw_k := al5_free_mail fm (hw_k s3)\<rparr>)"
          using taken(1) nc m(1) e0 p(1) e2 x(1) st i(1) by (simp add: al5d_user_create_channel_def)
        with s4 r3 i(2) nc c1 cu show ?thesis
          by (cases "err3 = 0") (auto simp: al5_chan_is_created_def mutex_unlock_def)
      qed
    qed
  qed
qed

section \<open>Mutexes\<close>

text \<open>Every operation leaves the mutexes as it found them, on every path that returns.\<close>

lemma init_chan_lock: "init_chan m u = Some (err, u') \<Longrightarrow> u_locks u' = u_locks u"
  by (auto simp: init_chan_def Let_def split: Option.bind_splits if_splits)

lemma al5d_user_create_channel_lock:
  assumes e: "env_leaves_lock e op"
    and c: "al5d_user_create_channel e p status u s = Some (err, st, u', s')"
  shows "u_locks u' op = u_locks u op"
  using c mutex_lock_killable_lock [OF e] user_pop_lock(2) [OF e] init_chan_lock
  by (auto simp: al5d_user_create_channel_def
      split: option.splits Option.bind_splits if_splits prod.splits)

lemma send_for_channel_lock:
  assumes e: "env_leaves_lock e op" and c: "send_for_channel mk e u s = Some (err, u', s')"
  shows "u_locks u' op = u_locks u op"
  using c mutex_lock_killable_lock [OF e]
  by (auto simp: send_for_channel_def split: Option.bind_splits if_splits)

lemma al5d_user_wait_for_status_lock:
  assumes e: "env_leaves_lock e op" and c: "al5d_user_wait_for_status e m u s = Some (err, m', u', s')"
  shows "u_locks u' op = u_locks u op"
  using c mutex_trylock_lock [of AL5_USER_STATUS u _ op] user_pop_lock(1) [OF e]
  by (auto simp: al5d_user_wait_for_status_def
      split: option.splits Option.bind_splits if_splits prod.splits)

lemma al5d_user_wait_for_start_code_lock:
  assumes e: "env_leaves_lock e op"
    and c: "al5d_user_wait_for_start_code e m u s = Some (err, m', u', s')"
  shows "u_locks u' op = u_locks u op"
  using c mutex_trylock_lock [of AL5_USER_SC u _ op] user_pop_lock(1) [OF e]
  by (auto simp: al5d_user_wait_for_start_code_def
      split: option.splits Option.bind_splits if_splits prod.splits)

section \<open>Properties\<close>

text \<open>Creating a decoder channel always returns, whatever the other threads and the firmware
  answer within their contracts. It returns 0 only with a channel; on any error the user has the
  channel it had (none, unless it fails because there is one), so the call can be repeated. Every
  mutex the other threads leave alone is as it was before.\<close>

theorem al5d_user_create_channel_outcomes:
  assumes "env_ok e" "dec_answers_ok e" "sys_ok s" "params_ok p" "params_fit p"
  shows "\<exists>err st u' s'. al5d_user_create_channel e p status u s = Some (err, st, u', s') \<and> sys_ok s' \<and>
    same_rest u u' \<and>
    (err = 0 \<longrightarrow> al5_chan_is_created u' \<and> \<not> al5_chan_is_created u) \<and>
    (err \<noteq> 0 \<longrightarrow> al5_chan_is_created u' = al5_chan_is_created u) \<and>
    err \<in> {0, - EPERM, - EAGAIN, - EINTR, - EINVAL} \<and>
    (\<forall>op. env_leaves_lock e op \<longrightarrow> u_locks u' op = u_locks u op)"
  using al5d_user_create_channel_ok [OF assms, of status u] al5d_user_create_channel_lock [of e]
  by blast

text \<open>The thread that receives the answer for channel 5 while the creation waits.\<close>

definition dec_answer_env :: env where
  "dec_answer_env = \<lparr>e_lock = e_lock (calm_env 0),
     e_wait = (\<lambda>q st. (1, set_queue q
       \<lparr>q_list = [mail_of (uid_code AL_MCU_MSG_CREATE_CHANNEL) (le32 5 @ replicate 12 0)],
        q_locked = True\<rparr> (fst st), snd st))\<rparr>"

lemma dec_answer_env_ok: "env_ok dec_answer_env" "dec_answers_ok dec_answer_env"
proof -
  show "env_ok dec_answer_env"
    by (auto simp: env_ok_def dec_answer_env_def calm_env_def env_keeps_def set_queue_def)
  show "dec_answers_ok dec_answer_env"
    by (auto simp: dec_answers_ok_def create_answers_def dec_answer_env_def set_queue_def wait_timeout_result_def
        mail_is_available_def dec_answer_ok_def mail_simps)
qed

definition dstatus0 :: al5d_channel_status where
  "dstatus0 = \<lparr>dst_num_core = 0, dst_error_code = 0\<rparr>"

theorem al5d_user_create_channel_outcomes_witness:
  "\<exists>err st u' s'. al5d_user_create_channel dec_answer_env params0 dstatus0 (al5_user_init 2) hw0 =
      Some (err, st, u', s') \<and> sys_ok s' \<and> (err = 0 \<longrightarrow> al5_chan_is_created u')"
  using al5d_user_create_channel_outcomes [OF dec_answer_env_ok hw0_ok(1) params0_ok,
      of dstatus0 "al5_user_init 2"]
  by blast

text \<open>Searching for start codes needs no channel: with parameters that fit, the message names
  the user itself, so that the answer finds it; it is sent, or refused with \<open>-EAGAIN\<close> for lack
  of room.\<close>

theorem al5d_user_search_start_code_spec:
  fixes u :: al5_user
  assumes "sys_ok s" "params_ok (sc_param m)" "params_fit (sc_param m)"
    and "params_ok (sc_buffer_addrs m)" "params_fit (sc_buffer_addrs m)"
  defines "msg \<equiv> mail_of (uid_code AL_MCU_MSG_SEARCH_START_CODE)
      (le32 (u32_of_int (u_uid u)) @ params_data (sc_param m) @ params_data (sc_buffer_addrs m))"
  shows "\<exists>err s'. al5d_user_search_start_code m u s = Some (err, s') \<and> sys_ok s' \<and>
    (if unat (body_size msg) + 8 \<le> outroom s
     then err = 0 \<and> outbox s' = outbox s @ [wire_of msg] \<and> signalled s'
     else err = - EAGAIN \<and> outbox s' = outbox s)"
proof -
  let ?mk = "al5d_create_search_sc_mail (u32_of_int (u_uid u)) m"
  have c: "?mk (hw_k s) = Some (Some msg, km_step 1 1 (hw_k s))"
    unfolding msg_def using assms(1-5) sys_ok_kmem by (intro al5d_create_search_sc_eq) auto
  show ?thesis
  proof (rule make_and_send_cases [where s = s and m = msg and mk = ?mk, OF assms(1) c])
    show "mail_wf msg" by (simp add: msg_def)
  next
    fix s'
    assume "make_and_send ?mk s = Some (0, s')" "hw_frame s s'"
      "outbox s' = outbox s @ [wire_of msg]" "signalled s'" "unat (body_size msg) + 8 \<le> outroom s"
    with sys_ok_frame assms(1) show ?thesis by (auto simp: al5d_user_search_start_code_def)
  next
    assume "make_and_send ?mk s = Some (- EAGAIN, s\<lparr>hw_k := km_step 1 0 (hw_k s)\<rparr>)"
      "outroom s < unat (body_size msg) + 8"
    with assms(1) show ?thesis by (auto simp: al5d_user_search_start_code_def)
  qed
qed

definition search0 :: al5_search_sc_msg where
  "search0 = \<lparr>sc_param = params0, sc_buffer_addrs = params0\<rparr>"

theorem al5d_user_search_start_code_spec_witness:
  "\<exists>s'. al5d_user_search_start_code search0 user3 hw0 = Some (0, s') \<and> signalled s'"
proof -
  have p: "sc_param search0 = params0" "sc_buffer_addrs search0 = params0"
    by (simp_all add: search0_def)
  have d: "length (params_data params0) = 8"
    by (simp add: params_data_def params0_def)
  show ?thesis
    using al5d_user_search_start_code_spec [OF hw0_ok(1), of search0 user3]
    by (auto simp: p d mail_of_sel hw0_ok)
qed

end
