(* ===== verification/Dec_Ioctl.thy ===== *)
theory Dec_Ioctl
  imports Dec_User Enc_Ioctl
begin

text \<open>
  The command dispatcher of the decoder's device file (\<open>al5d_ioctl\<close> of \<open>al5d/al_dec.c\<close>) and the
  life of an open decoder file.
\<close>

section \<open>Commands\<close>

definition sizeof_channel_config :: nat where "sizeof_channel_config = sizeof_params + 8"
definition sizeof_decode_msg :: nat where "sizeof_decode_msg = 2 * sizeof_params + 4"
definition sizeof_search_sc_msg :: nat where "sizeof_search_sc_msg = 2 * sizeof_params"
definition sizeof_scstatus :: nat where "sizeof_scstatus = 8"

definition DEC_CONFIG_CHANNEL :: u32 where "DEC_CONFIG_CHANNEL = IOWR 2 sizeof_channel_config"
definition DEC_DESTROY_CHANNEL :: u32 where "DEC_DESTROY_CHANNEL = IO 4"
definition AL_MCU_DECODE_ONE_FRM :: u32 where "AL_MCU_DECODE_ONE_FRM = IOWR 5 sizeof_decode_msg"
definition DEC_WAIT_FOR_STATUS :: u32 where "DEC_WAIT_FOR_STATUS = IOWR 6 sizeof_params"
definition AL_MCU_SEARCH_START_CODE :: u32 where
  "AL_MCU_SEARCH_START_CODE = IOWR 8 sizeof_search_sc_msg"
definition AL_MCU_WAIT_FOR_START_CODE :: u32 where "AL_MCU_WAIT_FOR_START_CODE = IOWR 9 sizeof_scstatus"
definition AL_MCU_DECODE_ONE_SLICE :: u32 where "AL_MCU_DECODE_ONE_SLICE = IOWR 18 sizeof_decode_msg"

lemmas dec_cmd_defs = DEC_CONFIG_CHANNEL_def DEC_DESTROY_CHANNEL_def AL_MCU_DECODE_ONE_FRM_def
  DEC_WAIT_FOR_STATUS_def AL_MCU_SEARCH_START_CODE_def AL_MCU_WAIT_FOR_START_CODE_def
  AL_MCU_DECODE_ONE_SLICE_def sizeof_channel_config_def sizeof_decode_msg_def
  sizeof_search_sc_msg_def sizeof_scstatus_def ioc_defs

record dec_user_mem =
  dm_config :: "(al5_params \<times> al5d_channel_status) option"
  dm_params :: "al5_params option"
  dm_decode :: "al5_decode_msg option"
  dm_search :: "al5_search_sc_msg option"
  dm_scstatus :: "al5_scstatus option"
  dm_dma :: "al5_dma_info option"
  dm_writable :: bool

datatype dec_written =
    Dec_config_written al5_params al5d_channel_status
  | Dec_params_written al5_params
  | Decode_written al5_decode_msg
  | Search_written al5_search_sc_msg
  | Scstatus_written al5_scstatus
  | Dec_dma_written al5_dma_info

definition al5d_ioctl_usage :: int where
  "al5d_ioctl_usage = - EINVAL"

text \<open>The cases of the switch.\<close>

type_synonym dec_result = "(int \<times> dec_written option \<times> al5_user \<times> hw) option"

definition dec_config_channel :: "env \<Rightarrow> dec_user_mem \<Rightarrow> al5_user \<Rightarrow> hw \<Rightarrow> dec_result" where
  "dec_config_channel e mem u s =
     (case dm_config mem of
        None \<Rightarrow> Some (- EFAULT, None, u, s)
      | Some (param, status) \<Rightarrow> do {
          (ret, status, u, s) \<leftarrow> al5d_user_create_channel e param status u s;
          let (ret, w) = copied (dm_writable mem) ret (Dec_config_written param status);
          Some (ret, w, u, s)
        })"

definition dec_destroy_channel :: "env \<Rightarrow> al5_user \<Rightarrow> hw \<Rightarrow> dec_result" where
  "dec_destroy_channel e u s = do {
     (ret, u, s) \<leftarrow> al5_user_destroy_channel e False u s;
     Some (ret, None, u, s)
   }"

definition dec_wait_for_status :: "env \<Rightarrow> dec_user_mem \<Rightarrow> al5_user \<Rightarrow> hw \<Rightarrow> dec_result" where
  "dec_wait_for_status e mem u s =
     (case dm_params mem of
        None \<Rightarrow> Some (- EFAULT, None, u, s)
      | Some params \<Rightarrow> do {
          (ret, params, u, s) \<leftarrow> al5d_user_wait_for_status e params u s;
          let (ret, w) = copied (dm_writable mem) ret (Dec_params_written params);
          Some (ret, w, u, s)
        })"

definition dec_decode ::
    "(env \<Rightarrow> al5_decode_msg \<Rightarrow> al5_user \<Rightarrow> hw \<Rightarrow> (int \<times> al5_user \<times> hw) option)
      \<Rightarrow> env \<Rightarrow> dec_user_mem \<Rightarrow> al5_user \<Rightarrow> hw \<Rightarrow> dec_result" where
  "dec_decode op e mem u s =
     (case dm_decode mem of
        None \<Rightarrow> Some (- EFAULT, None, u, s)
      | Some msg \<Rightarrow> do {
          (ret, u, s) \<leftarrow> op e msg u s;
          let (ret, w) = copied (dm_writable mem) ret (Decode_written msg);
          Some (ret, w, u, s)
        })"

definition dec_search_start_code :: "dec_user_mem \<Rightarrow> al5_user \<Rightarrow> hw \<Rightarrow> dec_result" where
  "dec_search_start_code mem u s =
     (case dm_search mem of
        None \<Rightarrow> Some (- EFAULT, None, u, s)
      | Some msg \<Rightarrow> do {
          (ret, s) \<leftarrow> al5d_user_search_start_code msg u s;
          let (ret, w) = copied (dm_writable mem) ret (Search_written msg);
          Some (ret, w, u, s)
        })"

definition dec_wait_for_start_code :: "env \<Rightarrow> dec_user_mem \<Rightarrow> al5_user \<Rightarrow> hw \<Rightarrow> dec_result" where
  "dec_wait_for_start_code e mem u s =
     (case dm_scstatus mem of
        None \<Rightarrow> Some (- EFAULT, None, u, s)
      | Some sc \<Rightarrow> do {
          (ret, sc, u, s) \<leftarrow> al5d_user_wait_for_start_code e sc u s;
          let (ret, w) = copied (dm_writable mem) ret (Scstatus_written sc);
          Some (ret, w, u, s)
        })"

definition dec_dma :: "(al5_dma_info option \<Rightarrow> bool \<Rightarrow> hw \<Rightarrow> int \<times> al5_dma_info option \<times> hw)
    \<Rightarrow> dec_user_mem \<Rightarrow> al5_user \<Rightarrow> hw \<Rightarrow> dec_result" where
  "dec_dma op mem u s =
     (let (ret, w, s) = op (dm_dma mem) (dm_writable mem) s
      in Some (ret, map_option Dec_dma_written w, u, s))"

definition al5d_ioctl :: "env \<Rightarrow> u32 \<Rightarrow> dec_user_mem \<Rightarrow> al5_user \<Rightarrow> hw \<Rightarrow> dec_result" where
  "al5d_ioctl e cmd mem u s =
     (if cmd = DEC_CONFIG_CHANNEL then dec_config_channel e mem u s
      else if cmd = DEC_DESTROY_CHANNEL then dec_destroy_channel e u s
      else if cmd = DEC_WAIT_FOR_STATUS then dec_wait_for_status e mem u s
      else if cmd = AL_MCU_DECODE_ONE_FRM then dec_decode al5d_user_decode_one_frame e mem u s
      else if cmd = AL_MCU_DECODE_ONE_SLICE then dec_decode al5d_user_decode_one_slice e mem u s
      else if cmd = AL_MCU_SEARCH_START_CODE then dec_search_start_code mem u s
      else if cmd = AL_MCU_WAIT_FOR_START_CODE then dec_wait_for_start_code e mem u s
      else if cmd = GET_DMA_FD then dec_dma ioctl_dma_fd mem u s
      else if cmd = GET_DMA_PHY then dec_dma ioctl_dma_phy mem u s
      else Some (al5d_ioctl_usage, None, u, s))"

section \<open>Contracts\<close>

text \<open>As for the encoder; a search result has three words.\<close>

definition dec_mem_ok :: "dec_user_mem \<Rightarrow> bool" where
  "dec_mem_ok mem \<longleftrightarrow>
     (\<forall>p st. dm_config mem = Some (p, st) \<longrightarrow> params_ok p \<and> params_fit p) \<and>
     (\<forall>p. dm_params mem = Some p \<longrightarrow> params_ok p) \<and>
     (\<forall>m. dm_decode mem = Some m \<longrightarrow> decode_msg_fit m) \<and>
     (\<forall>m. dm_search mem = Some m \<longrightarrow> params_ok (sc_param m) \<and> params_fit (sc_param m) \<and>
        params_ok (sc_buffer_addrs m) \<and> params_fit (sc_buffer_addrs m))"

definition dec_waits_ok :: "env \<Rightarrow> bool" where
  "dec_waits_ok e \<longleftrightarrow> status_waits_ok e \<and> (\<forall>st m.
     m \<in> set (q_list (u_queues (fst (snd (e_wait e AL5_USER_MAIL_SC st))) AL5_USER_MAIL_SC)) \<longrightarrow>
     12 \<le> length (body m))"

definition dec_env_ok :: "env \<Rightarrow> bool" where
  "dec_env_ok e \<longleftrightarrow> env_ok e \<and> dec_answers_ok e \<and> dec_waits_ok e"

text \<open>A decoder user has no pools and no checkpoint.\<close>

definition dec_inv :: "al5_user \<Rightarrow> bool" where
  "dec_inv u \<longleftrightarrow> u_int_buffers u = al5_bufpool_init \<and> u_rec_buffers u = al5_bufpool_init \<and>
     \<not> al5_have_checkpoint u"

lemma dec_inv_init: "dec_inv (al5_user_init uid)"
  by (simp add: dec_inv_def al5_user_init_def al5_have_checkpoint_def)

lemma dec_inv_kept: "env_keeps (u, s) (u', s') \<Longrightarrow> dec_inv u \<Longrightarrow> dec_inv u'"
  by (simp add: dec_inv_def env_keeps_def al5_have_checkpoint_def)

lemma destroyed_dec_inv: "destroyed u \<Longrightarrow> dec_inv u"
  by (simp add: destroyed_def dec_inv_def)

lemma dec_inv_same_rest: "same_rest u u' \<Longrightarrow> dec_inv u \<Longrightarrow> dec_inv u'"
  by (simp add: same_rest_def dec_inv_def al5_have_checkpoint_def)

section \<open>Each operation returns and keeps the user in order\<close>

lemma send_for_channel_keeps:
  assumes "env_ok e" "sys_ok s"
    and "\<And>c k. km_ok k \<Longrightarrow> km_nofail k \<Longrightarrow> mk c k = Some (Some (mail_of uid (bs c)), km_step 1 1 k)"
  shows "\<exists>err u' s'. send_for_channel mk e u s = Some (err, u', s') \<and> env_keeps (u, s) (u', s')"
  using assms(1)
proof (cases rule: mutex_lock_killable_ok [where op = AL5_USER_XCODE and u = u and s = s])
  case (killed u1 s1)
  then show ?thesis by (simp add: send_for_channel_def)
next
  case (taken u0 u1 s1)
  with assms(2) have s1: "sys_ok s1" by (simp add: env_keeps_def)
  show ?thesis
  proof (rule make_and_send_keeps [OF s1 assms(3) [of _ "u32_of_int (u_chan_uid u1)"] destroy_mail_wf])
    fix err s'
    assume "make_and_send (mk (u32_of_int (u_chan_uid u1))) s1 = Some (err, s')" "sys_ok s'"
    moreover have "env_keeps (u, s) (u1, s')"
      using taken(2) \<open>sys_ok s'\<close> by (simp add: env_keeps_def)
    ultimately show ?thesis using taken(1,2) by (auto simp: send_for_channel_def)
  qed
qed

text \<open>The two drivers read a status in the same way.\<close>

lemma al5d_mail_get_status_same: "al5d_mail_get_status = al5e_mail_get_status"
  by (simp add: fun_eq_iff al5d_mail_get_status_def al5e_mail_get_status_def al5_mail_get_size_def
      al5_mail_get_body_def)

lemma al5d_user_wait_for_status_same: "al5d_user_wait_for_status = al5e_user_wait_for_status"
  by (intro ext)
     (unfold al5d_user_wait_for_status_def al5e_user_wait_for_status_def al5d_mail_get_status_same,
      rule refl)

lemma al5d_user_wait_for_start_code_keeps:
  assumes "env_ok e" "dec_waits_ok e"
  shows "\<exists>err m' u' s'. al5d_user_wait_for_start_code e msg u s = Some (err, m', u', s') \<and>
    env_keeps (u, s) (u', s')"
proof (cases "mutex_trylock AL5_USER_SC u")
  case None
  then show ?thesis by (simp add: al5d_user_wait_for_start_code_def)
next
  case (Some v)
  have v: "env_keeps (u, s) (v, s)" using Some by (rule trylock_keeps)
  show ?thesis
  proof (rule user_pop_mail [OF assms(1), where q = AL5_USER_MAIL_SC and u = v and s = s])
    fix m u' s'
    assume m: "user_pop e AL5_USER_MAIL_SC v s = (m, u', s')" "env_keeps (v, s) (u', s')"
      "\<And>x. m = Some x \<Longrightarrow> x \<in> set (q_list (u_queues
        (fst (snd (e_wait e AL5_USER_MAIL_SC (v, s)))) AL5_USER_MAIL_SC))"
    have "\<exists>p'. al5d_mail_get_sc_status x = Some p'" if "m = Some x" for x
      using m(3) [OF that] assms(2) unfolding dec_waits_ok_def
      by (fastforce simp: al5d_mail_get_sc_status_def load32_def)
    then show ?thesis
      using Some v m(1) env_keeps_trans [OF v m(2)]
      by (cases m) (auto simp: al5d_user_wait_for_start_code_def)
  qed
qed


section \<open>The dispatcher\<close>

definition dec_returns :: "dec_result \<Rightarrow> bool" where
  "dec_returns r \<longleftrightarrow> (\<exists>err w u s. r = Some (err, w, u, s) \<and> sys_ok s \<and> dec_inv u)"

lemma dec_returnsI [intro]: "sys_ok s \<Longrightarrow> dec_inv u \<Longrightarrow> dec_returns (Some (err, w, u, s))"
  by (auto simp: dec_returns_def)

lemma dec_returns_copied [simp]:
  "dec_returns (case copied b ret x of (ret, w) \<Rightarrow> Some (ret, w, u, s)) = (sys_ok s \<and> dec_inv u)"
  by (cases b) (auto simp: copied_def dec_returns_def)

lemma dec_kept:
  "env_keeps (u, s) (u', s') \<Longrightarrow> sys_ok s \<Longrightarrow> dec_inv u \<Longrightarrow> sys_ok s' \<and> dec_inv u'"
  using dec_inv_kept [of u s u' s'] by (simp add: env_keeps_def)

lemma dec_config_returns:
  assumes "dec_env_ok e" "sys_ok s" "dec_inv u" "dec_mem_ok mem"
  shows "dec_returns (dec_config_channel e mem u s)"
proof (cases "dm_config mem")
  case None
  with assms show ?thesis by (auto simp: dec_config_channel_def)
next
  case (Some c)
  obtain p st where c: "c = (p, st)" by (cases c)
  with Some assms(4) have "params_ok p" "params_fit p" unfolding dec_mem_ok_def by blast+
  from al5d_user_create_channel_ok [OF _ _ assms(2) this, of e st u] assms(1) Some c
    dec_inv_same_rest assms(3)
  show ?thesis by (auto simp: dec_config_channel_def dec_env_ok_def)
qed

lemma dec_destroy_returns:
  assumes "dec_env_ok e" "sys_ok s" "dec_inv u"
  shows "dec_returns (dec_destroy_channel e u s)"
proof -
  have "env_ok e" "pools_ok u"
    using assms(1,3) by (simp_all add: dec_env_ok_def dec_inv_def pools_ok_def)
  from al5_user_destroy_channel_ok [OF this(1) assms(2) this(2), of False] obtain err u' s' where
    d: "al5_user_destroy_channel e False u s = Some (err, u', s')" "sys_ok s'"
    "u' = u \<or> destroyed u' \<or> env_keeps (u, s) (u', s')"
    by (auto split: if_splits)
  then have "dec_inv u'" using dec_kept assms(2,3) destroyed_dec_inv by blast
  with d show ?thesis by (auto simp: dec_destroy_channel_def)
qed

lemma dec_wait_returns:
  assumes "dec_env_ok e" "sys_ok s" "dec_inv u" "dec_mem_ok mem"
  shows "dec_returns (dec_wait_for_status e mem u s)"
proof (cases "dm_params mem")
  case None
  with assms show ?thesis by (auto simp: dec_wait_for_status_def)
next
  case (Some p)
  with assms(1,4) have "env_ok e" "status_waits_ok e" "params_ok p"
    by (simp_all add: dec_mem_ok_def dec_env_ok_def dec_waits_ok_def)
  from al5e_user_wait_for_status_keeps [OF this, of u s, folded al5d_user_wait_for_status_same] dec_kept Some assms(2,3)
  show ?thesis by (auto simp: dec_wait_for_status_def)
qed

lemma dec_decode_returns:
  assumes "sys_ok s" "dec_inv u"
    and "\<And>msg. dm_decode mem = Some msg \<Longrightarrow>
      \<exists>err u' s'. op e msg u s = Some (err, u', s') \<and> env_keeps (u, s) (u', s')"
  shows "dec_returns (dec_decode op e mem u s)"
proof (cases "dm_decode mem")
  case None
  with assms show ?thesis by (auto simp: dec_decode_def)
next
  case (Some msg)
  from assms(3) [OF this] obtain err u' s' where
    r: "op e msg u s = Some (err, u', s')" "env_keeps (u, s) (u', s')" by blast
  with dec_kept [OF r(2) assms(1,2)] Some show ?thesis by (auto simp: dec_decode_def)
qed

lemma decode_keeps:
  assumes "dec_env_ok e" "sys_ok s" "dec_mem_ok mem" "dm_decode mem = Some msg"
  shows "\<exists>err u' s'. al5d_user_decode_one_frame e msg u s = Some (err, u', s') \<and> env_keeps (u, s) (u', s')"
    and "\<exists>err u' s'. al5d_user_decode_one_slice e msg u s = Some (err, u', s') \<and> env_keeps (u, s) (u', s')"
proof -
  have m: "env_ok e" "decode_msg_fit msg" using assms by (simp_all add: dec_env_ok_def dec_mem_ok_def)
  show "\<exists>err u' s'. al5d_user_decode_one_frame e msg u s = Some (err, u', s') \<and> env_keeps (u, s) (u', s')"
    unfolding al5d_user_decode_one_frame_def
    by (rule send_for_channel_keeps [OF m(1) assms(2) al5d_create_decode_eq(1) [OF _ _ m(2)]])
  show "\<exists>err u' s'. al5d_user_decode_one_slice e msg u s = Some (err, u', s') \<and> env_keeps (u, s) (u', s')"
    unfolding al5d_user_decode_one_slice_def
    by (rule send_for_channel_keeps [OF m(1) assms(2) al5d_create_decode_eq(2) [OF _ _ m(2)]])
qed

lemma dec_search_returns:
  assumes "sys_ok s" "dec_inv u" "dec_mem_ok mem"
  shows "dec_returns (dec_search_start_code mem u s)"
proof (cases "dm_search mem")
  case None
  with assms show ?thesis by (auto simp: dec_search_start_code_def)
next
  case (Some m)
  with assms(3) have p: "params_ok (sc_param m)" "params_fit (sc_param m)"
    "params_ok (sc_buffer_addrs m)" "params_fit (sc_buffer_addrs m)" by (simp_all add: dec_mem_ok_def)
  show ?thesis
  proof (rule make_and_send_keeps [OF assms(1) al5d_create_search_sc_eq [OF _ _ p] destroy_mail_wf])
    fix err s'
    assume "make_and_send (al5d_create_search_sc_mail (u32_of_int (u_uid u)) m) s = Some (err, s')"
      "sys_ok s'"
    with Some assms(2) show ?thesis
      by (simp add: dec_search_start_code_def al5d_user_search_start_code_def)
  qed
qed

lemma dec_wait_sc_returns:
  assumes "dec_env_ok e" "sys_ok s" "dec_inv u"
  shows "dec_returns (dec_wait_for_start_code e mem u s)"
proof (cases "dm_scstatus mem")
  case None
  with assms show ?thesis by (auto simp: dec_wait_for_start_code_def)
next
  case (Some sc)
  from assms(1) have "env_ok e" "dec_waits_ok e" by (simp_all add: dec_env_ok_def)
  from al5d_user_wait_for_start_code_keeps [OF this, of sc u s] dec_kept Some assms(2,3)
  show ?thesis by (auto simp: dec_wait_for_start_code_def)
qed

lemma dec_dma_returns:
  assumes "dec_inv u" "sys_ok (snd (snd (op (dm_dma mem) (dm_writable mem) s)))"
  shows "dec_returns (dec_dma op mem u s)"
  using assms by (auto simp: dec_dma_def split_def Let_def)

lemma al5d_ioctl_returns:
  assumes "dec_env_ok e" "sys_ok s" "dec_inv u" "dec_mem_ok mem"
  shows "dec_returns (al5d_ioctl e cmd mem u s)"
  unfolding al5d_ioctl_def
  using assms dec_config_returns [OF assms] dec_destroy_returns [OF assms(1-3)]
    dec_wait_returns [OF assms]
    dec_decode_returns [where op = al5d_user_decode_one_frame and e = e, OF assms(2,3) decode_keeps(1) [OF assms(1,2,4)]]
    dec_decode_returns [where op = al5d_user_decode_one_slice and e = e, OF assms(2,3) decode_keeps(2) [OF assms(1,2,4)]]
    dec_search_returns [OF assms(2-4)] dec_wait_sc_returns [OF assms(1-3)]
    dec_dma_returns [OF assms(3)] ioctl_dma_ok [OF assms(2)]
  by (simp add: dec_returnsI)

lemma al5d_ioctl_lock:
  assumes "env_leaves_lock e op" "al5d_ioctl e cmd mem u s = Some (err, w, u', s')"
  shows "u_locks u' op = u_locks u op"
  using assms(2)
    al5d_user_create_channel_lock [OF assms(1)] al5_user_destroy_channel_lock [OF assms(1)]
    al5d_user_wait_for_status_lock [OF assms(1)] send_for_channel_lock [OF assms(1)]
    al5d_user_wait_for_start_code_lock [OF assms(1)] copied_Some
  unfolding al5d_ioctl_def dec_config_channel_def dec_destroy_channel_def dec_wait_for_status_def
    dec_decode_def dec_search_start_code_def dec_wait_for_start_code_def dec_dma_def
    al5d_user_decode_one_frame_def al5d_user_decode_one_slice_def
  by (auto split: if_splits option.splits Option.bind_splits prod.splits)

section \<open>The life of an open file\<close>

definition dec_call :: "u32 \<Rightarrow> env \<times> dec_user_mem \<Rightarrow> al5_user \<Rightarrow> hw \<Rightarrow> dec_result" where
  "dec_call cmd em = al5d_ioctl (fst em) cmd (snd em)"

definition dec_call_ok :: "env \<times> dec_user_mem \<Rightarrow> bool" where
  "dec_call_ok em \<longleftrightarrow> dec_env_ok (fst em) \<and> dec_mem_ok (snd em)"

interpretation dec_file: command_file dec_call dec_call_ok dec_inv
proof
  show "dec_inv (al5_user_init uid)" for uid by (rule dec_inv_init)
  show "dec_inv u'" if "env_keeps (u, s) (u', s')" "dec_inv u" for u s u' s'
    using dec_inv_kept that .
  show "\<exists>err w u' s'. dec_call cmd em u s = Some (err, w, u', s') \<and> sys_ok s' \<and> dec_inv u'"
    if "sys_ok s" "dec_inv u" "dec_call_ok em" for cmd em u s
    using al5d_ioctl_returns [of "fst em" s u "snd em" cmd] that
    by (simp add: dec_call_def dec_call_ok_def dec_returns_def)
qed

definition dec_quiet_env :: env where
  "dec_quiet_env = \<lparr>e_lock = e_lock (calm_env 0),
     e_wait = (\<lambda>q st. (1, set_queue q
       \<lparr>q_list = (if q = AL5_USER_MAIL_CREATE
          then [mail_of (uid_code AL_MCU_MSG_CREATE_CHANNEL) (le32 5 @ replicate 12 0)] else []),
        q_locked = False\<rparr> (fst st), snd st))\<rparr>"

lemma dec_quiet_env_ok: "dec_env_ok dec_quiet_env" "env_leaves_lock dec_quiet_env op"
proof -
  have "env_ok dec_quiet_env"
    by (auto simp: env_ok_def dec_quiet_env_def calm_env_def env_keeps_def set_queue_def)
  moreover have "dec_answers_ok dec_quiet_env"
    by (auto simp: dec_answers_ok_def create_answers_def dec_quiet_env_def set_queue_def
        wait_timeout_result_def mail_is_available_def dec_answer_ok_def mail_simps)
  moreover have "dec_waits_ok dec_quiet_env"
    by (simp add: dec_waits_ok_def status_waits_ok_def dec_quiet_env_def set_queue_def)
  ultimately show "dec_env_ok dec_quiet_env" by (simp add: dec_env_ok_def)
  show "env_leaves_lock dec_quiet_env op"
    by (auto simp: env_leaves_lock_def dec_quiet_env_def calm_env_def)
qed

definition dec_mem0 :: dec_user_mem where
  "dec_mem0 = \<lparr>dm_config = Some (params0, dstatus0), dm_params = None, dm_decode = None,
     dm_search = None, dm_scstatus = None, dm_dma = None, dm_writable = True\<rparr>"

lemma dec_mem0_ok: "dec_mem_ok dec_mem0"
  by (simp add: dec_mem_ok_def dec_mem0_def)

section \<open>Properties\<close>

text \<open>An open decoder file is never stuck and never corrupt, in the sense of the encoder's
  property: any run of commands with arguments that fit keeps the driver's structures in order,
  the decoder's user never has pools or a checkpoint, and every further command returns.\<close>

theorem dec_file_safe:
  assumes "file_reachable dec_call dec_call_ok (u, s)" "dec_env_ok e" "dec_mem_ok mem"
  shows "sys_ok s \<and> dec_inv u \<and> (\<exists>err w u' s'. al5d_ioctl e cmd mem u s = Some (err, w, u', s') \<and>
    file_reachable dec_call dec_call_ok (u', s') \<and>
    (\<forall>op. env_leaves_lock e op \<longrightarrow> u_locks u' op = u_locks u op))"
proof -
  from dec_file.safe [OF assms(1), of "(e, mem)" cmd] assms(2,3) obtain err w u' s' where
    r: "sys_ok s" "dec_inv u" "al5d_ioctl e cmd mem u s = Some (err, w, u', s')"
      "file_reachable dec_call dec_call_ok (u', s')" by (auto simp: dec_call_def dec_call_ok_def)
  with al5d_ioctl_lock [OF _ r(3)] show ?thesis by blast
qed

theorem dec_file_safe_witness:
  "\<exists>err w u s. al5d_ioctl dec_quiet_env DEC_CONFIG_CHANNEL dec_mem0 (al5_user_init 2) hw0 =
      Some (err, w, u, s) \<and> sys_ok s \<and> dec_inv u"
proof -
  have "file_reachable dec_call dec_call_ok (al5_user_init 2, hw0)"
    using hw0_ok(1) by (rule file_reachable.bound)
  from dec_file_safe [OF this dec_quiet_env_ok(1) dec_mem0_ok, of DEC_CONFIG_CHANNEL]
  obtain err w u s where r: "al5d_ioctl dec_quiet_env DEC_CONFIG_CHANNEL dec_mem0 (al5_user_init 2) hw0 =
    Some (err, w, u, s)" "file_reachable dec_call dec_call_ok (u, s)" by blast
  from dec_file_safe [OF r(2) dec_quiet_env_ok(1) dec_mem0_ok] r(1) show ?thesis by blast
qed

end
