(* ===== verification/User_Kept.thy ===== *)
theory User_Kept
  imports Enc_Ioctl Dec_Ioctl
begin

text \<open>
  What every operation keeps of a user. \<open>kept_user\<close> is the interface of a predicate that the
  primitive updates of a user keep; then every operation and every command of both devices keeps it
  among threads that keep it, and depends on the other threads only in the states in which it
  holds. Two predicates are of this kind: the user's number (\<open>uid_kept\<close>), and the forms of the
  messages in its queues (\<open>forms_kept\<close>).
\<close>

section \<open>The other threads\<close>

definition keeps_env :: "(al5_user \<Rightarrow> bool) \<Rightarrow> env \<Rightarrow> bool" where
  "keeps_env K e \<longleftrightarrow>
     (\<forall>op st. K (fst st) \<longrightarrow> K (fst (snd (e_lock e op st)))) \<and>
     (\<forall>q st. K (fst st) \<longrightarrow> K (fst (snd (e_wait e q st))))"

text \<open>Two environments that do the same wherever the predicate holds.\<close>

definition same_on :: "(al5_user \<Rightarrow> bool) \<Rightarrow> env \<Rightarrow> env \<Rightarrow> bool" where
  "same_on K e e' \<longleftrightarrow>
     (\<forall>op st. K (fst st) \<longrightarrow> e_lock e op st = e_lock e' op st) \<and>
     (\<forall>q st. K (fst st) \<longrightarrow> e_wait e q st = e_wait e' q st)"

lemma keeps_envD:
  "keeps_env K e \<Longrightarrow> e_lock e op (u, s) = (r, u', s') \<Longrightarrow> K u \<Longrightarrow> K u'"
  "keeps_env K e \<Longrightarrow> e_wait e q (u, s) = (r, u', s') \<Longrightarrow> K u \<Longrightarrow> K u'"
  unfolding keeps_env_def by (metis fst_conv snd_conv)+

lemma same_onD:
  "same_on K e e' \<Longrightarrow> K u \<Longrightarrow> e_lock e op (u, s) = e_lock e' op (u, s)"
  "same_on K e e' \<Longrightarrow> K u \<Longrightarrow> e_wait e q (u, s) = e_wait e' q (u, s)"
  by (simp_all add: same_on_def)

section \<open>Predicates kept by the updates of a user\<close>

locale kept_user =
  fixes K :: "al5_user \<Rightarrow> bool"
  assumes K_locks: "K u \<Longrightarrow> K (u\<lparr>u_locks := l\<rparr>)"
    and K_chan: "K u \<Longrightarrow> K (u\<lparr>u_chan_uid := c\<rparr>)"
    and K_checkpoint: "K u \<Longrightarrow> K (u\<lparr>u_checkpoint := p\<rparr>)"
    and K_int: "K u \<Longrightarrow> K (u\<lparr>u_int_buffers := b\<rparr>)"
    and K_rec: "K u \<Longrightarrow> K (u\<lparr>u_rec_buffers := b\<rparr>)"
    and K_queue: "K u \<Longrightarrow> set (q_list qu) \<subseteq> set (q_list (u_queues u q)) \<Longrightarrow> K (set_queue q qu u)"
begin

lemmas K_updates = K_locks K_chan K_checkpoint K_int K_rec

lemma K_unlock: "K u \<Longrightarrow> K (mutex_unlock op u)"
  by (simp add: mutex_unlock_def K_locks)

lemma K_fold_unlock: "K u \<Longrightarrow> K (fold mutex_unlock ops u)"
  by (induction ops arbitrary: u) (simp_all add: K_unlock)

lemma K_take: "take_lock op u = Some u' \<Longrightarrow> K u \<Longrightarrow> K u'"
  by (auto simp: take_lock_def K_locks split: if_splits)

lemma K_trylock: "mutex_trylock op u = Some u' \<Longrightarrow> K u \<Longrightarrow> K u'"
  by (simp add: mutex_trylock_def K_take)

lemma K_fold_queues:
  assumes "\<And>q. q_list (f q) = q_list q"
  shows "K u \<Longrightarrow> K (fold (\<lambda>q u. set_queue q (f (u_queues u q)) u) qs u)"
  using assms by (induction qs arbitrary: u) (simp_all add: K_queue)

lemma K_queues_lock: "K u \<Longrightarrow> K (user_queues_lock u)"
  unfolding user_queues_lock_def by (rule K_fold_queues) (simp_all add: al5_queue_lock_def)

lemma K_queues_unlock: "K u \<Longrightarrow> K (user_queues_unlock u)"
  unfolding user_queues_unlock_def by (rule K_fold_queues) (simp_all add: al5_queue_unlock_def)

section \<open>The steps in which other threads run\<close>

lemma lock_kept:
  "keeps_env K e \<Longrightarrow> mutex_lock_killable e op u s = Some (err, u', s') \<Longrightarrow> K u \<Longrightarrow> K u'"
  using keeps_envD(1) [of K e op u s] K_take
  by (auto simp: mutex_lock_killable_def split: if_splits prod.splits Option.bind_splits)

lemma lock_same:
  "same_on K e e' \<Longrightarrow> K u \<Longrightarrow> mutex_lock_killable e op u s = mutex_lock_killable e' op u s"
  by (simp add: mutex_lock_killable_def same_onD(1))

lemma popped_subset:
  "al5_queue_pop qu k = (m, qu', k') \<Longrightarrow> set (q_list qu') \<subseteq> set (q_list qu)"
  "al5_queue_pop_timeout r qu k = (err, m, qu', k') \<Longrightarrow> set (q_list qu') \<subseteq> set (q_list qu)"
  by (auto simp: al5_queue_pop_def al5_queue_pop_timeout_def mails_pop_def Let_def split: list.splits)

lemma pop_kept:
  "keeps_env K e \<Longrightarrow> user_pop e q u s = (m, u', s') \<Longrightarrow> K u \<Longrightarrow> K u'"
  "keeps_env K e \<Longrightarrow> user_pop_timeout e q u s = (err, m, u', s') \<Longrightarrow> K u \<Longrightarrow> K u'"
  by (auto simp: user_pop_def user_pop_timeout_def split: prod.splits
      dest!: popped_subset keeps_envD(2) intro: K_queue)

lemma pop_same:
  "same_on K e e' \<Longrightarrow> K u \<Longrightarrow> user_pop e q u = user_pop e' q u"
  "same_on K e e' \<Longrightarrow> K u \<Longrightarrow> user_pop_timeout e q u = user_pop_timeout e' q u"
  by (simp_all add: fun_eq_iff user_pop_def user_pop_timeout_def same_onD(2))

lemma lock_all_kept:
  assumes "keeps_env K e"
  shows "lock_all e ops taken u s = Some (err, u', s') \<Longrightarrow> K u \<Longrightarrow> K u'"
proof (induction ops arbitrary: taken u s)
  case (Cons op ops)
  from Cons.prems(1) obtain e1 u1 s1 where l: "mutex_lock_killable e op u s = Some (e1, u1, s1)"
    by (auto split: Option.bind_splits)
  have k: "K u1" using lock_kept [OF assms l Cons.prems(2)] .
  show ?case
  proof (cases "e1 = - EINTR")
    case True
    with Cons.prems(1) l k show ?thesis by (auto intro: K_fold_unlock)
  next
    case False
    with Cons.prems(1) l have "lock_all e ops (taken @ [op]) u1 s1 = Some (err, u', s')" by simp
    from Cons.IH [OF this k] show ?thesis .
  qed
qed simp

lemma lock_all_same:
  assumes "keeps_env K e" "same_on K e e'"
  shows "K u \<Longrightarrow> lock_all e ops taken u s = lock_all e' ops taken u s"
proof (induction ops arbitrary: taken u s)
  case (Cons op ops)
  note k = lock_kept [OF assms(1) _ Cons.prems]
  show ?case
    using Cons.IH k lock_same [OF assms(2) Cons.prems, of op s]
    by (auto intro!: Option.bind_cong)
qed simp

section \<open>Destroying\<close>

lemma destroy_locked_kept:
  assumes "keeps_env K e" "destroy_locked e quiet u s = Some (err, u', s')" "K u"
  shows "K u'"
  using assms(2,3)
  by (auto simp: destroy_locked_def al5_user_destroy_channel_resources_def Let_def
      split: Option.bind_splits if_splits prod.splits
      dest!: pop_kept(1) [OF assms(1)] intro!: K_updates)

lemma destroy_locked_same:
  assumes "same_on K e e'" "K u"
  shows "destroy_locked e quiet u s = destroy_locked e' quiet u s"
  unfolding destroy_locked_def pop_same(1) [OF assms] ..

lemma destroy_kept:
  assumes "keeps_env K e" "al5_user_destroy_channel e quiet u s = Some (err, u', s')" "K u"
  shows "K u'"
  using assms(2,3)
  by (auto simp: al5_user_destroy_channel_def split: Option.bind_splits if_splits
      dest!: lock_all_kept [OF assms(1)] destroy_locked_kept [OF assms(1)]
      intro!: K_queues_lock K_fold_unlock K_queues_unlock)

lemma destroy_same:
  assumes "keeps_env K e" "same_on K e e'" "K u"
  shows "al5_user_destroy_channel e quiet u s = al5_user_destroy_channel e' quiet u s"
proof (cases "al5_chan_is_created u")
  case True
  have k: "K (user_queues_unlock u)" using assms(3) by (rule K_queues_unlock)
  note l = lock_all_same [OF assms(1,2) k, of user_ops "[]" s]
  have d: "destroy_locked e quiet u1 s1 = destroy_locked e' quiet u1 s1"
    if "lock_all e user_ops [] (user_queues_unlock u) s = Some (err, u1, s1)" for err u1 s1
    using destroy_locked_same [OF assms(2)] lock_all_kept [OF assms(1) that k] .
  show ?thesis
    unfolding al5_user_destroy_channel_def l [symmetric] using d
    by (auto intro!: Option.bind_cong)
qed (simp add: al5_user_destroy_channel_def)

section \<open>Operations of the encoder\<close>

lemma try_to_create_kept:
  assumes "keeps_env K e" "try_to_create_channel e p status fb u s = Some (err, st, fb', u', s')" "K u"
  shows "K u'"
  using assms(2,3)
  by (auto simp: try_to_create_channel_def check_and_affect_chan_uid_def Let_def
      split: Option.bind_splits prod.splits if_splits
      dest!: pop_kept(2) [OF assms(1)] intro!: K_updates)

lemma try_to_create_same:
  assumes "same_on K e e'" "K u"
  shows "try_to_create_channel e p status fb u s = try_to_create_channel e' p status fb u s"
  unfolding try_to_create_channel_def pop_same(2) [OF assms] ..

lemma create_step_kept:
  assumes "keeps_env K e" "create_step e p status u s = Some (err, st, fb, u', s')" "K u"
  shows "K u'"
  using assms(2,3)
  by (auto simp: create_step_def split: Option.bind_splits if_splits
      dest!: try_to_create_kept [OF assms(1)] intro!: K_updates)

lemma create_step_same:
  "same_on K e e' \<Longrightarrow> K u \<Longrightarrow> create_step e p status u s = create_step e' p status u s"
  by (simp add: create_step_def try_to_create_same)

lemma allocate_step_kept: "allocate_step fb u s = Some (err, u', s') \<Longrightarrow> K u \<Longrightarrow> K u'"
  by (auto simp: allocate_step_def allocate_channel_buffers_def Let_def
      split: Option.bind_splits if_splits intro!: K_updates)

lemma send_pools_kept: "send_pools u s = Some (err, u', s') \<Longrightarrow> K u \<Longrightarrow> K u'"
  by (auto simp: send_pools_def split: Option.bind_splits if_splits intro!: K_updates)

lemma create_channel_kept:
  assumes "keeps_env K e" "al5e_user_create_channel e p status u s = Some (err, st, u', s')" "K u"
  shows "K u'"
  using assms(2,3)
  by (auto simp: al5e_user_create_channel_def split: Option.bind_splits if_splits
      dest!: lock_kept [OF assms(1)] create_step_kept [OF assms(1)] allocate_step_kept
        send_pools_kept destroy_kept [OF assms(1)]
      intro!: K_unlock K_updates)

lemma create_channel_same:
  assumes e: "keeps_env K e" "same_on K e e'" "K u"
  shows "al5e_user_create_channel e p status u s = al5e_user_create_channel e' p status u s"
proof -
  note l = lock_same [OF e(2,3), of AL5_USER_CREATE s]
  have c: "create_step e p status v t = create_step e' p status v t"
    if "mutex_lock_killable e AL5_USER_CREATE u s = Some (err, v, t)" for err v t
    using create_step_same [OF e(2)] lock_kept [OF e(1) that e(3)] .
  have d: "al5_user_destroy_channel e q (mutex_unlock op (w\<lparr>u_checkpoint := n\<rparr>)) =
      al5_user_destroy_channel e' q (mutex_unlock op (w\<lparr>u_checkpoint := n\<rparr>))"
    if "mutex_lock_killable e AL5_USER_CREATE u s = Some (err, u1, s1)"
      "create_step e p status u1 s1 = Some (err2, st, fb, v, t)" "allocate_step fb v t = Some (err3, w, t')"
    for err u1 s1 err2 st fb v t err3 w t' q op n
  proof -
    have "K w"
      using that(3) create_step_kept [OF e(1) that(2) lock_kept [OF e(1) that(1) e(3)]]
      by (rule allocate_step_kept)
    then show ?thesis
      using destroy_same [OF e(1,2)] by (simp add: fun_eq_iff K_unlock K_checkpoint)
  qed
  show ?thesis
    unfolding al5e_user_create_channel_def l [symmetric] using c d
    by (auto intro!: Option.bind_cong split: if_splits)
qed

lemma encode_kept:
  assumes "keeps_env K e" "al5e_user_encode_one_frame e m u s = Some (err, u', s')" "K u"
  shows "K u'"
  using assms(2,3)
  by (auto simp: al5e_user_encode_one_frame_def split: Option.bind_splits if_splits
      dest!: lock_kept [OF assms(1)] intro!: K_unlock)

lemma encode_same:
  assumes "same_on K e e'" "K u"
  shows "al5e_user_encode_one_frame e m u s = al5e_user_encode_one_frame e' m u s"
  unfolding al5e_user_encode_one_frame_def lock_same [OF assms] ..

lemma wait_status_kept:
  assumes "keeps_env K e" "al5e_user_wait_for_status e m u s = Some (err, m', u', s')" "K u"
  shows "K u'"
  using assms(2,3)
  by (auto simp: al5e_user_wait_for_status_def
      split: option.splits Option.bind_splits if_splits prod.splits
      dest!: K_trylock pop_kept(1) [OF assms(1)] intro!: K_unlock)

lemma wait_status_same:
  assumes "same_on K e e'" "K u"
  shows "al5e_user_wait_for_status e m u s = al5e_user_wait_for_status e' m u s"
proof (cases "mutex_trylock AL5_USER_STATUS u")
  case (Some v)
  show ?thesis
    unfolding al5e_user_wait_for_status_def Some option.case
      pop_same(1) [OF assms(1) K_trylock [OF Some assms(2)]] ..
qed (simp add: al5e_user_wait_for_status_def)

lemma get_rec_kept:
  assumes "keeps_env K e" "al5e_user_get_rec e m u s = Some (err, m', u', s')" "K u"
  shows "K u'"
  using assms(2,3)
  by (auto simp: al5e_user_get_rec_def Let_def
      split: option.splits Option.bind_splits if_splits prod.splits
      dest!: K_trylock pop_kept(1) [OF assms(1)] intro!: K_unlock)

lemma get_rec_same:
  assumes "same_on K e e'" "K u"
  shows "al5e_user_get_rec e m u s = al5e_user_get_rec e' m u s"
proof (cases "mutex_trylock AL5_USER_REC u")
  case (Some v)
  show ?thesis
    unfolding al5e_user_get_rec_def Some option.case
      pop_same(1) [OF assms(1) K_trylock [OF Some assms(2)]] ..
qed (simp add: al5e_user_get_rec_def)

lemma release_rec_kept:
  assumes "al5e_user_release_rec fd u s = Some (err, u', s')" "K u"
  shows "K u'"
  using assms
  by (auto simp: al5e_user_release_rec_def Let_def
      split: option.splits Option.bind_splits if_splits dest!: K_trylock intro!: K_unlock)

lemma al5e_ioctl_kept:
  assumes "keeps_env K e" "al5e_ioctl e cmd mem u s = Some (err, w, u', s')" "K u"
  shows "K u'"
  using assms(2,3) create_channel_kept [OF assms(1)] destroy_kept [OF assms(1)]
    wait_status_kept [OF assms(1)] encode_kept [OF assms(1)] get_rec_kept [OF assms(1)]
    release_rec_kept copied_Some
  unfolding al5e_ioctl_def enc_config_channel_def enc_destroy_channel_def enc_wait_for_status_def
    enc_encode_one_frame_def enc_get_rec_def enc_release_rec_def enc_put_stream_buffer_def enc_dma_def
  by (auto split: if_splits option.splits Option.bind_splits prod.splits)

lemma al5e_ioctl_same:
  assumes "keeps_env K e" "same_on K e e'" "K u"
  shows "al5e_ioctl e cmd mem u s = al5e_ioctl e' cmd mem u s"
  unfolding al5e_ioctl_def enc_config_channel_def enc_destroy_channel_def enc_wait_for_status_def
    enc_encode_one_frame_def enc_get_rec_def create_channel_same [OF assms] destroy_same [OF assms]
    wait_status_same [OF assms(2,3)] encode_same [OF assms(2,3)] get_rec_same [OF assms(2,3)] ..

section \<open>Operations of the decoder\<close>

lemma init_chan_kept: "init_chan m u = Some (err, u') \<Longrightarrow> K u \<Longrightarrow> K u'"
  by (auto simp: init_chan_def Let_def split: Option.bind_splits if_splits intro!: K_updates)

lemma dec_create_kept:
  assumes "keeps_env K e" "al5d_user_create_channel e p status u s = Some (err, st, u', s')" "K u"
  shows "K u'"
  using assms(2,3)
  by (auto simp: al5d_user_create_channel_def
      split: option.splits Option.bind_splits if_splits prod.splits
      dest!: lock_kept [OF assms(1)] pop_kept(2) [OF assms(1)] init_chan_kept intro!: K_unlock)

lemma dec_create_same:
  assumes "keeps_env K e" "same_on K e e'" "K u"
  shows "al5d_user_create_channel e p status u s = al5d_user_create_channel e' p status u s"
proof -
  note l = lock_same [OF assms(2,3), of AL5_USER_CREATE s]
  have "user_pop_timeout e q v = user_pop_timeout e' q v"
    if "mutex_lock_killable e AL5_USER_CREATE u s = Some (err, v, t)" for err q v t
    using pop_same(2) [OF assms(2) lock_kept [OF assms(1) that assms(3)]] .
  then show ?thesis
    unfolding al5d_user_create_channel_def l [symmetric]
    by (auto intro!: Option.bind_cong)
qed

lemma send_for_channel_kept:
  assumes "keeps_env K e" "send_for_channel mk e u s = Some (err, u', s')" "K u"
  shows "K u'"
  using assms(2,3)
  by (auto simp: send_for_channel_def split: Option.bind_splits if_splits
      dest!: lock_kept [OF assms(1)] intro!: K_unlock)

lemma send_for_channel_same:
  assumes "same_on K e e'" "K u"
  shows "send_for_channel mk e u s = send_for_channel mk e' u s"
  unfolding send_for_channel_def lock_same [OF assms] ..

lemma dec_wait_kept:
  assumes "keeps_env K e" "al5d_user_wait_for_status e m u s = Some (err, m', u', s')" "K u"
  shows "K u'"
  using assms(2,3)
  by (auto simp: al5d_user_wait_for_status_def
      split: option.splits Option.bind_splits if_splits prod.splits
      dest!: K_trylock pop_kept(1) [OF assms(1)] intro!: K_unlock)

lemma dec_wait_same:
  assumes "same_on K e e'" "K u"
  shows "al5d_user_wait_for_status e m u s = al5d_user_wait_for_status e' m u s"
proof (cases "mutex_trylock AL5_USER_STATUS u")
  case (Some v)
  show ?thesis
    unfolding al5d_user_wait_for_status_def Some option.case
      pop_same(1) [OF assms(1) K_trylock [OF Some assms(2)]] ..
qed (simp add: al5d_user_wait_for_status_def)

lemma start_code_kept:
  assumes "keeps_env K e" "al5d_user_wait_for_start_code e m u s = Some (err, m', u', s')" "K u"
  shows "K u'"
  using assms(2,3)
  by (auto simp: al5d_user_wait_for_start_code_def
      split: option.splits Option.bind_splits if_splits prod.splits
      dest!: K_trylock pop_kept(1) [OF assms(1)] intro!: K_unlock)

lemma start_code_same:
  assumes "same_on K e e'" "K u"
  shows "al5d_user_wait_for_start_code e m u s = al5d_user_wait_for_start_code e' m u s"
proof (cases "mutex_trylock AL5_USER_SC u")
  case (Some v)
  show ?thesis
    unfolding al5d_user_wait_for_start_code_def Some option.case
      pop_same(1) [OF assms(1) K_trylock [OF Some assms(2)]] ..
qed (simp add: al5d_user_wait_for_start_code_def)

lemma al5d_ioctl_kept:
  assumes "keeps_env K e" "al5d_ioctl e cmd mem u s = Some (err, w, u', s')" "K u"
  shows "K u'"
  using assms(2,3) dec_create_kept [OF assms(1)] destroy_kept [OF assms(1)] dec_wait_kept [OF assms(1)]
    send_for_channel_kept [OF assms(1)] start_code_kept [OF assms(1)] copied_Some
  unfolding al5d_ioctl_def dec_config_channel_def dec_destroy_channel_def dec_wait_for_status_def
    dec_decode_def dec_search_start_code_def dec_wait_for_start_code_def dec_dma_def
    al5d_user_decode_one_frame_def al5d_user_decode_one_slice_def
  by (auto split: if_splits option.splits Option.bind_splits prod.splits)

lemma al5d_ioctl_same:
  assumes "keeps_env K e" "same_on K e e'" "K u"
  shows "al5d_ioctl e cmd mem u s = al5d_ioctl e' cmd mem u s"
  unfolding al5d_ioctl_def dec_config_channel_def dec_destroy_channel_def dec_wait_for_status_def
    dec_decode_def dec_wait_for_start_code_def
    al5d_user_decode_one_frame_def al5d_user_decode_one_slice_def
    dec_create_same [OF assms] destroy_same [OF assms] send_for_channel_same [OF assms(2,3)]
    dec_wait_same [OF assms(2,3)] start_code_same [OF assms(2,3)] ..

end

end
