(* ===== verification/Codec_Setup.thy ===== *)
theory Codec_Setup
  imports Codec_Start
begin

text \<open>
  What \<open>al5_codec_set_up\<close> of \<open>common/al_codec.c\<close> leaves behind: on success the state every other
  operation starts from, on failure the memory region given back. The interface is allocated with
  the size of its structure here; with the size the code passes there is no result (see
  \<open>al5_mcu_interface_create_size\<close>).
\<close>

section \<open>The state after a set-up\<close>

definition codec_ready :: "int \<Rightarrow> codec \<Rightarrow> bool" where
  "codec_ready m c \<longleftrightarrow> mcu_layout c \<and> sys_ok (hw_of c) \<and> inbox (hw_of c) = [] \<and> outbox (hw_of c) = [] \<and>
     group_ok (cd_sys c) \<and> user_table (cd_sys c) = replicate (nat m) None \<and>
     (\<exists>ic. cd_icache c = Some ic \<and> unat (dma_size ic) = AL5_ICACHE_SIZE)"

text \<open>The logged calls change nothing that a boot looks at.\<close>

definition log_step :: "codec \<Rightarrow> codec \<Rightarrow> bool" where
  "log_step c c' \<longleftrightarrow> (\<exists>l. c' = c\<lparr>cd_log := l\<rparr>)"

lemma log_step_refl [simp]: "log_step c c"
  by (auto simp: log_step_def intro: exI [of _ "cd_log c"])

lemma log_step_trans: "log_step a b \<Longrightarrow> log_step b c \<Longrightarrow> log_step a c"
  by (auto simp: log_step_def)

lemma log_step_kdo [simp]: "log_step c (kdo f c)"
  by (simp add: log_step_def kdo_log)

lemma log_step_kcall: "kcall f c = (r, c') \<Longrightarrow> log_step c c'"
  by (auto simp: log_step_def kcall_def Let_def)

text \<open>A call that is not a write of a register.\<close>

lemma kcall_wakeup: "kcall f c = (r, c') \<Longrightarrow> (\<And>r v. f \<noteq> Write_reg r v) \<Longrightarrow> wakeup c' = wakeup c"
  using wakeup_kdo [of f c] by (auto simp: kdo_def)

lemma log_step_sel:
  assumes "log_step c c'"
  shows "cd_sys c' = cd_sys c" "cd_icache c' = cd_icache c" "cd_regs c' = cd_regs c"
    "hw_of c' = hw_of c" "cd_icache_mem c' = cd_icache_mem c" "cd_suballoc_buf c' = cd_suballoc_buf c"
    "cd_blob c' = cd_blob c"
  using assms by (auto simp: log_step_def hw_of_def)

lemma declare_dedicated_memory_log: "log_step c (snd (declare_dedicated_memory c))"
proof -
  obtain r c1 where 1: "kcall Parse_mem_node c = (r, c1)" by (cases "kcall Parse_mem_node c")
  obtain r2 c2 where 2: "kcall Address_to_resource c1 = (r2, c2)" by (cases "kcall Address_to_resource c1")
  obtain r3 c3 where 3: "kcall Set_coherent_mask (kdo Declare_memory c2) = (r3, c3)"
    by (cases "kcall Set_coherent_mask (kdo Declare_memory c2)")
  have "log_step c c1" "log_step c1 c2" "log_step c2 c3"
    using 1 2 log_step_trans [OF log_step_kdo log_step_kcall [OF 3]] by (auto intro: log_step_kcall)
  then show ?thesis
    using 1 2 3 by (auto simp: declare_dedicated_memory_def intro: log_step_trans)
qed

lemma declare_dedicated_memory_wakeup: "wakeup (snd (declare_dedicated_memory c)) = wakeup c"
proof -
  obtain r c1 where 1: "kcall Parse_mem_node c = (r, c1)" by (cases "kcall Parse_mem_node c")
  obtain r2 c2 where 2: "kcall Address_to_resource c1 = (r2, c2)" by (cases "kcall Address_to_resource c1")
  obtain r3 c3 where 3: "kcall Set_coherent_mask (kdo Declare_memory c2) = (r3, c3)"
    by (cases "kcall Set_coherent_mask (kdo Declare_memory c2)")
  show ?thesis
    using 1 2 3 kcall_wakeup [OF 1] kcall_wakeup [OF 2] kcall_wakeup [OF 3]
    by (auto simp: declare_dedicated_memory_def)
qed

lemma claim_resources_keeps:
  assumes "claim_resources c = (err, c')"
  shows "cd_sys c' = cd_sys c" "hw_of c' = hw_of c" "cd_suballoc_buf c' = cd_suballoc_buf c"
    "wakeup c' = wakeup c" "cd_blob c' = cd_blob c"
proof -
  have *: "cd_sys c' = cd_sys c \<and> hw_of c' = hw_of c \<and> cd_suballoc_buf c' = cd_suballoc_buf c \<and>
    wakeup c' = wakeup c \<and> cd_blob c' = cd_blob c"
  proof -
    obtain r1 c1 where 1: "kcall Get_resource c = (r1, c1)" by (cases "kcall Get_resource c")
    obtain r2 c2 where 2: "kcall Get_irq c1 = (r2, c2)" by (cases "kcall Get_irq c1")
    obtain r3 c3 where 3: "kcall Ioremap c2 = (r3, c3)" by (cases "kcall Ioremap c2")
    let ?c = "c3\<lparr>cd_regs := nat r3\<rparr>"
    obtain r4 c4 where 4: "declare_dedicated_memory ?c = (r4, c4)" by (cases "declare_dedicated_memory ?c")
    note sel = log_step_sel [OF log_step_kcall [OF 1]] log_step_sel [OF log_step_kcall [OF 2]]
      log_step_sel [OF log_step_kcall [OF 3]]
    have d: "log_step ?c c4" using declare_dedicated_memory_log [of ?c] 4 by simp
    have h: "hw_of ?c = hw_of c3" by (simp add: hw_of_def)
    have "wakeup c1 = wakeup c" "wakeup c2 = wakeup c1" "wakeup ?c = wakeup c2" "wakeup c4 = wakeup ?c"
      using kcall_wakeup [OF 1] kcall_wakeup [OF 2] kcall_wakeup [OF 3]
        declare_dedicated_memory_wakeup [of ?c] 4 by (simp_all add: wakeup_def)
    then show ?thesis
      using assms 1 2 3 4 sel log_step_sel [OF d] h
      by (auto simp: claim_resources_def Let_def split: if_splits)
  qed
  then show "cd_sys c' = cd_sys c" "hw_of c' = hw_of c" "cd_suballoc_buf c' = cd_suballoc_buf c"
    "wakeup c' = wakeup c" "cd_blob c' = cd_blob c" by blast+
qed

text \<open>The mailboxes at their places.\<close>

lemma mailbox_config_sizes:
  "unat (cmd_size (mailbox_config r)) = 0x7f8" "unat (status_size (mailbox_config r)) = 0x7f8"
  "cmd_base (mailbox_config r) = r + 0x7000" "status_base (mailbox_config r) = r + 0x7800"
  by (simp_all add: mailbox_config_def MAILBOX_SIZE_def MAILBOX_CMD_def MAILBOX_STATUS_def)

lemma alloc_mcu_caches_spec:
  assumes "alloc_mcu_caches c = (err, c')"
  shows "err = - ENOMEM \<and> cd_icache c' = None \<or>
      err = 0 \<and> (\<exists>ic. cd_icache c' = Some ic \<and> unat (dma_size ic) = AL5_ICACHE_SIZE)"
    "hw_mcu (hw_of c') = hw_mcu (hw_of c)" "km_oracle (hw_k (hw_of c')) = km_oracle (hw_k (hw_of c))"
    "cd_regs c' = cd_regs c" "sys_group (cd_sys c') = sys_group (cd_sys c)"
    "sys_users (cd_sys c') = sys_users (cd_sys c)" "cd_suballoc_buf c' = cd_suballoc_buf c"
    "a < cd_regs c + 0x9000 \<Longrightarrow> hw_mem (hw_of c') a = hw_mem (hw_of c) a"
    "wakeup c' = wakeup c" "cd_blob c' = cd_blob c"
proof -
  obtain buf k d where a: "al5_alloc_dma (of_nat AL5_ICACHE_SIZE) (hw_k (hw_of c)) (hw_d (hw_of c)) = (buf, k, d)"
    by (metis surj_pair)
  have k: "km_oracle k = km_oracle (hw_k (hw_of c))" using al5_alloc_dma_live [OF a] by simp
  have *: "(err = - ENOMEM \<and> cd_icache c' = None \<or>
      err = 0 \<and> (\<exists>ic. cd_icache c' = Some ic \<and> unat (dma_size ic) = AL5_ICACHE_SIZE)) \<and>
    hw_mcu (hw_of c') = hw_mcu (hw_of c) \<and> km_oracle (hw_k (hw_of c')) = km_oracle (hw_k (hw_of c)) \<and>
    cd_regs c' = cd_regs c \<and> sys_group (cd_sys c') = sys_group (cd_sys c) \<and>
    sys_users (cd_sys c') = sys_users (cd_sys c) \<and> cd_suballoc_buf c' = cd_suballoc_buf c \<and>
    (\<forall>a. a < cd_regs c + 0x9000 \<longrightarrow> hw_mem (hw_of c') a = hw_mem (hw_of c) a) \<and> wakeup c' = wakeup c \<and>
    cd_blob c' = cd_blob c"
  proof (cases buf)
    case None
    with a assms k show ?thesis by (auto simp: alloc_mcu_caches_def Let_def wakeup_def)
  next
    case (Some b)
    with a have "dma_size b = 614400"
      by (auto simp: al5_alloc_dma_def Let_def AL5_ICACHE_SIZE_def split: option.splits prod.splits if_splits)
    with Some a assms k show ?thesis
      by (auto simp: alloc_mcu_caches_def Let_def AL5_ICACHE_SIZE_def iowrite32_outside
          AXI_ADDR_OFFSET_IP_def AL5_MCU_WAKEUP_def wakeup_def)
  qed
  then show "err = - ENOMEM \<and> cd_icache c' = None \<or>
      err = 0 \<and> (\<exists>ic. cd_icache c' = Some ic \<and> unat (dma_size ic) = AL5_ICACHE_SIZE)"
    "hw_mcu (hw_of c') = hw_mcu (hw_of c)" "km_oracle (hw_k (hw_of c')) = km_oracle (hw_k (hw_of c))"
    "cd_regs c' = cd_regs c" "sys_group (cd_sys c') = sys_group (cd_sys c)"
    "sys_users (cd_sys c') = sys_users (cd_sys c)" "cd_suballoc_buf c' = cd_suballoc_buf c"
    "a < cd_regs c + 0x9000 \<Longrightarrow> hw_mem (hw_of c') a = hw_mem (hw_of c) a"
    "wakeup c' = wakeup c" "cd_blob c' = cd_blob c" by blast+
qed

text \<open>What the boxes are depends on the memory in them only.\<close>

lemma hw_ok_cong:
  assumes "hw_ok s" "hw_mcu s' = hw_mcu s" "km_oracle (hw_k s') = km_oracle (hw_k s)"
    and "\<And>a. a \<in> mailbox_area (cpu_to_mcu (hw_mcu s)) \<union> mailbox_area (mcu_to_cpu (hw_mcu s)) \<Longrightarrow>
      hw_mem s' a = hw_mem s a"
  shows "hw_ok s'" "inbox s' = inbox s" "outbox s' = outbox s"
proof -
  have lay: "mailbox_layout (cpu_to_mcu (hw_mcu s))" "mailbox_layout (mcu_to_cpu (hw_mcu s))"
    using assms(1) by (simp_all add: hw_ok_def mailbox_ok_def)
  from mailbox_cong [OF lay(1), of "hw_mem s'" "hw_mem s"]
    mailbox_cong [OF lay(2), of "hw_mem s'" "hw_mem s"] assms
  show "hw_ok s'" "inbox s' = inbox s" "outbox s' = outbox s"
    by (simp_all add: hw_ok_def inbox_def outbox_def km_ok_def)
qed

lemma group_init_ok:
  assumes "al5_group_init m k = (g, k')" "km_nofail k" "0 \<le> m" "m < 2 ^ 32"
  shows "g = \<lparr>g_max_users_nb = m, g_users = Some (replicate (nat m) None)\<rparr>" "km_oracle k' = km_oracle k"
proof -
  have "unat (word_of_int m :: size_t) = nat m"
    using assms(3,4) by (simp add: unat_eq_nat_uint uint_word_of_int_eq take_bit_int_eq_self)
  then have "8 * unat (word_of_int m :: size_t) < 2 ^ 64" using assms(4) by simp
  with assms(1,2) show "g = \<lparr>g_max_users_nb = m, g_users = Some (replicate (nat m) None)\<rparr>"
    "km_oracle k' = km_oracle k"
    by (auto simp: al5_group_init_def kcalloc_ptrs_def Let_def kzalloc_def kmalloc_def km_nofail_def
        split: prod.splits)
qed

section \<open>Creating the codec\<close>

lemma create_codec_ok:
  assumes "km_ok (hw_k (hw_of c))" "km_nofail (hw_k (hw_of c))" "sizeof_mcu_interface \<le> n"
    and m: "0 \<le> m" "m < 2 ^ 32"
  shows "\<exists>err c'. create_codec n m c = Some (err, c') \<and> (err = 0 \<longrightarrow> codec_ready m c') \<and>
    cd_suballoc_buf c' = cd_suballoc_buf c \<and> sys_users (cd_sys c') = sys_users (cd_sys c) \<and>
    wakeup c' = wakeup c \<and> cd_blob c' = cd_blob c"
proof -
  let ?r = "cd_regs c" and ?s = "hw_of c"
  let ?cfg = "mailbox_config ?r" and ?k = "km_step 3 3 (hw_k (hw_of c))"
  note sz = mailbox_config_sizes [of ?r]
  obtain mcu mem where i: "mcu_interface_create_sized n ?cfg (?r + AL5_MCU_INTERRUPT) (hw_mem ?s) (hw_k ?s) =
      Some (0, Some mcu, mem, ?k)"
    and lay: "mailbox_area (cpu_to_mcu mcu) = {?r + 0x7000 ..< ?r + 0x7800}"
      "mailbox_area (mcu_to_cpu mcu) = {?r + 0x7800 ..< ?r + 0x8000}"
      "interrupt_register mcu = ?r + AL5_MCU_INTERRUPT"
    and ok: "\<And>d. hw_ok \<lparr>hw_mem = mem, hw_mcu = mcu, hw_k = ?k, hw_d = d\<rparr>"
      "\<And>d. inbox \<lparr>hw_mem = mem, hw_mcu = mcu, hw_k = ?k, hw_d = d\<rparr> = []"
      "\<And>d. outbox \<lparr>hw_mem = mem, hw_mcu = mcu, hw_k = ?k, hw_d = d\<rparr> = []"
    using mcu_interface_create_areas [OF assms(1,2), of ?cfg "?r + AL5_MCU_INTERRUPT" n "hw_mem ?s"] assms(3)
    by (auto simp: sz AL5_MCU_INTERRUPT_def Let_def add.commute)
  obtain g k where g: "al5_group_init m ?k = (g, k)" by (cases "al5_group_init m ?k")
  from group_init_ok [OF this _ m] assms(2) have
    g': "g = \<lparr>g_max_users_nb = m, g_users = Some (replicate (nat m) None)\<rparr>" "km_oracle k = km_oracle (hw_k ?s)"
    by simp_all
  let ?s1 = "?s\<lparr>hw_mem := mem, hw_mcu := mcu, hw_k := k\<rparr>"
  let ?c1 = "(set_hw ?s1 c)\<lparr>cd_sys := (cd_sys (set_hw ?s1 c))\<lparr>sys_group := g\<rparr>\<rparr>"
  obtain err c2 where a: "alloc_mcu_caches ?c1 = (err, c2)" by (cases "alloc_mcu_caches ?c1")
  note a' = alloc_mcu_caches_spec [OF a]
  have w2: "wakeup c2 = wakeup c" using a'(9) by (simp add: wakeup_def)
  show ?thesis
  proof (cases "err = 0")
    case False
    then show ?thesis
      using i g a a'(6,7,10) w2 by (simp add: create_codec_def Let_def)
  next
    case True
    obtain e2 c3 where q: "kcall Request_irq c2 = (e2, c3)" by (cases "kcall Request_irq c2")
    note s3 = log_step_sel [OF log_step_kcall [OF q]]
    have w3: "wakeup c3 = wakeup c" using kcall_wakeup [OF q] w2 by simp
    show ?thesis
    proof (cases "e2 = 0")
      case False
      then show ?thesis
        using i g a q True a'(6,7,10) s3 w3
        by (auto simp: create_codec_def Let_def wakeup_def split: prod.splits)
    next
      case irq: True
      let ?c = "kdo Set_drvdata c3"
      have r: "create_codec n m c = Some (0, ?c)"
        using i g a q True irq by (simp add: create_codec_def Let_def)
      let ?t = "\<lparr>hw_mem = mem, hw_mcu = mcu, hw_k = ?k, hw_d = hw_d ?s\<rparr>"
      have "hw_mem (hw_of c2) x = hw_mem ?t x"
        if "x \<in> mailbox_area (cpu_to_mcu (hw_mcu ?t)) \<union> mailbox_area (mcu_to_cpu (hw_mcu ?t))" for x
        using that a'(8) [of x] lay by auto
      moreover have "hw_mcu (hw_of c2) = hw_mcu ?t" "km_oracle (hw_k (hw_of c2)) = km_oracle (hw_k ?t)"
        using a'(2,3) g'(2) by simp_all
      ultimately have hw: "hw_ok (hw_of c2)" "inbox (hw_of c2) = []" "outbox (hw_of c2) = []"
        using hw_ok_cong [OF ok(1), of "hw_of c2" "hw_d ?s"] ok(2,3) [of "hw_d ?s"] by simp_all
      have "codec_ready m ?c"
        unfolding codec_ready_def
      proof (intro conjI)
        show "mcu_layout ?c" using lay a'(2,4) s3 by (simp add: mcu_layout_def)
        show "sys_ok (hw_of ?c)" using hw(1) a'(3) s3 g'(2) assms(2) by (simp add: sys_ok_def km_nofail_def)
        show "inbox (hw_of ?c) = []" "outbox (hw_of ?c) = []" using hw(2,3) s3 by simp_all
        show "group_ok (cd_sys ?c)" using a'(5) g'(1) s3 m(1) by (auto simp: group_ok_def)
        show "user_table (cd_sys ?c) = replicate (nat m) None"
          using a'(5) g'(1) s3 by (simp add: user_table_def)
        show "\<exists>ic. cd_icache ?c = Some ic \<and> unat (dma_size ic) = AL5_ICACHE_SIZE"
          using a'(1) True s3 by auto
      qed
      with r show ?thesis using a'(6,7,10) s3 w3 by simp
    qed
  qed
qed

lemma codec_set_up_ok:
  assumes "km_ok (hw_k (hw_of c))" "km_nofail (hw_k (hw_of c))" "sizeof_mcu_interface \<le> n"
    and m: "0 \<le> m" "m < 2 ^ 32"
  shows "\<exists>err c'. codec_set_up_sized n m c = Some (err, c') \<and>
    (if err = 0 then codec_ready m c' else last (calls c') = Release_memory) \<and>
    cd_suballoc_buf c' = cd_suballoc_buf c \<and> sys_users (cd_sys c') = sys_users (cd_sys c) \<and>
    wakeup c' = wakeup c \<and> cd_blob c' = cd_blob c"
proof -
  obtain e1 c1 where 1: "claim_resources c = (e1, c1)" by (cases "claim_resources c")
  note k = claim_resources_keeps [OF 1]
  show ?thesis
  proof (cases "e1 = 0")
    case False
    with 1 k show ?thesis by (simp add: codec_set_up_sized_def failed_def)
  next
    case True
    from create_codec_ok [of c1 n m] assms k obtain err c' where
      "create_codec n m c1 = Some (err, c')" "err = 0 \<longrightarrow> codec_ready m c'"
      "cd_suballoc_buf c' = cd_suballoc_buf c" "sys_users (cd_sys c') = sys_users (cd_sys c)"
      "wakeup c' = wakeup c" "cd_blob c' = cd_blob c" by auto
    with 1 True show ?thesis
      by (cases "err = 0") (simp_all add: codec_set_up_sized_def failed_def)
  qed
qed

lemma ready_inroom:
  assumes "codec_ready m c"
  shows "box_used (mcu_to_cpu (hw_mcu (hw_of c))) (hw_mem (hw_of c)) = 0"
    "unat (box_size (mcu_to_cpu (hw_mcu (hw_of c)))) = 0x7f8"
proof -
  let ?box = "mcu_to_cpu (hw_mcu (hw_of c))"
  show "box_used ?box (hw_mem (hw_of c)) = 0"
    using assms by (auto simp: codec_ready_def sys_ok_def hw_ok_def inbox_def mailbox_mails_Nil_used)
  have "{box_head ?box ..< box_head ?box + 8 + unat (box_size ?box)} = {cd_regs c + 0x7800 ..< cd_regs c + 0x8000}"
    using assms by (simp add: codec_ready_def mcu_layout_def mailbox_area_def)
  then show "unat (box_size ?box) = 0x7f8"
    using atLeastLessThan_eq_iff [of "box_head ?box" "box_head ?box + 8 + unat (box_size ?box)"
        "cd_regs c + 0x7800" "cd_regs c + 0x8000"] by simp
qed

lemma ready_room:
  assumes "codec_ready m c"
  shows "outroom (hw_of c) = 0x7f8"
proof -
  let ?box = "cpu_to_mcu (hw_mcu (hw_of c))"
  have ok: "mailbox_ok ?box (hw_mem (hw_of c))" and e: "mailbox_mails ?box (hw_mem (hw_of c)) = []"
    using assms by (simp_all add: codec_ready_def sys_ok_def hw_ok_def outbox_def)
  have "{box_head ?box ..< box_head ?box + 8 + unat (box_size ?box)} = {cd_regs c + 0x7000 ..< cd_regs c + 0x7800}"
    using assms by (simp add: codec_ready_def mcu_layout_def mailbox_area_def)
  then have "unat (box_size ?box) = 0x7f8"
    using atLeastLessThan_eq_iff [of "box_head ?box" "box_head ?box + 8 + unat (box_size ?box)"
        "cd_regs c + 0x7000" "cd_regs c + 0x7800"] by simp
  with e mailbox_mails_Nil_used [OF ok] show ?thesis by (simp add: outroom_def)
qed

section \<open>Starting from it\<close>

lemma whole_words_below: "n mod 4 = 0 \<Longrightarrow> n \<le> length (whole_words bs) \<longleftrightarrow> n \<le> length bs"
  unfolding length_whole_words by presburger

lemma start_mailboxes:
  assumes "mcu_layout c" "hw_ok (hw_of c)" "fits fw bl_fw" "cd_icache c = Some ic"
    "unat (dma_size ic) = AL5_ICACHE_SIZE"
  shows "\<exists>c'. setup_and_start_mcu fw bl_fw c = Some (0, c') \<and>
    (length bl_fw < 0x7004 \<longrightarrow>
      hw_ok (hw_of c') \<and> inbox (hw_of c') = inbox (hw_of c) \<and> outbox (hw_of c') = outbox (hw_of c)) \<and>
    (0x7004 \<le> length bl_fw \<longrightarrow> (\<forall>i < 4. hw_mem (hw_of c') (cd_regs c + 0x7000 + i) = bl_fw ! (0x7000 + i)))"
proof -
  obtain c' n where s: "setup_and_start_mcu fw bl_fw c = Some (0, c')"
    "\<forall>i < length (whole_words bl_fw). hw_mem (hw_of c') (cd_regs c + i) = bl_fw ! i"
    "length (whole_words bl_fw) \<le> 0x7000 \<longrightarrow> same_boxes c c'"
    using setup_and_start_ok [OF assms(1,3-5)] by blast
  have "same_boxes c c'" if "length bl_fw < 0x7004"
  proof -
    have "\<not> 0x7004 \<le> length (whole_words bl_fw)" using that whole_words_below [of "0x7004" bl_fw] by simp
    moreover have "length (whole_words bl_fw) mod 4 = 0" by (simp add: length_whole_words)
    ultimately have "length (whole_words bl_fw) \<le> 0x7000" by presburger
    with s(3) show ?thesis by simp
  qed
  moreover have "hw_mem (hw_of c') (cd_regs c + 0x7000 + i) = bl_fw ! (0x7000 + i)"
    if "0x7004 \<le> length bl_fw" "i < 4" for i
  proof -
    have "0x7000 + i < length (whole_words bl_fw)"
      using that whole_words_below [of "0x7004" bl_fw] by simp
    with s(2) show ?thesis by (simp add: add.assoc)
  qed
  ultimately show ?thesis
    using s(1) same_boxes_ok [OF _ assms(1,2), of c'] by (intro exI [of _ c'] conjI impI allI) simp_all
qed

section \<open>Properties\<close>


text \<open>A platform that has what the code asks for and no dedicated memory, registers at 1, four-byte
  firmware files.\<close>

definition codec0 :: codec where
  "codec0 = \<lparr>cd_sys = \<lparr>sys_group = \<lparr>g_max_users_nb = 0, g_users = None\<rparr>, sys_users = Map.empty,
       sys_hw = \<lparr>hw_mem = (\<lambda>_. 0), hw_mcu = hw_mcu hw0, hw_k = kmem0, hw_d = dsys7\<rparr>\<rparr>,
     cd_icache = None, cd_suballoc_buf = None, cd_dcache_base_addr = 0, cd_regs = 0, cd_minor = 0,
     cd_icache_mem = (\<lambda>_. 0), cd_answer = (\<lambda>n. if n < 3 then 1 else 0), cd_blob = (\<lambda>n. replicate 4 7),
     cd_log = []\<rparr>"

definition claimed0 :: codec where
  "claimed0 = codec0\<lparr>cd_regs := 1, cd_log := [(Get_resource, 1), (Get_irq, 1), (Ioremap, 1),
     (Parse_mem_node, 0), (Of_node_put, 0)]\<rparr>"

lemma codec0_claims: "claim_resources codec0 = (0, claimed0)"
  by (simp add: claim_resources_def claimed0_def kcall_def codec0_def Let_def
      declare_dedicated_memory_def kdo_def)

lemma codec0_creates: "\<exists>c'. create_codec sizeof_mcu_interface 4 claimed0 = Some (0, c')"
  by (simp add: create_codec_def claimed0_def hw_of_def set_hw_def codec0_def Let_def kmalloc_def
      mcu_interface_create_sized_def kmem0_def store_field_def sizeof_mcu_interface_def
      al5_mailbox_init_def al5_group_init_def kcalloc_ptrs_def kzalloc_def alloc_mcu_caches_def
      al5_alloc_dma_def dcall_def dsys7_def kcall_def kdo_def al5_writel_def)

lemma codec0_sets_up: "\<exists>c'. codec_set_up_sized sizeof_mcu_interface 4 codec0 = Some (0, c')"
  using codec0_claims codec0_creates by (auto simp: codec_set_up_sized_def)

lemma codec0_sel: "hw_k (hw_of codec0) = kmem0" "sys_users (cd_sys codec0) = Map.empty"
  by (simp_all add: codec0_def hw_of_def)


lemma codec0_ready:
  obtains c' ic where "codec_set_up_sized sizeof_mcu_interface 4 codec0 = Some (0, c')" "codec_ready 4 c'"
    "cd_icache c' = Some ic" "unat (dma_size ic) = AL5_ICACHE_SIZE" "sys_users (cd_sys c') = Map.empty"
proof -
  from codec_set_up_ok [of codec0 sizeof_mcu_interface 4] codec0_sets_up obtain c' where
    c': "codec_set_up_sized sizeof_mcu_interface 4 codec0 = Some (0, c')" "codec_ready 4 c'"
    "sys_users (cd_sys c') = Map.empty" by (auto simp: codec0_sel)
  from c'(2) obtain ic where "cd_icache c' = Some ic" "unat (dma_size ic) = AL5_ICACHE_SIZE"
    by (auto simp: codec_ready_def)
  with c' show thesis by (intro that [of c' ic])
qed

text \<open>A processor that never sleeps is given up after six polls.\<close>

theorem stop_mcu_bounded_witness:
  "map fst (cd_log (stop_mcu codec0)) = [Write_reg AL5_MCU_WAKEUP 0,
      Write_reg AL5_MCU_INTERRUPT_HANDLER MCU_SLEEP_INSTRUCTION, Signal_mcu] @
    concat (replicate 5 [Read_reg AL5_MCU_STA, Msleep 20]) @ [Read_reg AL5_MCU_STA]"
proof -
  obtain n where n: "n \<le> 5" "map fst (cd_log (stop_mcu codec0)) = map fst (cd_log codec0) @
      [Write_reg AL5_MCU_WAKEUP 0, Write_reg AL5_MCU_INTERRUPT_HANDLER MCU_SLEEP_INSTRUCTION, Signal_mcu] @
      concat (replicate n [Read_reg AL5_MCU_STA, Msleep 20]) @ [Read_reg AL5_MCU_STA]"
    "n < 5 \<longrightarrow> and (word_of_int (cd_answer codec0 (length (cd_log codec0) + 3 + 2 * n)) :: u32) 1 = 1"
    using stop_mcu_bounded [of codec0] by blast
  from n(3) have "\<not> n < 5" by (simp add: codec0_def)
  with n(1) have "n = 5" by simp
  with n(2) show ?thesis by (simp add: codec0_def)
qed

theorem setup_and_start_mcu_spec_witness:
  "\<exists>c c' ret n. codec_set_up_sized sizeof_mcu_interface 4 codec0 = Some (0, c) \<and>
    setup_and_start_mcu [1, 2] (replicate 8 5) c = Some (0, c') \<and>
    calls c' = calls c @ stop_calls n @ reset_calls @ [Copy_icache 2, Copy_sram 8] @ start_calls (the (cd_icache c))"
proof -
  obtain c ic where c: "codec_set_up_sized sizeof_mcu_interface 4 codec0 = Some (0, c)" "codec_ready 4 c"
    "cd_icache c = Some ic" "unat (dma_size ic) = AL5_ICACHE_SIZE" by (rule codec0_ready)
  have "mcu_layout c" using c(2) by (simp add: codec_ready_def)
  from setup_and_start_mcu_spec [OF this c(3,4), of "[1, 2]" "replicate 8 5"] obtain c' n where
    "setup_and_start_mcu [1, 2] (replicate 8 5) c = Some (0, c')"
    "calls c' = calls c @ stop_calls n @ reset_calls @ [Copy_icache 2, Copy_sram 8] @ start_calls ic"
    by (auto simp: AL5_ICACHE_SIZE_def MCU_SRAM_SIZE_def)
  with c show ?thesis by auto
qed

text \<open>C39: the start and the mailboxes. They lie in the last 4 KB of the memory the bootloader is
  copied to. A bootloader that ends before them leaves the interface as \<open>al5_codec_set_up\<close> made
  it; one that reaches into them, which the test of its size lets through, overwrites the position
  of the command mailbox with its own bytes.\<close>

theorem bootloader_and_mailboxes:
  assumes "mcu_layout c" "hw_ok (hw_of c)" "length fw \<le> AL5_ICACHE_SIZE" "length bl_fw \<le> MCU_SRAM_SIZE"
    "cd_icache c = Some ic" "unat (dma_size ic) = AL5_ICACHE_SIZE"
  shows "\<exists>c'. setup_and_start_mcu fw bl_fw c = Some (0, c') \<and>
    (length bl_fw < 0x7004 \<longrightarrow>
      hw_ok (hw_of c') \<and> inbox (hw_of c') = inbox (hw_of c) \<and> outbox (hw_of c') = outbox (hw_of c)) \<and>
    (0x7004 \<le> length bl_fw \<longrightarrow> (\<forall>i < 4. hw_mem (hw_of c') (cd_regs c + 0x7000 + i) = bl_fw ! (0x7000 + i)))"
  using assms by (intro start_mailboxes) (simp_all add: fits_def)

theorem bootloader_and_mailboxes_witness:
  "\<exists>c c'. codec_set_up_sized sizeof_mcu_interface 4 codec0 = Some (0, c) \<and>
    setup_and_start_mcu [] (replicate 0x8000 5) c = Some (0, c') \<and>
    (\<forall>i < 4. hw_mem (hw_of c') (cd_regs c + 0x7000 + i) = 5)"
proof -
  obtain c ic where c: "codec_set_up_sized sizeof_mcu_interface 4 codec0 = Some (0, c)" "codec_ready 4 c"
    "cd_icache c = Some ic" "unat (dma_size ic) = AL5_ICACHE_SIZE" by (rule codec0_ready)
  have l: "mcu_layout c" "hw_ok (hw_of c)" using c(2) by (simp_all add: codec_ready_def sys_ok_def)
  let ?bl = "replicate 0x8000 (5 :: u8)"
  have n: "length ([] :: u8 list) \<le> AL5_ICACHE_SIZE" "length ?bl \<le> MCU_SRAM_SIZE" "0x7004 \<le> length ?bl"
    unfolding length_replicate by (simp_all add: MCU_SRAM_SIZE_def)
  obtain c' where s: "setup_and_start_mcu [] ?bl c = Some (0, c')"
    "\<forall>i < 4. hw_mem (hw_of c') (cd_regs c + 0x7000 + i) = ?bl ! (0x7000 + i)"
    using bootloader_and_mailboxes [OF l n(1,2) c(3,4)] n(3) by blast
  have b: "?bl ! (0x7000 + i) = 5" if "i < 4" for i
    using nth_replicate [where n = "0x8000" and x = "5 :: u8" and i = "0x7000 + i"] that by linarith
  have "\<forall>i < 4. hw_mem (hw_of c') (cd_regs c + 0x7000 + i) = 5"
  proof (intro allI impI)
    fix i :: nat
    assume i: "i < 4"
    show "hw_mem (hw_of c') (cd_regs c + 0x7000 + i) = 5"
      using s(2) [rule_format, OF i] b [OF i] by (rule trans)
  qed
  with c(1) s(1) show ?thesis by (intro exI conjI)
qed

end
