(* ===== verification/Delivery.thy ===== *)
theory Delivery
  imports Codec_Setup Enc_User
begin

text \<open>
  From the firmware's mailbox to the caller: the two interrupt handlers of \<open>common/al_vcu.c\<close>, the
  routing of \<open>common/al_group.c\<close> and the waiting operation of \<open>al5e/enc_user.c\<close> together.
\<close>

section \<open>The interrupt\<close>

lemma al5_hardirq_handler_none:
  assumes "(word_of_int (cd_answer c (length (cd_log c))) :: u32) = 0"
  shows "al5_hardirq_handler c = (IRQ_NONE, kdo (Read_reg AL5_MCU_IRQ_STA) c)"
  using assms by (simp add: al5_hardirq_handler_def al5_readl_eq)

lemma al5_hardirq_handler_wakes:
  assumes "(word_of_int (cd_answer c (length (cd_log c))) :: u32) = w" "w \<noteq> 0"
  shows "\<exists>c'. al5_hardirq_handler c = (IRQ_WAKE_THREAD, c') \<and> same_boxes c c' \<and>
    calls c' = calls c @ [Read_reg AL5_MCU_IRQ_STA, Write_reg AL5_MCU_INTERRUPT_CLR w, Read_reg AL5_MCU_IRQ_STA]"
  using assms
  by (simp add: al5_hardirq_handler_def al5_readl_eq same_boxes_writel AL5_MCU_INTERRUPT_CLR_def)

lemma irq_delivers:
  assumes g: "group_ok (cd_sys c)" and lay: "mcu_layout c" and s: "sys_ok (hw_of c)"
    and m: "\<forall>w \<in> set (inbox (hw_of c)). fw_mail_ok (mail_of_wire w)"
    and irq: "(word_of_int (cd_answer c (length (cd_log c))) :: u32) \<noteq> 0"
  obtains c1 c2 where "al5_hardirq_handler c = (IRQ_WAKE_THREAD, c1)"
    "al5_irq_handler c1 = Some (IRQ_HANDLED, c2)" "group_ok (cd_sys c2)" "sys_ok (hw_of c2)"
    "inbox (hw_of c2) = drop 100 (inbox (hw_of c))"
    "delivered (map mail_of_wire (take 100 (inbox (hw_of c)))) (cd_sys c1) (cd_sys c2)"
    "same_routes (cd_sys c) (cd_sys c1)" "sys_users (cd_sys c1) = sys_users (cd_sys c)"
proof -
  obtain c1 where c1: "al5_hardirq_handler c = (IRQ_WAKE_THREAD, c1)" "same_boxes c c1"
    using al5_hardirq_handler_wakes [OF refl irq] by blast
  have h: "hw_ok (hw_of c)" using s by (simp add: sys_ok_def)
  have r: "same_routes (cd_sys c) (cd_sys c1)" using c1(2) by (simp add: same_boxes_def same_routes_def)
  have "sys_ok (sys_hw (cd_sys c1))" "inbox (sys_hw (cd_sys c1)) = inbox (hw_of c)"
    using same_boxes_ok [OF c1(2) lay h] c1(2) s
    by (simp_all add: sys_ok_def same_boxes_def hw_of_def)
  with read_mails_all [OF same_routes_ok [OF r g], of 100] m obtain st where
    st: "read_mails 100 (cd_sys c1) = Some st" "group_ok st" "sys_ok (sys_hw st)"
    "inbox (sys_hw st) = drop 100 (inbox (hw_of c))"
    "delivered (map mail_of_wire (take 100 (inbox (hw_of c)))) (cd_sys c1) st" by auto
  show thesis
  proof (rule that [of c1 "c1\<lparr>cd_sys := st\<rparr>"])
    show "al5_irq_handler c1 = Some (IRQ_HANDLED, c1\<lparr>cd_sys := st\<rparr>)"
      using st(1) by (simp add: al5_irq_handler_def al5_group_read_mails_def MAX_MAILBOX_MSG_def)
  qed (use c1 st r in \<open>simp_all add: same_boxes_def\<close>)
qed

section \<open>Properties\<close>

text \<open>C3: a status reaches the caller that waits for it. The firmware has raised an interrupt and put
  messages into its mailbox; among the first 100 there is one for the status queue of the user at
  \<open>p\<close>, which is empty. Then the hard handler acknowledges and wakes the thread, the thread delivers,
  and \<open>al5e_user_wait_for_status\<close> returns 0 at once with the bytes of the first of these messages
  behind its channel word; the others stay queued in order.\<close>

theorem status_reaches_waiter:
  assumes "group_ok (cd_sys c)" "mcu_layout c" "sys_ok (hw_of c)"
    and "\<forall>w \<in> set (inbox (hw_of c)). fw_mail_ok (mail_of_wire w)"
    and "(word_of_int (cd_answer c (length (cd_log c))) :: u32) \<noteq> 0"
    and user: "sys_users (cd_sys c) p = Some u" "al5_chan_is_created u" "\<not> u_locks u AL5_USER_STATUS"
      "q_list (u_queues u AL5_USER_MAIL_STATUS) = []"
    and mails: "routed (cd_sys c) p AL5_USER_MAIL_STATUS (map mail_of_wire (take 100 (inbox (hw_of c)))) =
      mail_of uid bs # rest" "4 \<le> length bs" "length bs \<le> 516" and params: "params_ok msg"
  shows "\<exists>c1 c2 u' msg' u'' s''. al5_hardirq_handler c = (IRQ_WAKE_THREAD, c1) \<and>
    al5_irq_handler c1 = Some (IRQ_HANDLED, c2) \<and> sys_users (cd_sys c2) p = Some u' \<and>
    al5e_user_wait_for_status (calm_env r) msg u' (hw_of c2) = Some (0, msg', u'', s'') \<and>
    params_data msg' = drop 4 bs \<and> q_list (u_queues u'' AL5_USER_MAIL_STATUS) = rest"
proof -
  obtain c1 c2 where c: "al5_hardirq_handler c = (IRQ_WAKE_THREAD, c1)"
    "al5_irq_handler c1 = Some (IRQ_HANDLED, c2)"
    "delivered (map mail_of_wire (take 100 (inbox (hw_of c)))) (cd_sys c1) (cd_sys c2)"
    "same_routes (cd_sys c) (cd_sys c1)" "sys_users (cd_sys c1) = sys_users (cd_sys c)"
    using irq_delivers [OF assms(1-5)] by metis
  have rt: "routed (cd_sys c1) = routed (cd_sys c)"
    using same_routes_route [OF c(4)] by (simp add: routed_def fun_eq_iff)
  have u1: "sys_users (cd_sys c1) p = Some u" using c(5) user(1) by simp
  from c(3) [unfolded delivered_def] u1 obtain u' where u': "sys_users (cd_sys c2) p = Some u'"
    "u'\<lparr>u_queues := u_queues u\<rparr> = u" "q_list (u_queues u' AL5_USER_MAIL_STATUS) =
      q_list (u_queues u AL5_USER_MAIL_STATUS) @
      routed (cd_sys c1) p AL5_USER_MAIL_STATUS (map mail_of_wire (take 100 (inbox (hw_of c))))" by blast
  have f: "u_locks u' AL5_USER_STATUS = u_locks u AL5_USER_STATUS" "u_chan_uid u' = u_chan_uid u"
    using u'(2) by (cases u; cases u'; simp)+
  have q: "q_list (u_queues u' AL5_USER_MAIL_STATUS) = mail_of uid bs # rest"
    using u'(3) user(4) rt mails(1) by simp
  let ?v = "u'\<lparr>u_locks := (u_locks u')(AL5_USER_STATUS := True)\<rparr>"
  have w: "e_wait (calm_env r) AL5_USER_MAIL_STATUS (?v, hw_of c2) = (r, ?v, hw_of c2)"
    by (simp add: calm_env_def)
  have "length bs < 2 ^ 16" using mails(3) by simp
  from wait_for_status_eq [where u = u' and ms = "mail_of uid bs # rest", OF params this w, of uid] q
  obtain msg' u'' where
    "al5e_user_wait_for_status (calm_env r) msg u' (hw_of c2) =
      Some (0, msg', u'', (hw_of c2)\<lparr>hw_k := km_step 0 (- 2) (hw_k (hw_of c2))\<rparr>)"
    "params_data msg' = drop 4 bs" "q_list (u_queues u'' AL5_USER_MAIL_STATUS) = rest"
    using f user(2,3) mails(2,3) by (auto simp: al5_chan_is_created_def)
  with c(1,2) u'(1) show ?thesis by blast
qed

text \<open>The device of \<open>codec0\<close> set up, with user 0 at 10 that owns channel 3, the status of
  \<open>status3\<close> in the firmware's mailbox and the interrupt raised.\<close>

definition with_status :: "codec \<Rightarrow> codec" where
  "with_status c = c\<lparr>cd_sys := sys1\<lparr>sys_hw := firmware_puts status3 (hw_of c)\<rparr>, cd_answer := (\<lambda>_. 1)\<rparr>"

lemma with_status_ok:
  assumes "codec_ready 4 c"
  shows "group_ok (cd_sys (with_status c))" "mcu_layout (with_status c)" "sys_ok (hw_of (with_status c))"
    "inbox (hw_of (with_status c)) = [wire_of status3]" "cd_answer (with_status c) i = 1"
    "sys_users (cd_sys (with_status c)) 10 = Some ((al5_user_init 0)\<lparr>u_chan_uid := 3\<rparr>)"
    "routed (cd_sys (with_status c)) 10 AL5_USER_MAIL_STATUS [status3] = [status3]"
proof -
  have hw: "hw_of (with_status c) = firmware_puts status3 (hw_of c)" by (simp add: with_status_def hw_of_def)
  have s: "sys_ok (hw_of c)" "inbox (hw_of c) = []" using assms by (simp_all add: codec_ready_def)
  have wf: "mail_wf status3" by (simp add: status3_def)
  have "box_used (mcu_to_cpu (hw_mcu (hw_of c))) (hw_mem (hw_of c)) + unat (body_size status3) + 8
      \<le> unat (box_size (mcu_to_cpu (hw_mcu (hw_of c))))"
    using ready_inroom [OF assms] by (simp add: status3_def mail_of_sel)
  from firmware_puts_ok [OF s(1) wf this] s(2)
  show "sys_ok (hw_of (with_status c))" "inbox (hw_of (with_status c)) = [wire_of status3]" by (simp_all add: hw)
  show "mcu_layout (with_status c)"
    using assms by (simp add: codec_ready_def mcu_layout_def hw) (simp add: firmware_puts_def with_status_def)
  have r: "same_routes sys1 (cd_sys (with_status c))" by (simp add: same_routes_def with_status_def)
  show "group_ok (cd_sys (with_status c))" using r sys1_ok(1) by (rule same_routes_ok)
  show "cd_answer (with_status c) i = 1" by (simp add: with_status_def)
  show "sys_users (cd_sys (with_status c)) 10 = Some ((al5_user_init 0)\<lparr>u_chan_uid := 3\<rparr>)"
    by (simp add: with_status_def sys1_def)
  show "routed (cd_sys (with_status c)) 10 AL5_USER_MAIL_STATUS [status3] = [status3]"
    by (simp add: routed_def same_routes_route [OF r] status3_route)
qed

theorem status_reaches_waiter_witness:
  "\<exists>c c1 c2 u' msg' u'' s''. codec_set_up_sized sizeof_mcu_interface 4 codec0 = Some (0, c) \<and>
    al5_hardirq_handler (with_status c) = (IRQ_WAKE_THREAD, c1) \<and>
    al5_irq_handler c1 = Some (IRQ_HANDLED, c2) \<and>
    al5e_user_wait_for_status (calm_env 0) params0 u' (hw_of c2) = Some (0, msg', u'', s'')"
proof -
  obtain c where c: "codec_set_up_sized sizeof_mcu_interface 4 codec0 = Some (0, c)" "codec_ready 4 c"
    by (rule codec0_ready)
  note w = with_status_ok [OF c(2)]
  let ?u = "(al5_user_init 0)\<lparr>u_chan_uid := 3\<rparr>"
  have m: "\<forall>w \<in> set (inbox (hw_of (with_status c))). fw_mail_ok (mail_of_wire w)"
    by (simp add: w(4) status3_wire) (simp add: fw_mail_ok_def status3_def mail_simps)
  have i: "(word_of_int (cd_answer (with_status c) (length (cd_log (with_status c)))) :: u32) \<noteq> 0"
    by (simp add: w(5))
  have u: "al5_chan_is_created ?u" "\<not> u_locks ?u AL5_USER_STATUS" "q_list (u_queues ?u AL5_USER_MAIL_STATUS) = []"
    by (simp_all add: al5_user_init_def al5_chan_is_created_def BAD_CHAN_def al5_queue_init_def)
  have r: "routed (cd_sys (with_status c)) 10 AL5_USER_MAIL_STATUS
      (map mail_of_wire (take 100 (inbox (hw_of (with_status c))))) =
      mail_of (uid_code AL_MCU_MSG_ENCODE_ONE_FRM) (le32 3) # []"
    using w(7) by (simp add: w(4) status3_wire) (simp add: status3_def)
  have b: "4 \<le> length (le32 3)" "length (le32 3) \<le> 516" "params_ok params0" by simp_all
  show ?thesis
    using c(1) status_reaches_waiter [OF w(1-3) m i w(6) u r b, of 0] by blast
qed

end
