(* ===== verification/Message_Forms.thy ===== *)
theory Message_Forms
  imports User_Kept Delivery
begin

text \<open>
  What the firmware's messages must look like, and what follows for the commands. A message of the
  wrong form makes the code read outside it, so each codec's firmware owes a form per queue. As long
  as every message a user receives has its form, its queues hold such messages only
  (\<open>queues_ok\<close>), and every command returns; the other threads owe no more than to keep that.
\<close>

section \<open>Forms\<close>

type_synonym form = "user_mail \<Rightarrow> al5_mail \<Rightarrow> bool"

fun enc_form :: form where
  "enc_form AL5_USER_MAIL_STATUS m = status_ok m"
| "enc_form AL5_USER_MAIL_CREATE m = feedback_ok m"
| "enc_form _ m = True"

fun dec_form :: form where
  "dec_form AL5_USER_MAIL_STATUS m = status_ok m"
| "dec_form AL5_USER_MAIL_CREATE m = dec_answer_ok m"
| "dec_form AL5_USER_MAIL_SC m = (12 \<le> length (body m))"
| "dec_form _ m = True"

definition queues_ok :: "form \<Rightarrow> al5_user \<Rightarrow> bool" where
  "queues_ok form u \<longleftrightarrow> (\<forall>q. \<forall>m \<in> set (q_list (u_queues u q)). form q m)"

text \<open>A message as the firmware of the codec may send it.\<close>

definition fw_form :: "form \<Rightarrow> al5_mail \<Rightarrow> bool" where
  "fw_form form m \<longleftrightarrow> fw_mail_ok m \<and>
     (al5_mail_get_uid m \<noteq> uid_code AL_MCU_MSG_TRACE \<longrightarrow> form (mail_to_queue (al5_mail_get_uid m)) m)"

lemma queues_okD: "queues_ok form u \<Longrightarrow> m \<in> set (q_list (u_queues u q)) \<Longrightarrow> form q m"
  by (auto simp: queues_ok_def)

lemma queues_ok_init [simp]: "queues_ok form (al5_user_init uid)"
  by (simp add: queues_ok_def al5_user_init_def al5_queue_init_def)

lemma queues_ok_set:
  "queues_ok form u \<Longrightarrow> (\<And>m. m \<in> set (q_list qu) \<Longrightarrow> form q m) \<Longrightarrow> queues_ok form (set_queue q qu u)"
  by (simp add: queues_ok_def set_queue_def)

text \<open>The two predicates on users that every operation keeps.\<close>

interpretation uid_kept: kept_user "\<lambda>u. u_uid u = i" for i
  by unfold_locales (simp_all add: set_queue_def)

interpretation forms_kept: kept_user "queues_ok form" for form
proof
  show "queues_ok form (set_queue q qu u)"
    if "queues_ok form u" "set (q_list qu) \<subseteq> set (q_list (u_queues u q))" for u q qu
    using that by (intro queues_ok_set) (auto dest: queues_okD)
qed (simp_all add: queues_ok_def)

lemma env_ok_keeps_uid: "env_ok e \<Longrightarrow> keeps_env (\<lambda>u. u_uid u = i) e"
  unfolding keeps_env_def env_ok_def env_keeps_def by (simp add: split_def)

text \<open>A message lands in the queue its form is for.\<close>

lemma routed_form:
  assumes "m \<in> set (routed st p q ms)" "fw_form form m"
  shows "form q m"
proof -
  from assms(1) have "al5_mail_get_uid m \<noteq> uid_code AL_MCU_MSG_TRACE"
    "q = mail_to_queue (al5_mail_get_uid m)"
    by (auto simp: routed_def route_def Let_def split: if_splits)
  with assms(2) show ?thesis by (simp add: fw_form_def)
qed

lemma delivered_forms:
  assumes "delivered ms st st'" "\<And>m. m \<in> set ms \<Longrightarrow> fw_form form m"
    and "sys_users st p = Some u" "sys_users st' p = Some u'" "queues_ok form u"
  shows "queues_ok form u'"
  unfolding queues_ok_def
proof (intro allI ballI)
  fix q m
  assume m: "m \<in> set (q_list (u_queues u' q))"
  from assms(1,3,4) have "q_list (u_queues u' q) = q_list (u_queues u q) @ routed st p q ms"
    unfolding delivered_def by fastforce
  with m consider "m \<in> set (q_list (u_queues u q))" | "m \<in> set (routed st p q ms)" by auto
  then show "form q m"
  proof cases
    case 1
    with assms(5) show ?thesis by (rule queues_okD)
  next
    case 2
    then have "m \<in> set ms" by (simp add: routed_def)
    with 2 assms(2) show ?thesis by (blast intro: routed_form)
  qed
qed

section \<open>The other threads\<close>

text \<open>The contract of the other threads of a command: \<open>env_ok\<close>, the forms kept, and a wait for the
  answer to a creation that ends as the kernel documents.\<close>

definition create_waits :: "env \<Rightarrow> bool" where
  "create_waits e \<longleftrightarrow> (\<forall>st. case e_wait e AL5_USER_MAIL_CREATE st of (r, st') \<Rightarrow>
     wait_timeout_result r (u_queues (fst st') AL5_USER_MAIL_CREATE))"

definition others_ok :: "form \<Rightarrow> env \<Rightarrow> bool" where
  "others_ok form e \<longleftrightarrow> env_ok e \<and> keeps_env (queues_ok form) e \<and> create_waits e"

text \<open>The same threads where the forms hold, and where they do not, threads that do nothing and
  leave the queue empty. A command from a user whose queues have their forms does not see the
  difference.\<close>

definition guarded :: "form \<Rightarrow> env \<Rightarrow> env" where
  "guarded form e =
     \<lparr>e_lock = (\<lambda>op st. if queues_ok form (fst st) then e_lock e op st else (- EINTR, st)),
      e_wait = (\<lambda>q st. if queues_ok form (fst st) then e_wait e q st
                       else (0, set_queue q al5_queue_init (fst st), snd st))\<rparr>"

lemma guarded_same: "same_on (queues_ok form) e (guarded form e)"
  by (simp add: same_on_def guarded_def)

lemma guarded_env_ok:
  assumes "env_ok e"
  shows "env_ok (guarded form e)"
  using assms by (auto simp: env_ok_def guarded_def)

lemma guarded_queue:
  assumes "keeps_env (queues_ok form) e"
    and "m \<in> set (q_list (u_queues (fst (snd (e_wait (guarded form e) q st))) q))"
  shows "form q m"
proof (cases "queues_ok form (fst st)")
  case True
  with assms(1) have "queues_ok form (fst (snd (e_wait e q st)))" unfolding keeps_env_def by blast
  with True assms(2) show ?thesis by (auto simp: guarded_def dest: queues_okD)
next
  case False
  with assms(2) show ?thesis by (simp add: guarded_def set_queue_def al5_queue_init_def)
qed

lemma guarded_answers:
  assumes "others_ok form e"
  shows "create_answers (form AL5_USER_MAIL_CREATE) (guarded form e)"
  unfolding create_answers_def
proof (intro allI impI conjI)
  fix st r st'
  assume w: "e_wait (guarded form e) AL5_USER_MAIL_CREATE st = (r, st')"
  show "\<forall>m \<in> set (q_list (u_queues (fst st') AL5_USER_MAIL_CREATE)). form AL5_USER_MAIL_CREATE m"
    using guarded_queue [of form e _ AL5_USER_MAIL_CREATE st] w assms by (simp add: others_ok_def)
  show "wait_timeout_result r (u_queues (fst st') AL5_USER_MAIL_CREATE)"
  proof (cases "queues_ok form (fst st)")
    case True
    with w have "e_wait e AL5_USER_MAIL_CREATE st = (r, st')" by (simp add: guarded_def)
    with assms show ?thesis unfolding others_ok_def create_waits_def by (metis case_prod_conv)
  next
    case False
    with w show ?thesis
      by (auto simp: guarded_def set_queue_def al5_queue_init_def wait_timeout_result_def
          mail_is_available_def)
  qed
qed

section \<open>Commands\<close>

lemma enc_command_returns:
  assumes e: "others_ok enc_form e" and r: "um_rec mem \<noteq> None \<longrightarrow> rec_waits_ok e"
    and u: "sys_ok s" "enc_inv u" "queues_ok enc_form u" and m: "enc_mem_ok mem"
  shows "\<exists>err w u' s'. al5e_ioctl e cmd mem u s = Some (err, w, u', s') \<and> sys_ok s' \<and>
    enc_inv u' \<and> queues_ok enc_form u' \<and> u_uid u' = u_uid u"
proof -
  let ?e = "guarded enc_form e"
  from e have ok: "env_ok e" "keeps_env (queues_ok enc_form) e" by (simp_all add: others_ok_def)
  have "enc_form AL5_USER_MAIL_CREATE = feedback_ok" by (simp add: fun_eq_iff)
  with guarded_answers [OF e] have a: "answers_ok ?e" by (simp add: answers_ok_def)
  have st: "status_waits_ok ?e"
    unfolding status_waits_ok_def using guarded_queue [OF ok(2), of _ AL5_USER_MAIL_STATUS] by simp
  have rw: "um_rec mem \<noteq> None \<longrightarrow> rec_waits_ok ?e"
    using r by (auto simp: rec_waits_ok_def guarded_def set_queue_def al5_queue_init_def)
  have c: "al5e_ioctl e cmd mem u s = al5e_ioctl ?e cmd mem u s"
    using ok(2) guarded_same u(3) by (rule forms_kept.al5e_ioctl_same)
  from al5e_ioctl_returns_if [OF guarded_env_ok [OF ok(1)] a st rw u(1,2) m, of cmd]
  obtain err w u' s' where x: "al5e_ioctl e cmd mem u s = Some (err, w, u', s')" "sys_ok s'" "enc_inv u'"
    unfolding c enc_returns_def by blast
  with forms_kept.al5e_ioctl_kept [OF ok(2) x(1) u(3)]
    uid_kept.al5e_ioctl_kept [OF env_ok_keeps_uid [OF ok(1)] x(1) refl]
  show ?thesis by blast
qed

lemma dec_command_returns:
  assumes e: "others_ok dec_form e" and u: "sys_ok s" "dec_inv u" "queues_ok dec_form u"
    and m: "dec_mem_ok mem"
  shows "\<exists>err w u' s'. al5d_ioctl e cmd mem u s = Some (err, w, u', s') \<and> sys_ok s' \<and>
    dec_inv u' \<and> queues_ok dec_form u' \<and> u_uid u' = u_uid u"
proof -
  let ?e = "guarded dec_form e"
  from e have ok: "env_ok e" "keeps_env (queues_ok dec_form) e" by (simp_all add: others_ok_def)
  have "dec_form AL5_USER_MAIL_CREATE = dec_answer_ok" by (simp add: fun_eq_iff)
  with guarded_answers [OF e] have "dec_answers_ok ?e" by (simp add: dec_answers_ok_def)
  moreover have "dec_waits_ok ?e"
    unfolding dec_waits_ok_def status_waits_ok_def
    using guarded_queue [OF ok(2), of _ AL5_USER_MAIL_STATUS] guarded_queue [OF ok(2), of _ AL5_USER_MAIL_SC]
    by simp
  ultimately have g: "dec_env_ok ?e" using guarded_env_ok [OF ok(1)] by (simp add: dec_env_ok_def)
  have c: "al5d_ioctl e cmd mem u s = al5d_ioctl ?e cmd mem u s"
    using ok(2) guarded_same u(3) by (rule forms_kept.al5d_ioctl_same)
  from al5d_ioctl_returns [OF g u(1,2) m, of cmd]
  obtain err w u' s' where x: "al5d_ioctl e cmd mem u s = Some (err, w, u', s')" "sys_ok s'" "dec_inv u'"
    unfolding c dec_returns_def by blast
  with forms_kept.al5d_ioctl_kept [OF ok(2) x(1) u(3)]
    uid_kept.al5d_ioctl_kept [OF env_ok_keeps_uid [OF ok(1)] x(1) refl]
  show ?thesis by blast
qed

end
