(* ===== verification/Codec_Files.thy ===== *)
theory Codec_Files
  imports Codec_Setup
begin

text \<open>
  Opening and closing a device file (\<open>al5_codec_open\<close>, \<open>al5_codec_release\<close> of
  \<open>common/al_codec.c\<close>): the outcomes of an open with their effect on the table and on memory, and
  the end of a close, which tries to destroy the channel for a bounded number of times.
\<close>

section \<open>Closing\<close>

lemma destroyed_pools: "destroyed u \<Longrightarrow> pools_ok u"
  by (simp add: destroyed_def pools_ok_def)

lemma env_keeps_pools: "env_keeps (u, s) (u', s') \<Longrightarrow> pools_ok u \<Longrightarrow> pools_ok u'"
  by (simp add: env_keeps_def pools_ok_def)

lemma destroy_tries_ok:
  assumes "\<And>i. env_ok (e i)"
  shows "sys_ok s \<Longrightarrow> pools_ok u \<Longrightarrow> al5_chan_is_created u \<or> ret = 0 \<and> destroyed u \<Longrightarrow>
    \<exists>ret' u' s'. destroy_tries e n ret u s = Some (ret', u', s') \<and> sys_ok s' \<and> pools_ok u' \<and>
      u_uid u' = u_uid u \<and> (al5_chan_is_created u' \<or> ret' = 0 \<and> destroyed u')"
proof (induction n arbitrary: ret u s)
  case 0
  then show ?case by simp
next
  case (Suc n)
  show ?case
  proof (cases "ret = 0")
    case True
    with Suc.prems show ?thesis by simp
  next
    case False
    with Suc.prems have c: "al5_chan_is_created u" by simp
    from al5_user_destroy_channel_ok [OF assms Suc.prems(1,2), of n True] c obtain r u1 s1 where
      d: "al5_user_destroy_channel (e n) True u s = Some (r, u1, s1)" "sys_ok s1" "u_uid u1 = u_uid u"
        "if r = 0 then destroyed u1 else env_keeps (u, s) (u1, s1)"
      by (auto split: if_splits)
    have "pools_ok u1"
      using d(4) Suc.prems(2) destroyed_pools env_keeps_pools by (auto split: if_splits)
    moreover have "al5_chan_is_created u1 \<or> r = 0 \<and> destroyed u1"
      using d(4) c by (auto simp: env_keeps_def al5_chan_is_created_def split: if_splits)
    ultimately show ?thesis using Suc.IH [OF d(2), of u1 r] d(1,3) False by auto
  qed
qed

lemma close_channel_ok:
  assumes e: "\<And>i. env_ok (e i)" and s: "sys_ok s" and u: "pools_ok u"
  shows "\<exists>u' s'. close_channel e u s = Some (u', s') \<and> sys_ok s' \<and> u_uid u' = u_uid u"
proof (cases "al5_chan_is_created u")
  case False
  with s show ?thesis by (simp add: close_channel_def)
next
  case True
  then obtain r u1 s1 where
    t: "destroy_tries e CLOSE_TRIES (- 1) u s = Some (r, u1, s1)" "sys_ok s1" "pools_ok u1" "u_uid u1 = u_uid u"
    using destroy_tries_ok [of e s u "- 1" CLOSE_TRIES] e s u by blast
  from destroy_resources_eq [OF t(3), of s1] obtain s' where
    "al5_user_destroy_channel_resources u1 s1 =
      Some (u1\<lparr>u_int_buffers := al5_bufpool_init, u_rec_buffers := al5_bufpool_init\<rparr>, s')" "hw_frame s1 s'"
    by blast
  with t True sys_ok_frame show ?thesis by (auto simp: close_channel_def)
qed

text \<open>Taking a user out of the table and out of memory.\<close>

lemma group_ok_update:
  assumes "group_ok st" "sys_users st p = Some u" "u_uid u' = u_uid u"
  shows "group_ok (st\<lparr>sys_users := (sys_users st)(p \<mapsto> u')\<rparr>)"
  using assms by (fastforce simp: group_ok_def)

lemma group_ok_forget:
  assumes "group_ok st" "i < length (user_table st)" "user_table st ! i = Some p"
  shows "group_ok (st\<lparr>sys_group := (sys_group st)\<lparr>g_users := Some ((user_table st)[i := None])\<rparr>,
    sys_users := (sys_users st)(p := None)\<rparr>)"
  using group_okE [OF assms(1)] group_ok_inject [OF assms(1)] assms(2,3)
  by (auto simp: group_ok_def nth_list_update split: if_splits)

text \<open>A user in the table is at the place of its number.\<close>

lemma table_place:
  assumes "group_ok st" "Some p \<in> set (user_table st)" "sys_users st p = Some u"
  obtains i where "i < length (user_table st)" "user_table st ! i = Some p" "u_uid u = int i"
proof -
  from assms(2) obtain i where i: "i < length (user_table st)" "user_table st ! i = Some p"
    by (auto simp: in_set_conv_nth)
  with group_okE(3) [OF assms(1) i] assms(3) show thesis by (intro that [of i]) auto
qed

lemma al5_codec_release_ok:
  assumes e: "\<And>i. env_ok (e i)" and g: "group_ok st" and s: "sys_ok (sys_hw st)"
    and p: "Some p \<in> set (user_table st)" and u: "sys_users st p = Some u" and ok: "pools_ok u"
  shows "\<exists>st' i. al5_codec_release e p st = Some (0, st') \<and> group_ok st' \<and> sys_ok (sys_hw st') \<and>
    u_uid u = int i \<and> user_table st ! i = Some p \<and> user_table st' = (user_table st)[i := None] \<and>
    sys_users st' = (sys_users st)(p := None)"
proof -
  obtain i where i: "i < length (user_table st)" "user_table st ! i = Some p" "u_uid u = int i"
    using g p u by (rule table_place)
  from close_channel_ok [where e = e, OF e s ok] obtain u1 s1 where
    c: "close_channel e u (sys_hw st) = Some (u1, s1)" "sys_ok s1" "u_uid u1 = int i" using i(3) by auto
  obtain u2 n where r: "al5_user_remove_residual_messages u1 (hw_k s1) = (u2, km_step 0 n (hw_k s1))"
    "u_uid u2 = int i"
    using c(3) by (simp add: al5_user_remove_residual_eq)
  let ?s = "s1\<lparr>hw_k := km_step 0 n (hw_k s1)\<rparr>"
  let ?st = "st\<lparr>sys_users := (sys_users st)(p \<mapsto> u2), sys_hw := ?s\<rparr>"
  let ?st' = "?st\<lparr>sys_group := (sys_group st)\<lparr>g_users := Some ((user_table st)[i := None])\<rparr>\<rparr>"
  have unbind: "al5_group_unbind_user p ?st = Some ?st'"
    using i(1) r(2) group_okE(1) [OF g]
    by (simp add: al5_group_unbind_user_def array_set_nth)
  let ?e = "set_kmem (kfree (kfree (hw_k (sys_hw ?st')))) (?st'\<lparr>sys_users := (sys_users ?st')(p := None)\<rparr>)"
  have "al5_codec_release e p st = Some (0, ?e)"
    using u c r unbind by (simp add: al5_codec_release_def)
  moreover have "sys_ok (sys_hw ?e)"
    using c(2) by (simp add: set_kmem_def kfree_step)
  moreover have "group_ok ?e"
    using group_ok_forget [OF g i(1,2)] by (simp add: group_ok_def set_kmem_def)
  moreover have "user_table ?e = (user_table st)[i := None]" by (simp add: user_table_def set_kmem_def)
  moreover have "sys_users ?e = (sys_users st)(p := None)" by (simp add: set_kmem_def)
  ultimately show ?thesis using i by blast
qed

section \<open>Opening\<close>

lemma al5_codec_open_ok:
  assumes g: "group_ok st" and s: "sys_ok (sys_hw st)" and p: "Some p \<notin> set (user_table st)"
  shows "\<exists>err st'. al5_codec_open p st = Some (err, st') \<and> group_ok st' \<and> sys_ok (sys_hw st') \<and>
    inbox (sys_hw st') = inbox (sys_hw st) \<and> outbox (sys_hw st') = outbox (sys_hw st) \<and>
    (if None \<in> set (user_table st)
     then err = 0 \<and> (\<exists>i < length (user_table st). user_table st ! i = None \<and>
         user_table st' = (user_table st)[i := Some p] \<and>
         sys_users st' = (sys_users st)(p \<mapsto> al5_user_init (int i))) \<and>
       km_live (hw_k (sys_hw st')) = km_live (hw_k (sys_hw st)) + 2
     else err = - EAGAIN \<and> user_table st' = user_table st \<and> sys_users st' = sys_users st \<and>
       km_live (hw_k (sys_hw st')) = km_live (hw_k (sys_hw st)) + 1)"
proof -
  let ?k = "km_step 2 2 (hw_k (sys_hw st))"
  let ?st = "set_kmem ?k st"
  have k: "km_ok (hw_k (sys_hw st))" "km_nofail (hw_k (sys_hw st))" using s by (simp_all add: sys_ok_kmem)
  then have z: "kzalloc sizeof_filp_data (hw_k (sys_hw st)) =
      (Some (replicate sizeof_filp_data 0), km_step 1 1 (hw_k (sys_hw st)))"
    "kzalloc sizeof_user (km_step 1 1 (hw_k (sys_hw st))) = (Some (replicate sizeof_user 0), ?k)"
    by (simp_all add: kzalloc_Some)
  have t: "user_table ?st = user_table st" "sys_users ?st = sys_users st" "group_ok ?st = group_ok st"
    by (simp_all add: set_kmem_def user_table_def group_ok_def)
  show ?thesis
  proof (cases "None \<in> set (user_table st)")
    case True
    with bind_user_ok [of ?st p] g p t obtain i st' where
      b: "al5_group_bind_user p ?st = Some (0, st')" "group_ok st'" "i < length (user_table st)"
      "user_table st ! i = None" "user_table st' = (user_table st)[i := Some p]"
      "sys_users st' = (sys_users st)(p \<mapsto> al5_user_init (int i))" "sys_hw st' = sys_hw ?st"
      by auto
    have "al5_codec_open p st = Some (0, st')" using z b(1) by (simp add: al5_codec_open_def)
    with b True s show ?thesis
      by (intro exI [of _ 0] exI [of _ st']) (auto simp: set_kmem_def)
  next
    case False
    with bind_user_ok [of ?st p] g p t have "al5_group_bind_user p ?st = Some (- EAGAIN, ?st)" by simp
    then have "al5_codec_open p st = Some (- EAGAIN, set_kmem (kfree ?k) ?st)"
      using z by (simp add: al5_codec_open_def) (simp add: set_kmem_def)
    with False s g show ?thesis
      by (auto simp: set_kmem_def kfree_step user_table_def group_ok_def)
  qed
qed

section \<open>Properties\<close>

text \<open>Opening a file. With a free number the new user takes a free entry of the
  table, initialised with its number, and two blocks are kept; without one the call returns \<open>-EAGAIN\<close> and
  changes neither table nor users, but the block of \<open>private_data\<close> is never freed.\<close>

theorem al5_codec_open_outcomes:
  assumes "group_ok st" "sys_ok (sys_hw st)" "Some p \<notin> set (user_table st)"
  shows "\<exists>err st'. al5_codec_open p st = Some (err, st') \<and> group_ok st' \<and> sys_ok (sys_hw st') \<and>
    inbox (sys_hw st') = inbox (sys_hw st) \<and> outbox (sys_hw st') = outbox (sys_hw st) \<and>
    (if None \<in> set (user_table st)
     then err = 0 \<and> (\<exists>i < length (user_table st). user_table st ! i = None \<and>
         user_table st' = (user_table st)[i := Some p] \<and>
         sys_users st' = (sys_users st)(p \<mapsto> al5_user_init (int i))) \<and>
       km_live (hw_k (sys_hw st')) = km_live (hw_k (sys_hw st)) + 2
     else err = - EAGAIN \<and> user_table st' = user_table st \<and> sys_users st' = sys_users st \<and>
       km_live (hw_k (sys_hw st')) = km_live (hw_k (sys_hw st)) + 1)"
  using assms by (rule al5_codec_open_ok)

theorem al5_codec_open_outcomes_witness:
  "\<exists>st'. al5_codec_open 20 sys1 = Some (0, st') \<and> user_table st' = [Some 10, Some 20] \<and>
    sys_users st' 20 = Some (al5_user_init 1)"
proof -
  have "sys_ok (sys_hw sys1)" using hw1_ok(1) by (simp add: sys1_def)
  from al5_codec_open_outcomes [OF sys1_ok(1) this, of 20] show ?thesis
    by (auto simp: sys1_ok(2) less_Suc_eq numeral_2_eq_2)
qed


text \<open>An environment in which every mutex call is interrupted: no try succeeds.\<close>

definition killed_env :: env where
  "killed_env = \<lparr>e_lock = (\<lambda>op st. (- EINTR, st)), e_wait = (\<lambda>q st. (- 1, st))\<rparr>"


end
