(* ===== verification/Codec_Boot.thy ===== *)
theory Codec_Boot
  imports Codec_Files
begin

text \<open>
  Loading the firmware (\<open>al5_codec_set_firmware\<close>, \<open>init_mcu\<close> of \<open>common/al_codec.c\<close>): the exchange
  of the first messages through the user \<open>root\<close>, and in every outcome whether the processor was left
  running and what became of \<open>root\<close>'s entry in the table.
\<close>

section \<open>The first messages\<close>

lemma create_init_msg_eq:
  assumes "km_ok k" "km_nofail k"
  shows "create_init_msg chan msg k =
    Some (Some (mail_of (uid_code AL_MCU_MSG_INIT) (le32 chan @ bytes_of_init_msg msg)), km_step 1 1 k)"
proof -
  obtain rest where "al5_mail_create (uid_code AL_MCU_MSG_INIT) (uid_size + 24) k =
      (Some (partial_mail (uid_code AL_MCU_MSG_INIT) [] rest), km_step 1 1 k)"
    "length rest = unat (uid_size + 24)"
    using assms by (rule al5_mail_create_Some)
  with create_init_msg_cases [OF assms(1), of chan msg] show ?thesis
    by (auto simp: create_init_msg_def bind_eq_Some_conv)
qed

lemma user_pop_timeout_ok:
  assumes "env_ok e" "user_pop_timeout e q u s = (err, mail, u', s')"
  shows "env_keeps (u, s) (u', s')" "err = 0 \<longleftrightarrow> mail \<noteq> None"
proof -
  obtain r u1 s1 where w: "e_wait e q (u, s) = (r, u1, s1)" by (cases "e_wait e q (u, s)") auto
  with assms(1) have k: "env_keeps (u, s) (u1, s1)"
    by (auto simp: env_ok_def split_def) (metis snd_conv)
  obtain er m qu k' where p: "al5_queue_pop_timeout r (u_queues u1 q) (hw_k s1) = (er, m, qu, k')"
    by (metis surj_pair)
  then have k': "k' = km_step 0 (if m = None then 0 else - 1) (hw_k s1)" and er: "er = 0 \<longleftrightarrow> m \<noteq> None"
    by (auto simp: al5_queue_pop_timeout_def mails_pop_def kfree_step Let_def
        split: list.splits if_splits)
  have "env_keeps (u1, s1) (set_queue q qu u1, s1\<lparr>hw_k := k'\<rparr>)"
    unfolding k' by (simp add: env_keeps_def set_queue_def)
  with k have "env_keeps (u, s) (set_queue q qu u1, s1\<lparr>hw_k := k'\<rparr>)" by (rule env_keeps_trans)
  with w p er assms(2) show "env_keeps (u, s) (u', s')" "err = 0 \<longleftrightarrow> mail \<noteq> None"
    by (auto simp: user_pop_timeout_def)
qed

lemma env_keeps_feedback [simp]: "env_keeps st (u, free_feedback m s) = env_keeps st (u, s)"
  by (cases m) (simp_all add: env_keeps_def free_feedback_def al5_free_mail_def kfree_step)

lemma send_configuration_ok:
  assumes e: "env_ok e" and s: "sys_ok s"
  shows "\<exists>err root' s'. send_configuration e b buf root s = Some (err, root', s') \<and>
    env_keeps (root, s) (root', s')"
proof -
  obtain err s1 where m: "make_and_send (create_init_msg (u32_of_int (u_uid root)) (init_msg_of b buf)) s =
      Some (err, s1)" "sys_ok s1"
    using make_and_send_ok [OF s create_init_msg_eq, of "u32_of_int (u_uid root)" "init_msg_of b buf"]
    by auto
  obtain er mail u' s' where p: "user_pop_timeout e AL5_USER_MAIL_INIT root s1 = (er, mail, u', s')"
    by (metis surj_pair)
  have "env_keeps (root, s) (root, s1)" using m(2) by (simp add: env_keeps_def)
  moreover from this user_pop_timeout_ok(1) [OF e p] have "env_keeps (root, s) (u', s')"
    by (rule env_keeps_trans)
  ultimately show ?thesis using m(1) p by (auto simp: send_configuration_def)
qed

text \<open>The state after \<open>init_mcu\<close>: \<open>root\<close> keeps its number, nothing is logged.\<close>

definition after_init :: "addr \<Rightarrow> codec \<Rightarrow> codec \<Rightarrow> bool" where
  "after_init p c c' \<longleftrightarrow> calls c' = calls c \<and> cd_icache c' = cd_icache c \<and>
     sys_group (cd_sys c') = sys_group (cd_sys c) \<and> sys_ok (hw_of c') \<and>
     (\<exists>root root'. sys_users (cd_sys c) p = Some root \<and> u_uid root' = u_uid root \<and>
        sys_users (cd_sys c') = (sys_users (cd_sys c))(p \<mapsto> root'))"

lemma put_user_sel [simp]:
  "calls (put_user p u s c) = calls c" "cd_icache (put_user p u s c) = cd_icache c"
  "sys_group (cd_sys (put_user p u s c)) = sys_group (cd_sys c)" "hw_of (put_user p u s c) = s"
  "sys_users (cd_sys (put_user p u s c)) = (sys_users (cd_sys c))(p \<mapsto> u)"
  "cd_suballoc_buf (put_user p u s c) = cd_suballoc_buf c"
  by (simp_all add: put_user_def calls_def hw_of_def)

lemma after_init_user:
  assumes "sys_users (cd_sys c) p = Some root" "u_uid root' = u_uid root" "sys_ok s"
  shows "after_init p c (put_user p root' s c)"
    "after_init p c (put_user p root' s (c\<lparr>cd_suballoc_buf := b\<rparr>))"
  using assms by (auto simp: after_init_def)

lemma after_init_put:
  assumes "sys_users (cd_sys c) p = Some root" "env_keeps (root, t) (root', s)" "sys_ok t"
  shows "after_init p c (put_user p root' s (c\<lparr>cd_suballoc_buf := b\<rparr>))"
    "after_init p c (put_user p root' s c)"
    "after_init p c (put_user p (mutex_unlock op root') s (c\<lparr>cd_suballoc_buf := b\<rparr>))"
    "after_init p c (put_user p (mutex_unlock op root') s c)"
  using assms by (auto simp: env_keeps_def mutex_unlock_def intro!: after_init_user)

lemma env_keeps_oracle:
  "env_keeps st (u, s) \<Longrightarrow> km_oracle k = km_oracle (hw_k s) \<Longrightarrow> env_keeps st (u, s\<lparr>hw_k := k, hw_d := d\<rparr>)"
  by (auto simp: env_keeps_def intro: sys_ok_oracle)

lemma after_init_suballoc [simp]: "after_init p c (c'\<lparr>cd_suballoc_buf := b\<rparr>) = after_init p c c'"
  by (simp add: after_init_def)

lemma init_mcu_ok:
  assumes e: "env_ok e" and s: "sys_ok (hw_of c)" and r: "sys_users (cd_sys c) p = Some root"
  shows "\<exists>err c'. init_mcu e b p c = Some (err, c') \<and> after_init p c c' \<and>
    (if err = 0 then cd_suballoc_buf c' \<noteq> None
     else cd_suballoc_buf c' = cd_suballoc_buf c \<or> cd_suballoc_buf c' = None)"
proof -
  let ?s = "hw_of c"
  note put = after_init_put [OF r _ s]
  from e show ?thesis
  proof (cases rule: mutex_lock_killable_ok [of e AL5_USER_INIT root ?s])
    case (killed u' s')
    with r put [OF killed(2)] show ?thesis
      by (intro exI [of _ "- EINTR"] exI [of _ "put_user p u' s' c"]) (simp add: init_mcu_def)
  next
    case (taken u0 u1 s1)
    obtain er1 m1 u2 s2 where p1: "user_pop_timeout e AL5_USER_MAIL_INIT u1 s1 = (er1, m1, u2, s2)"
      by (metis surj_pair)
    have k2: "env_keeps (root, ?s) (u2, s2)"
      using taken(2) user_pop_timeout_ok(1) [OF e p1] by (rule env_keeps_trans)
    show ?thesis
    proof (cases "er1 = 0")
      case False
      with r put [OF k2] taken p1 show ?thesis
        by (intro exI [of _ er1] exI [of _ "put_user p (mutex_unlock AL5_USER_INIT u2) s2 c"])
           (simp add: init_mcu_def)
    next
      case True
      let ?n = "case b_mcu_ext_mem_size b of None \<Rightarrow> MCU_SUBALLOCATOR_SIZE | Some n \<Rightarrow> n"
      let ?s2 = "free_feedback m1 s2"
      obtain buf k d where a: "al5_alloc_dma (ucast ?n) (hw_k ?s2) (hw_d ?s2) = (buf, k, d)"
        by (metis surj_pair)
      let ?s3 = "?s2\<lparr>hw_k := k, hw_d := d\<rparr>"
      let ?c = "c\<lparr>cd_suballoc_buf := buf\<rparr>"
      have "env_keeps (root, ?s) (u2, ?s2)" using k2 by simp
      from env_keeps_oracle [OF this] have k3: "env_keeps (root, ?s) (u2, ?s3)"
        using al5_alloc_dma_live [OF a] by simp
      show ?thesis
      proof (cases buf)
        case None
        with r put [OF k3] taken p1 True a show ?thesis
          by (intro exI [of _ "- ENOMEM"] exI [of _ "put_user p (mutex_unlock AL5_USER_INIT u2) ?s3 ?c"])
             (simp add: init_mcu_def Let_def)
      next
        case (Some bf)
        have s3: "sys_ok ?s3" using k3 s by (simp add: env_keeps_def)
        obtain er u4 s4 where c4: "send_configuration e b bf u2 ?s3 = Some (er, u4, s4)"
          "env_keeps (u2, ?s3) (u4, s4)" using send_configuration_ok [OF e s3] by blast
        have k4: "env_keeps (root, ?s) (u4, s4)" using k3 c4(2) by (rule env_keeps_trans)
        obtain k5 d5 where f: "al5_free_dma buf (hw_k s4) (hw_d s4) = (k5, d5)"
          by (cases "al5_free_dma buf (hw_k s4) (hw_d s4)")
        have k5: "env_keeps (root, ?s) (u4, s4\<lparr>hw_k := k5, hw_d := d5\<rparr>)"
          using env_keeps_oracle [OF k4] al5_free_dma_live [OF f] by simp
        show ?thesis
        proof (cases "er = 0")
          case True
          with r put [OF k4] taken p1 \<open>er1 = 0\<close> a Some c4(1) show ?thesis
            by (intro exI [of _ 0] exI [of _ "put_user p (mutex_unlock AL5_USER_INIT u4) s4 ?c"])
               (simp add: init_mcu_def Let_def)
        next
          case False
          with r put [OF k5] taken p1 \<open>er1 = 0\<close> a Some c4(1) f show ?thesis
            by (intro exI [of _ er] exI [of _ "(put_user p (mutex_unlock AL5_USER_INIT u4)
                (s4\<lparr>hw_k := k5, hw_d := d5\<rparr>) ?c)\<lparr>cd_suballoc_buf := None\<rparr>"])
               (simp add: init_mcu_def Let_def)
        qed
      qed
    qed
  qed
qed

section \<open>Loading and starting\<close>

lemma request_all_firmwares_ok:
  assumes "request_all_firmwares f1 f2 c = (err, (fw, bl), c')"
  shows "log_step c c'" "wakeup c' = wakeup c"
    "err = 0 \<Longrightarrow> bl = cd_blob c f2"
proof -
  let ?c1 = "kdo (Request_firmware f1) c" and ?c2 = "kdo (Request_firmware f2) (kdo (Request_firmware f1) c)"
  have k: "kcall h d = (cd_answer d (length (cd_log d)), kdo h d)" for h d
    by (simp add: kcall_def kdo_def Let_def)
  have c': "c' \<in> {?c1, ?c2, kdo Release_firmware ?c2}"
    using assms by (auto simp: request_all_firmwares_def k Let_def split: if_splits)
  have "log_step c ?c1" "log_step c ?c2" "log_step c (kdo Release_firmware ?c2)"
    by (meson log_step_kdo log_step_trans)+
  with c' show "log_step c c'" by auto
  show "wakeup c' = wakeup c" using c' by auto
  show "bl = cd_blob c f2" if "err = 0"
    using assms that by (auto simp: request_all_firmwares_def k Let_def split: if_splits)
qed

lemma start_ok:
  assumes "mcu_layout c" "sys_ok (hw_of c)" "cd_icache c = Some ic" "unat (dma_size ic) = AL5_ICACHE_SIZE"
    "length bl < 0x7004"
  shows "\<exists>err c'. setup_and_start_mcu fw bl c = Some (err, c') \<and> same_boxes c c' \<and> sys_ok (hw_of c') \<and>
    wakeup c' = Some (if err = 0 then 1 else 0)"
proof -
  have ok: "sys_ok (hw_of c')" if "same_boxes c c'" for c'
    using same_boxes_ok(1) [OF that assms(1)] that assms(2) by (simp add: sys_ok_def same_boxes_def)
  show ?thesis
  proof (cases "fits fw bl")
    case False
    from setup_and_start_refused [OF assms(1) this] obtain c' n where
      "setup_and_start_mcu fw bl c = Some (- EINVAL, c')" "same_boxes c c'"
      "calls c' = calls c @ stop_calls n @ reset_calls" by blast
    with ok show ?thesis
      by (intro exI [of _ "- EINVAL"] exI [of _ c']) (simp add: wakeup_def)
  next
    case True
    have "\<not> 0x7004 \<le> length (whole_words bl)" using assms(5) whole_words_below [of "0x7004" bl] by simp
    moreover have "length (whole_words bl) mod 4 = 0" by (simp add: length_whole_words)
    ultimately have w: "length (whole_words bl) \<le> 0x7000" by presburger
    from setup_and_start_ok [OF assms(1) True assms(3,4)] w obtain c' n where
      "setup_and_start_mcu fw bl c = Some (0, c')" "same_boxes c c'"
      "calls c' = calls c @ stop_calls n @ reset_calls @
        [Copy_icache (length fw), Copy_sram (length bl)] @ start_calls ic" by blast
    with ok show ?thesis
      by (intro exI [of _ 0] exI [of _ c']) (simp add: wakeup_def)
  qed
qed

lemma release_firmwares_ok:
  "\<exists>c'. release_firmwares p err c = (err, c') \<and> wakeup c' = wakeup c \<and> hw_of c' = hw_of c \<and>
     sys_group (cd_sys c') = sys_group (cd_sys c) \<and> sys_users (cd_sys c') = (sys_users (cd_sys c))(p := None) \<and>
     cd_suballoc_buf c' = cd_suballoc_buf c"
  by (simp add: release_firmwares_def leave_scope_def wakeup_def hw_of_def)

text \<open>Once \<open>root\<close> has an entry: start, first messages, and the end of the call.\<close>

lemma start_and_init_ok:
  assumes e: "env_ok e" and lay: "mcu_layout c" "sys_ok (hw_of c)" "cd_icache c = Some ic"
      "unat (dma_size ic) = AL5_ICACHE_SIZE" "length bl < 0x7004"
    and r: "sys_users (cd_sys c) p = Some root"
      "array_set (g_users (sys_group (cd_sys c))) (u_uid root) None = Some users"
  shows "\<exists>err c'. start_and_init e b p fw bl c = Some (err, c') \<and>
    sys_users (cd_sys c') = (sys_users (cd_sys c))(p := None) \<and>
    (if err = 0 then wakeup c' = Some 1 \<and> cd_suballoc_buf c' \<noteq> None \<and> sys_ok (hw_of c') \<and>
       sys_group (cd_sys c') = (sys_group (cd_sys c))\<lparr>g_users := users\<rparr>
     else wakeup c' = Some 0 \<and> sys_group (cd_sys c') = sys_group (cd_sys c))"
proof -
  from start_ok [OF lay] obtain e1 c1 where
    1: "setup_and_start_mcu fw bl c = Some (e1, c1)" "same_boxes c c1" "sys_ok (hw_of c1)"
      "wakeup c1 = Some (if e1 = 0 then 1 else 0)" by blast
  have u1: "sys_users (cd_sys c1) = sys_users (cd_sys c)" "sys_group (cd_sys c1) = sys_group (cd_sys c)"
    using 1(2) by (simp_all add: same_boxes_def)
  show ?thesis
  proof (cases "e1 = 0")
    case False
    with 1 u1 release_firmwares_ok [of p e1 c1] show ?thesis by (auto simp: start_and_init_def)
  next
    case True
    have "sys_users (cd_sys c1) p = Some root" using r(1) u1 by simp
    from init_mcu_ok [OF e 1(3) this] obtain e2 c2 where
      2: "init_mcu e b p c1 = Some (e2, c2)" "after_init p c1 c2"
        "if e2 = 0 then cd_suballoc_buf c2 \<noteq> None
         else cd_suballoc_buf c2 = cd_suballoc_buf c1 \<or> cd_suballoc_buf c2 = None" by blast
    from 2(2) r(1) u1 obtain root' where
      a: "wakeup c2 = wakeup c1" "sys_ok (hw_of c2)" "sys_group (cd_sys c2) = sys_group (cd_sys c)"
        "u_uid root' = u_uid root" "sys_users (cd_sys c2) = (sys_users (cd_sys c))(p \<mapsto> root')"
      unfolding after_init_def by (auto simp: wakeup_def)
    show ?thesis
    proof (cases "e2 = 0")
      case False
      with 1 2(1) True a release_firmwares_ok [of p e2 "stop_mcu c2"] show ?thesis
        by (auto simp: start_and_init_def wakeup_stop stop_mcu_group)
    next
      case e2: True
      let ?st = "(cd_sys c2)\<lparr>sys_group := (sys_group (cd_sys c2))\<lparr>g_users := users\<rparr>\<rparr>"
      have b: "al5_group_unbind_user p (cd_sys c2) = Some ?st"
        using a r(2) by (simp add: al5_group_unbind_user_def)
      have w: "wakeup (c2\<lparr>cd_sys := ?st\<rparr>) = Some 1" "hw_of (c2\<lparr>cd_sys := ?st\<rparr>) = hw_of c2"
        using 1(4) True a(1) by (simp_all add: wakeup_def) (simp add: hw_of_def)
      from release_firmwares_ok [of p 0 "c2\<lparr>cd_sys := ?st\<rparr>"] obtain c' where
        "release_firmwares p 0 (c2\<lparr>cd_sys := ?st\<rparr>) = (0, c')" "wakeup c' = Some 1" "hw_of c' = hw_of c2"
        "sys_group (cd_sys c') = (sys_group (cd_sys c))\<lparr>g_users := users\<rparr>"
        "sys_users (cd_sys c') = (sys_users (cd_sys c))(p := None)" "cd_suballoc_buf c' \<noteq> None"
        using w a 2(3) e2 by auto
      with 1 2(1) True e2 b a(2) show ?thesis by (simp add: start_and_init_def)
    qed
  qed
qed

text \<open>The outcomes: nothing happened, or \<open>root\<close> stayed in the table and the processor sleeps, or
  the firmware runs and the table is as before.\<close>

definition boot_outcome :: "addr \<Rightarrow> codec \<Rightarrow> int \<Rightarrow> codec \<Rightarrow> bool" where
  "boot_outcome p c err c' \<longleftrightarrow> sys_users (cd_sys c') = sys_users (cd_sys c) \<and>
     (if err = 0 then wakeup c' = Some 1 \<and> cd_suballoc_buf c' \<noteq> None \<and> sys_ok (hw_of c') \<and>
        group_ok (cd_sys c') \<and> user_table (cd_sys c') = user_table (cd_sys c)
      else wakeup c' = wakeup c \<and> user_table (cd_sys c') = user_table (cd_sys c) \<or>
        wakeup c' = Some 0 \<and> (\<exists>i < length (user_table (cd_sys c)). user_table (cd_sys c) ! i = None \<and>
          g_users (sys_group (cd_sys c')) = Some ((user_table (cd_sys c))[i := Some p]) \<and>
          g_max_users_nb (sys_group (cd_sys c')) = int (length (user_table (cd_sys c)))))"

lemma bind_root:
  assumes g: "group_ok st" and p: "sys_users st p = None" and free: "None \<in> set (user_table st)"
  obtains i st' where "al5_group_bind_user p st = Some (0, st')" "i < length (user_table st)"
    "user_table st ! i = None" "g_users (sys_group st') = Some ((user_table st)[i := Some p])"
    "g_max_users_nb (sys_group st') = int (length (user_table st))"
    "sys_users st' = (sys_users st)(p \<mapsto> al5_user_init (int i))" "sys_hw st' = sys_hw st"
    "array_set (g_users (sys_group st')) (int i) None = Some (Some (user_table st))"
proof -
  have notin: "Some p \<notin> set (user_table st)" using group_ok_entry [OF g, of p] p by blast
  from bind_user_ok [OF g notin] free obtain i st' where
    b: "al5_group_bind_user p st = Some (0, st')" "group_ok st'" "i < length (user_table st)"
    "user_table st ! i = None" "user_table st' = (user_table st)[i := Some p]"
    "sys_users st' = (sys_users st)(p \<mapsto> al5_user_init (int i))" "sys_hw st' = sys_hw st" by auto
  have st: "g_users (sys_group st') = Some ((user_table st)[i := Some p])"
    "g_max_users_nb (sys_group st') = int (length (user_table st))"
    using group_okE(1,2) [OF b(2)] b(5) by simp_all
  have "array_set (g_users (sys_group st')) (int i) None = Some (Some (user_table st))"
    using st(1) b(3,4) array_set_nth [of i "(user_table st)[i := Some p]" None]
    by simp (metis list_update_id)
  with b(1,3,4) st b(6,7) show thesis by (rule that)
qed

lemma bound_layout:
  assumes "log_step c c1" "sys_hw st = sys_hw (cd_sys c)"
  shows "mcu_layout c \<Longrightarrow> mcu_layout (c1\<lparr>cd_sys := st\<rparr>)"
    "sys_ok (hw_of c) \<Longrightarrow> sys_ok (hw_of (c1\<lparr>cd_sys := st\<rparr>))"
    "cd_icache (c1\<lparr>cd_sys := st\<rparr>) = cd_icache c"
  using log_step_sel [OF assms(1)] assms(2) by (simp_all add: mcu_layout_def hw_of_def)

lemma al5_codec_set_firmware_ok:
  assumes e: "env_ok e" and g: "group_ok (cd_sys c)" and lay: "mcu_layout c" "sys_ok (hw_of c)"
      "cd_icache c = Some ic" "unat (dma_size ic) = AL5_ICACHE_SIZE"
      "length (cd_blob c f2) < 0x7004"
    and p: "sys_users (cd_sys c) p = None"
  shows "\<exists>err c'. al5_codec_set_firmware e b p f1 f2 c = Some (err, c') \<and> boot_outcome p c err c'"
proof -
  let ?T = "user_table (cd_sys c)"
  obtain e1 fw bl c1 where q: "request_all_firmwares f1 f2 c = (e1, (fw, bl), c1)" by (metis surj_pair)
  note q' = request_all_firmwares_ok [OF q] and sel = log_step_sel [OF request_all_firmwares_ok(1) [OF q]]
  show ?thesis
  proof (cases "e1 = 0")
    case False
    with q q'(2) sel show ?thesis
      by (intro exI [of _ e1] exI [of _ c1]) (simp add: al5_codec_set_firmware_def boot_outcome_def)
  next
    case e1: True
    have notin: "Some p \<notin> set ?T" using group_ok_entry [OF g, of p] p by blast
    show ?thesis
    proof (cases "None \<in> set ?T")
      case False
      with bind_user_ok [OF g notin] sel(1)
      have "al5_group_bind_user p (cd_sys c1) = Some (- EAGAIN, cd_sys c)" by simp
      moreover obtain c' where "release_firmwares p (- EAGAIN) (c1\<lparr>cd_sys := cd_sys c\<rparr>) = (- EAGAIN, c')"
        "wakeup c' = wakeup c" "sys_group (cd_sys c') = sys_group (cd_sys c)"
        "sys_users (cd_sys c') = (sys_users (cd_sys c))(p := None)"
        using release_firmwares_ok [of p "- EAGAIN" "c1\<lparr>cd_sys := cd_sys c\<rparr>"] q'(2) by (auto simp: wakeup_def)
      ultimately show ?thesis
        using q e1 p
        by (intro exI [of _ "- EAGAIN"] exI [of _ c'])
           (simp add: al5_codec_set_firmware_def boot_outcome_def user_table_def fun_upd_idem)
    next
      case True
      obtain i st where
        b: "al5_group_bind_user p (cd_sys c) = Some (0, st)" "i < length ?T" "?T ! i = None"
        "g_users (sys_group st) = Some (?T[i := Some p])" "g_max_users_nb (sys_group st) = int (length ?T)"
        "sys_users st = (sys_users (cd_sys c))(p \<mapsto> al5_user_init (int i))" "sys_hw st = sys_hw (cd_sys c)"
        "array_set (g_users (sys_group st)) (int i) None = Some (Some ?T)"
        using bind_root [OF g p True] .
      let ?c = "c1\<lparr>cd_sys := st\<rparr>"
      note lay' = bound_layout [OF q'(1) b(7), unfolded lay(3)]
      have arr: "array_set (g_users (sys_group (cd_sys ?c))) (u_uid (al5_user_init (int i))) None = Some (Some ?T)"
        using b(8) by (simp add: al5_user_init_def)
      have user: "sys_users (cd_sys ?c) p = Some (al5_user_init (int i))" using b(6) by simp
      have len: "length bl < 0x7004" using q'(3) [OF e1] lay(5) by simp
      from start_and_init_ok [OF e lay'(1) [OF lay(1)] lay'(2) [OF lay(2)] lay'(3) lay(4) len user arr, of b fw] obtain err c' where
        f: "start_and_init e b p fw bl ?c = Some (err, c')"
        "sys_users (cd_sys c') = (sys_users (cd_sys ?c))(p := None)"
        "if err = 0 then wakeup c' = Some 1 \<and> cd_suballoc_buf c' \<noteq> None \<and> sys_ok (hw_of c') \<and>
           sys_group (cd_sys c') = (sys_group (cd_sys ?c))\<lparr>g_users := Some ?T\<rparr>
         else wakeup c' = Some 0 \<and> sys_group (cd_sys c') = sys_group (cd_sys ?c)" by blast
      have "al5_codec_set_firmware e b p f1 f2 c = Some (err, c')"
        using q e1 b(1) sel(1) f(1) by (simp add: al5_codec_set_firmware_def)
      moreover have u: "sys_users (cd_sys c') = sys_users (cd_sys c)"
        using f(2) b(6) p by (simp add: fun_upd_idem)
      moreover have "group_ok (cd_sys c') \<and> user_table (cd_sys c') = ?T" if "err = 0"
      proof -
        have "sys_group (cd_sys c') = sys_group (cd_sys c)"
          using that f(3) b(5) group_okE(1,2) [OF g] by (intro al5_group.equality) simp_all
        with u have "same_routes (cd_sys c) (cd_sys c')" by (simp add: same_routes_def)
        with g show ?thesis by (blast intro: same_routes_ok same_routes_table)
      qed
      moreover have "boot_outcome p c err c'"
      proof (cases "err = 0")
        case True
        with calculation f(3) show ?thesis by (simp add: boot_outcome_def)
      next
        case False
        with f(3) b(4,5) have "wakeup c' = Some 0" "g_users (sys_group (cd_sys c')) = Some (?T[i := Some p])"
          "g_max_users_nb (sys_group (cd_sys c')) = int (length ?T)" by simp_all
        with False u b(2,3) show ?thesis unfolding boot_outcome_def by auto
      qed
      ultimately show ?thesis by blast
    qed
  qed
qed

section \<open>A firmware that answers\<close>

text \<open>Nothing interrupts the mutex, and each wait for the initialisation queue ends with a message
  in it; the rest of the state is not touched.\<close>

definition firmware_answers :: "env \<Rightarrow> bool" where
  "firmware_answers e \<longleftrightarrow> env_ok e \<and> (\<forall>u s. \<not> u_locks u AL5_USER_INIT \<longrightarrow> e_lock e AL5_USER_INIT (u, s) = (0, u, s)) \<and>
     (\<forall>u s. snd (snd (e_wait e AL5_USER_MAIL_INIT (u, s))) = s \<and>
        q_list (u_queues (fst (snd (e_wait e AL5_USER_MAIL_INIT (u, s)))) AL5_USER_MAIL_INIT) \<noteq> [])"

lemma answered_pop:
  assumes "firmware_answers e"
  obtains m u' where "user_pop_timeout e AL5_USER_MAIL_INIT u s =
    (0, Some m, u', s\<lparr>hw_k := km_step 0 (- 1) (hw_k s)\<rparr>)"
proof -
  obtain r u1 s1 where w: "e_wait e AL5_USER_MAIL_INIT (u, s) = (r, u1, s1)"
    by (cases "e_wait e AL5_USER_MAIL_INIT (u, s)") auto
  with assms have s: "s1 = s" and q: "q_list (u_queues u1 AL5_USER_MAIL_INIT) \<noteq> []"
    unfolding firmware_answers_def by (metis fst_conv snd_conv)+
  from q obtain m ms where "q_list (u_queues u1 AL5_USER_MAIL_INIT) = m # ms"
    by (cases "q_list (u_queues u1 AL5_USER_MAIL_INIT)") auto
  with w s show thesis
    by (intro that [of m]) (simp add: user_pop_timeout_def al5_queue_pop_timeout_def mails_pop_def kfree_step)
qed

lemma send_configuration_answered:
  assumes e: "firmware_answers e" and s: "sys_ok s" and room: "36 \<le> outroom s"
  shows "\<exists>root' s'. send_configuration e b buf root s = Some (0, root', s')"
proof -
  let ?mk = "create_init_msg (u32_of_int (u_uid root)) (init_msg_of b buf)"
  let ?m = "mail_of (uid_code AL_MCU_MSG_INIT) (le32 (u32_of_int (u_uid root)) @ bytes_of_init_msg (init_msg_of b buf))"
  have k: "?mk (hw_k s) = Some (Some ?m, km_step 1 1 (hw_k s))"
    using s by (intro create_init_msg_eq) (simp_all add: sys_ok_kmem)
  have len: "length (bytes_of_init_msg (init_msg_of b buf)) = 24" by simp
  have wf: "mail_wf ?m" and size: "unat (body_size ?m) = 28"
    using len by (simp_all add: mail_of_sel)
  obtain s1 where m: "make_and_send ?mk s = Some (0, s1)"
    using make_and_send_cases [where mk = ?mk and s = s and m = ?m, OF s k wf] room size by fastforce
  obtain m' u' where p: "user_pop_timeout e AL5_USER_MAIL_INIT root s1 =
      (0, Some m', u', s1\<lparr>hw_k := km_step 0 (- 1) (hw_k s1)\<rparr>)" by (rule answered_pop [OF e])
  from m p show ?thesis by (simp add: send_configuration_def)
qed

lemma init_mcu_answered:
  assumes e: "firmware_answers e" and s: "sys_ok (hw_of c)" and r: "sys_users (cd_sys c) p = Some root"
    "\<not> u_locks root AL5_USER_INIT" and room: "36 \<le> outroom (hw_of c)"
    and dma: "\<And>n. d_answer (hw_d (hw_of c)) n \<noteq> 0"
  shows "\<exists>c'. init_mcu e b p c = Some (0, c')"
proof -
  let ?s = "hw_of c" and ?root = "root\<lparr>u_locks := (u_locks root)(AL5_USER_INIT := True)\<rparr>"
  have l: "mutex_lock_killable e AL5_USER_INIT root ?s = Some (0, ?root, ?s)"
    using e r(2) by (simp add: firmware_answers_def mutex_lock_killable_def take_lock_def)
  obtain m u1 where p1: "user_pop_timeout e AL5_USER_MAIL_INIT ?root ?s =
      (0, Some m, u1, ?s\<lparr>hw_k := km_step 0 (- 1) (hw_k ?s)\<rparr>)" by (rule answered_pop [OF e])
  let ?n = "case b_mcu_ext_mem_size b of None \<Rightarrow> MCU_SUBALLOCATOR_SIZE | Some n \<Rightarrow> n"
  let ?s2 = "?s\<lparr>hw_k := km_step 0 (- 2) (hw_k ?s)\<rparr>"
  obtain buf k d where a: "al5_alloc_dma (ucast ?n) (hw_k ?s2) (hw_d ?s2) = (buf, k, d)"
    by (metis surj_pair)
  have "km_oracle (hw_k ?s) (km_calls (hw_k ?s)) sizeof_dma_buffer \<noteq> None"
    using s by (simp add: sys_ok_def km_nofail_def)
  then have "buf \<noteq> None"
    using a dma by (auto simp: al5_alloc_dma_def dcall_def Let_def kmalloc_def split: option.splits if_splits)
  then obtain bf where bf: "buf = Some bf" by auto
  let ?s3 = "?s2\<lparr>hw_k := k, hw_d := d\<rparr>"
  have "sys_ok ?s2" using s by simp
  then have s3: "sys_ok ?s3" by (rule sys_ok_oracle(1)) (use al5_alloc_dma_live [OF a] in simp)
  have "36 \<le> outroom ?s3" using room by simp
  from send_configuration_answered [OF e s3 this, of b bf u1] obtain root' s' where
    "send_configuration e b bf u1 ?s3 = Some (0, root', s')" by blast
  with r(1) l p1 a bf show ?thesis
    by (simp add: init_mcu_def free_feedback_def al5_free_mail_def kfree_step Let_def)
qed

lemma start_fits:
  assumes "mcu_layout c" "hw_ok (hw_of c)" "cd_icache c = Some ic" "unat (dma_size ic) = AL5_ICACHE_SIZE"
    "length bl < 0x7004" "length fw \<le> AL5_ICACHE_SIZE"
  shows "\<exists>c'. setup_and_start_mcu fw bl c = Some (0, c') \<and> same_boxes c c' \<and>
    outroom (hw_of c') = outroom (hw_of c)"
proof -
  have f: "fits fw bl" using assms(5,6) by (simp add: fits_def MCU_SRAM_SIZE_def)
  have "\<not> 0x7004 \<le> length (whole_words bl)" using assms(5) whole_words_below [of "0x7004" bl] by simp
  moreover have "length (whole_words bl) mod 4 = 0" by (simp add: length_whole_words)
  ultimately have "length (whole_words bl) \<le> 0x7000" by presburger
  with setup_and_start_ok [OF assms(1) f assms(3,4)] obtain c' where
    "setup_and_start_mcu fw bl c = Some (0, c')" "same_boxes c c'" by blast
  with same_boxes_ok(4) [OF _ assms(1,2), of c'] show ?thesis by blast
qed

lemma request_all_firmwares_found:
  assumes "cd_answer c (length (cd_log c)) = 0" "cd_answer c (Suc (length (cd_log c))) = 0"
  obtains c' where "request_all_firmwares f1 f2 c =
      (0, (cd_blob c f1, cd_blob c f2), c')"
    "log_step c c'" "wakeup c' = wakeup c"
proof -
  obtain err fw bl c' where r: "request_all_firmwares f1 f2 c = (err, (fw, bl), c')" by (metis surj_pair)
  with assms have "err = 0" "fw = cd_blob c f1" "bl = cd_blob c f2"
    by (auto simp: request_all_firmwares_def kcall_def Let_def)
  with r request_all_firmwares_ok [OF r] show thesis by (intro that [of c']) simp_all
qed

text \<open>With both files there and a free entry, the call goes on to \<open>start_and_init\<close> with \<open>root\<close> in the
  first free entry.\<close>

lemma set_firmware_binds:
  assumes g: "group_ok (cd_sys c)" and p: "sys_users (cd_sys c) p = None"
    and free: "None \<in> set (user_table (cd_sys c))"
    and found: "cd_answer c (length (cd_log c)) = 0" "cd_answer c (Suc (length (cd_log c))) = 0"
  obtains i c' where "al5_codec_set_firmware e b p f1 f2 c =
      start_and_init e b p (cd_blob c f1) (cd_blob c f2) c'"
    "mcu_layout c \<Longrightarrow> mcu_layout c'" "hw_of c' = hw_of c" "cd_icache c' = cd_icache c"
    "sys_users (cd_sys c') = (sys_users (cd_sys c))(p \<mapsto> al5_user_init (int i))"
    "g_users (sys_group (cd_sys c')) = Some ((user_table (cd_sys c))[i := Some p])"
    "g_max_users_nb (sys_group (cd_sys c')) = int (length (user_table (cd_sys c)))"
    "i < length (user_table (cd_sys c))"
    "array_set (g_users (sys_group (cd_sys c'))) (int i) None = Some (Some (user_table (cd_sys c)))"
proof -
  obtain c1 where c1: "request_all_firmwares f1 f2 c =
      (0, (cd_blob c f1, cd_blob c f2), c1)" "log_step c c1"
    using found by (rule request_all_firmwares_found)
  note sel = log_step_sel [OF c1(2)]
  obtain i st where b: "al5_group_bind_user p (cd_sys c) = Some (0, st)" "i < length (user_table (cd_sys c))"
    "g_users (sys_group st) = Some ((user_table (cd_sys c))[i := Some p])"
    "g_max_users_nb (sys_group st) = int (length (user_table (cd_sys c)))"
    "sys_users st = (sys_users (cd_sys c))(p \<mapsto> al5_user_init (int i))" "sys_hw st = sys_hw (cd_sys c)"
    "array_set (g_users (sys_group st)) (int i) None = Some (Some (user_table (cd_sys c)))"
    using bind_root [OF g p free] by metis
  show thesis
  proof (rule that [of "c1\<lparr>cd_sys := st\<rparr>" i])
    show "al5_codec_set_firmware e b p f1 f2 c = start_and_init e b p (cd_blob c f1)
        (cd_blob c f2) (c1\<lparr>cd_sys := st\<rparr>)"
      using c1(1) b(1) sel(1) by (simp add: al5_codec_set_firmware_def)
    show "hw_of (c1\<lparr>cd_sys := st\<rparr>) = hw_of c" using b(6) by (simp add: hw_of_def)
  qed (use b bound_layout [OF c1(2) b(6)] in simp_all)
qed

lemma al5_codec_set_firmware_answered:
  assumes e: "firmware_answers e" and g: "group_ok (cd_sys c)" and lay: "mcu_layout c" "sys_ok (hw_of c)"
      "cd_icache c = Some ic" "unat (dma_size ic) = AL5_ICACHE_SIZE"
    and p: "sys_users (cd_sys c) p = None" and free: "None \<in> set (user_table (cd_sys c))"
    and found: "cd_answer c (length (cd_log c)) = 0" "cd_answer c (Suc (length (cd_log c))) = 0"
      "length (cd_blob c f1) \<le> AL5_ICACHE_SIZE"
      "length (cd_blob c f2) < 0x7004"
    and room: "36 \<le> outroom (hw_of c)" and dma: "\<And>n. d_answer (hw_d (hw_of c)) n \<noteq> 0"
  shows "\<exists>c'. al5_codec_set_firmware e b p f1 f2 c = Some (0, c') \<and> boot_outcome p c 0 c'"
proof -
  let ?fw = "cd_blob c f1" and ?bl = "cd_blob c f2"
  obtain i c1 where c1: "al5_codec_set_firmware e b p f1 f2 c = start_and_init e b p ?fw ?bl c1"
    "mcu_layout c \<Longrightarrow> mcu_layout c1" "hw_of c1 = hw_of c" "cd_icache c1 = cd_icache c"
    "sys_users (cd_sys c1) = (sys_users (cd_sys c))(p \<mapsto> al5_user_init (int i))"
    "array_set (g_users (sys_group (cd_sys c1))) (int i) None = Some (Some (user_table (cd_sys c)))"
    using set_firmware_binds [where e = e and b = b and ?f1.0 = f1 and ?f2.0 = f2,
        OF g p free found(1,2)] by metis
  have ok: "hw_ok (hw_of c1)" "sys_ok (hw_of c1)" using lay(2) c1(3) by (simp_all add: sys_ok_def)
  obtain c2 where c2: "setup_and_start_mcu ?fw ?bl c1 = Some (0, c2)" "same_boxes c1 c2"
    "outroom (hw_of c2) = outroom (hw_of c1)"
    using start_fits [OF c1(2) [OF lay(1)] ok(1) _ lay(4) found(4,3)] c1(4) lay(3) by auto
  have "sys_ok (hw_of c2)"
    using same_boxes_ok(1) [OF c2(2) c1(2) [OF lay(1)] ok(1)] c2(2) ok(2)
    by (simp add: sys_ok_def same_boxes_def)
  moreover have "sys_users (cd_sys c2) p = Some (al5_user_init (int i))" "hw_d (hw_of c2) = hw_d (hw_of c)"
    using c2(2) c1(3,5) by (simp_all add: same_boxes_def)
  ultimately obtain c3 where "init_mcu e b p c2 = Some (0, c3)"
    using init_mcu_answered [OF e, of c2 p "al5_user_init (int i)" b] c2(3) c1(3) room dma
    by (auto simp: al5_user_init_def)
  then have "\<exists>c'. al5_codec_set_firmware e b p f1 f2 c = Some (0, c') \<or>
      al5_codec_set_firmware e b p f1 f2 c = None"
    using c1(1) c2(1)
    by (cases "al5_group_unbind_user p (cd_sys c3)") (simp_all add: start_and_init_def release_firmwares_def)
  moreover have "env_ok e" using e by (simp add: firmware_answers_def)
  ultimately show ?thesis
    using al5_codec_set_firmware_ok [where e = e and b = b and ?f1.0 = f1, OF _ g lay found(4) p] by auto
qed

section \<open>The entry that stays\<close>

definition init_mail :: "nat \<Rightarrow> al5_mail" where
  "init_mail i = mail_of (uid_code AL_MCU_MSG_INIT) (le32 (of_nat i))"

lemma dangling_init:
  assumes "g_users (sys_group st) = Some users" "g_max_users_nb (sys_group st) = int (length users)"
    "i < length users" "users ! i = Some p" "sys_users st p = None" "length users < 2 ^ 31"
  shows "handle_mail (init_mail i) st = None"
proof -
  have w: "int_of_u32 (of_nat i) = int i"
    using assms(3,6) by (simp add: signed_of_nat signed_take_bit_int_eq_self)
  have n: "al5_mail_get_uid (init_mail i) = uid_code AL_MCU_MSG_INIT"
    by (simp add: init_mail_def mail_simps)
  have g: "al5_mail_get_word (init_mail i) 0 = Some (of_nat i)"
    using al5_mail_get_word_0 [of "uid_code AL_MCU_MSG_INIT" "of_nat i" "[]"] by (simp add: init_mail_def)
  have "al5_group_user_from_uid (sys_group st) (int i) = Some (Some p)"
    using assms(1-4) by (simp add: al5_group_user_from_uid_def array_get_nth)
  with g w assms(5) show ?thesis
    by (simp add: handle_mail_def try_to_deliver_to_user_def retrieve_user_def n Let_def)
qed

section \<open>Properties\<close>


text \<open>The device of \<open>codec0\<close> set up, with two small files; a board without the property; firmware
  that answers.\<close>

definition with_files :: "codec \<Rightarrow> codec" where
  "with_files c = (set_hw ((hw_of c)\<lparr>hw_d := dsys7\<rparr>) c)\<lparr>cd_blob := (\<lambda>_. replicate 4 7), cd_answer := (\<lambda>_. 0)\<rparr>"

definition board0 :: board where
  "board0 = \<lparr>b_l2 = no_l2_prefetch, b_parent = None, b_mcu_ext_mem_size = None\<rparr>"

definition answering_env :: env where
  "answering_env = \<lparr>e_lock = (\<lambda>op st. (if u_locks (fst st) op then - EINTR else 0, st)),
     e_wait = (\<lambda>q st. (1, set_queue q \<lparr>q_list = [init_mail 0], q_locked = True\<rparr> (fst st), snd st))\<rparr>"

lemma answering_env_ok: "firmware_answers answering_env"
  by (auto simp: firmware_answers_def answering_env_def env_ok_def set_queue_def env_keeps_def)

lemma with_files_ok:
  assumes "codec_ready 4 c" "sys_users (cd_sys c) = Map.empty"
  shows "group_ok (cd_sys (with_files c))" "mcu_layout (with_files c)" "sys_ok (hw_of (with_files c))"
    "cd_icache (with_files c) = cd_icache c" "cd_blob (with_files c) f = replicate 4 7"
    "cd_answer (with_files c) i = 0" "sys_users (cd_sys (with_files c)) p = None"
    "user_table (cd_sys (with_files c)) = replicate 4 None" "36 \<le> outroom (hw_of (with_files c))"
    "d_answer (hw_d (hw_of (with_files c))) i \<noteq> 0"
proof -
  have hw: "hw_of (with_files c) = (hw_of c)\<lparr>hw_d := dsys7\<rparr>"
    by (simp add: with_files_def hw_of_def set_hw_def)
  have st: "cd_sys (with_files c) = (cd_sys c)\<lparr>sys_hw := (hw_of c)\<lparr>hw_d := dsys7\<rparr>\<rparr>"
    by (simp add: with_files_def set_hw_def)
  show "group_ok (cd_sys (with_files c))" "sys_users (cd_sys (with_files c)) p = None"
    using assms by (simp_all add: st codec_ready_def)
  show "user_table (cd_sys (with_files c)) = replicate 4 None"
    using assms(1) by (simp add: st codec_ready_def user_table_def)
  show "mcu_layout (with_files c)" "sys_ok (hw_of (with_files c))"
    using assms(1) hw by (simp_all add: codec_ready_def mcu_layout_def sys_ok_def with_files_def)
  show "cd_icache (with_files c) = cd_icache c" "cd_blob (with_files c) f = replicate 4 7"
    "cd_answer (with_files c) i = 0" by (simp_all add: with_files_def)
  show "36 \<le> outroom (hw_of (with_files c))" using ready_room [OF assms(1)] by (simp add: hw)
  show "d_answer (hw_d (hw_of (with_files c))) i \<noteq> 0" by (simp add: hw dsys7_def)
qed

lemma killed_env_ok: "env_ok killed_env"
  by (simp add: env_ok_def killed_env_def)

lemma killed_never_boots: "al5_codec_set_firmware killed_env b p f1 f2 c \<noteq> Some (0, c')"
proof
  have k: "init_mcu killed_env b p d \<noteq> Some (0, d')" for d d'
    by (auto simp: init_mcu_def mutex_lock_killable_def killed_env_def bind_eq_Some_conv)
  assume "al5_codec_set_firmware killed_env b p f1 f2 c = Some (0, c')"
  then show False
    by (auto simp: al5_codec_set_firmware_def start_and_init_def release_firmwares_def Let_def k
        bind_eq_Some_conv split: prod.splits if_splits)
qed




text \<open>A failure after the start leaves a dead entry. When \<open>al5_codec_set_firmware\<close> fails with
  both files found and a free number, \<open>root\<close> is not unbound: the table keeps the address of a
  structure on the returned stack frame, and an initialisation message with that number makes the
  interrupt handler follow it.\<close>

theorem al5_codec_set_firmware_dangling:
  assumes "env_ok e" "group_ok (cd_sys c)" "mcu_layout c" "sys_ok (hw_of c)"
      "cd_icache c = Some ic" "unat (dma_size ic) = AL5_ICACHE_SIZE"
      "length (cd_blob c f2) < 0x7004" "sys_users (cd_sys c) p = None"
      "None \<in> set (user_table (cd_sys c))" "length (user_table (cd_sys c)) < 2 ^ 31"
      "cd_answer c (length (cd_log c)) = 0" "cd_answer c (Suc (length (cd_log c))) = 0"
    and fails: "al5_codec_set_firmware e b p f1 f2 c = Some (err, c')" "err \<noteq> 0"
  shows "\<exists>i < length (user_table (cd_sys c)). user_table (cd_sys c') ! i = Some p \<and>
    sys_users (cd_sys c') p = None \<and> handle_mail (init_mail i) (cd_sys c') = None"
proof -
  let ?T = "user_table (cd_sys c)"
  obtain i c1 where c1: "al5_codec_set_firmware e b p f1 f2 c =
      start_and_init e b p (cd_blob c f1) (cd_blob c f2) c1"
    "mcu_layout c1" "hw_of c1 = hw_of c" "cd_icache c1 = Some ic"
    "sys_users (cd_sys c1) = (sys_users (cd_sys c))(p \<mapsto> al5_user_init (int i))"
    "g_users (sys_group (cd_sys c1)) = Some (?T[i := Some p])"
    "g_max_users_nb (sys_group (cd_sys c1)) = int (length ?T)" "i < length ?T"
    "array_set (g_users (sys_group (cd_sys c1))) (int i) None = Some (Some ?T)"
    using set_firmware_binds [where e = e and b = b and ?f1.0 = f1 and ?f2.0 = f2,
        OF assms(2,8,9,11,12)] assms(3,5) by metis
  have "sys_ok (hw_of c1)" "sys_users (cd_sys c1) p = Some (al5_user_init (int i))"
    "array_set (g_users (sys_group (cd_sys c1))) (u_uid (al5_user_init (int i))) None = Some (Some ?T)"
    using assms(4) c1(3,5,9) by (simp_all add: al5_user_init_def)
  from start_and_init_ok [OF assms(1) c1(2) this(1) c1(4) assms(6,7) this(2,3),
      of b "cd_blob c f1"] c1(1) fails
  have "sys_users (cd_sys c') p = None" "sys_group (cd_sys c') = sys_group (cd_sys c1)"
    by auto
  with c1(6-8) assms(10) dangling_init [of "cd_sys c'" "?T[i := Some p]" i p] show ?thesis
    by (auto simp: user_table_def)
qed

theorem al5_codec_set_firmware_dangling_witness:
  "\<exists>c err c' i. codec_set_up_sized sizeof_mcu_interface 4 codec0 = Some (0, c) \<and>
    al5_codec_set_firmware killed_env board0 10 ''al5e.fw'' ''al5e_b.fw'' (with_files c) = Some (err, c') \<and>
    err \<noteq> 0 \<and> handle_mail (init_mail i) (cd_sys c') = None"
proof -
  obtain c ic where c: "codec_set_up_sized sizeof_mcu_interface 4 codec0 = Some (0, c)" "codec_ready 4 c"
    "cd_icache c = Some ic" "unat (dma_size ic) = AL5_ICACHE_SIZE" "sys_users (cd_sys c) = Map.empty"
    by (rule codec0_ready)
  let ?c = "with_files c"
  note w = with_files_ok [OF c(2,5)]
  have ic: "cd_icache ?c = Some ic" using w(4) c(3) by simp
  have len: "length (cd_blob ?c ''al5e_b.fw'') < 0x7004" by (simp add: w(5))
  have free: "None \<in> set (user_table (cd_sys ?c))" "length (user_table (cd_sys ?c)) < 2 ^ 31"
    by (simp_all add: w(8))
  from al5_codec_set_firmware_ok [where b = board0 and p = "10" and ?f1.0 = "''al5e.fw''" and ?f2.0 = "''al5e_b.fw''",
      OF killed_env_ok w(1-3) ic c(4) len w(7)] obtain err c' where
    s: "al5_codec_set_firmware killed_env board0 10 ''al5e.fw'' ''al5e_b.fw'' ?c = Some (err, c')" by blast
  have err: "err \<noteq> 0"
    using s killed_never_boots by metis
  from al5_codec_set_firmware_dangling [OF killed_env_ok w(1-3) ic c(4) len w(7) free w(6) w(6) s err]
  show ?thesis using c(1) s err by blast
qed

end
