(* ===== verification/Module.thy ===== *)
theory Module
  imports Codec_Boot
begin

text \<open>
  The two kernel modules (\<open>al5e/al_enc.c\<close>, \<open>al5d/al_dec.c\<close>, \<open>common/al_char.c\<close>): loading and
  unloading, probing and removing a device. The code of the two is the same up to names, so the
  definitions have the names as a parameter, and each module is an instance.

  A device is given to \<open>probe\<close> as a \<^typ>\<open>codec\<close> whose kernel side (answers, memory, log) is that of
  the machine; \<open>devm_kzalloc\<close> clears its fields.
\<close>

section \<open>Names and state of a module\<close>

record driver_names =
  dn_firmware :: string
  dn_bootloader :: string
  dn_region :: string
  dn_class :: string
  dn_device :: string
  dn_driver :: string

definition al5e_names :: driver_names where
  "al5e_names = \<lparr>dn_firmware = ''al5e.fw'', dn_bootloader = ''al5e_b.fw'', dn_region = ''al5e'',
     dn_class = ''allegro_encode_class'', dn_device = ''allegroIP'', dn_driver = ''al5e''\<rparr>"

definition al5d_names :: driver_names where
  "al5d_names = \<lparr>dn_firmware = ''al5d.fw'', dn_bootloader = ''al5d_b.fw'', dn_region = ''al5d'',
     dn_class = ''allegro_decode_class'', dn_device = ''allegroDecodeIP'', dn_driver = ''al5d''\<rparr>"

definition AL5_NR_DEVS :: int where "AL5_NR_DEVS = 4"
definition MAX_USERS_NB :: int where "MAX_USERS_NB = 256"

text \<open>The static variables, and the kernel's side as in \<^typ>\<open>codec\<close>; \<open>md_given n\<close> is the major of
  \<open>dev\<close> after the \<open>n\<close>-th call.\<close>

record module_state =
  md_major :: int
  md_minor :: int
  md_answer :: "nat \<Rightarrow> int"
  md_given :: "nat \<Rightarrow> int"
  md_log :: "(kcall \<times> int) list"

definition mcall :: "kcall \<Rightarrow> module_state \<Rightarrow> int \<times> module_state" where
  "mcall f m = (let r = md_answer m (length (md_log m)) in (r, m\<lparr>md_log := md_log m @ [(f, r)]\<rparr>))"

section \<open>Loading and unloading\<close>

definition al5_setup_chrdev_region :: "int \<Rightarrow> int \<Rightarrow> string \<Rightarrow> module_state \<Rightarrow> int \<times> module_state" where
  "al5_setup_chrdev_region minor nb_devs desc m =
     (if md_major m = 0
      then let (err, m) = mcall (Alloc_chrdev_region minor nb_devs desc) m;
               m = m\<lparr>md_major := md_given m (length (md_log m) - 1)\<rparr>
           in if err \<noteq> 0 then (err, m) else (0, m)
      else (0, m))"

definition setup_chrdev_region :: "driver_names \<Rightarrow> module_state \<Rightarrow> int \<times> module_state" where
  "setup_chrdev_region d m = al5_setup_chrdev_region 0 AL5_NR_DEVS (dn_region d) m"

definition create_module_class :: "driver_names \<Rightarrow> module_state \<Rightarrow> int \<times> module_state" where
  "create_module_class d m =
     (let (module_class, m) = mcall (Class_create (dn_class d)) m
      in if module_class < 0 then (module_class, m) else (0, m))"

definition destroy_module_class :: "module_state \<Rightarrow> module_state" where
  "destroy_module_class m = snd (mcall Class_destroy m)"

definition driver_init :: "driver_names \<Rightarrow> module_state \<Rightarrow> int \<times> module_state" where
  "driver_init d m =
     (let (err, m) = setup_chrdev_region d m
      in if err \<noteq> 0 then (err, m)
      else let (err, m) = create_module_class d m
      in if err \<noteq> 0 then (err, m)
      else mcall (Driver_register (dn_driver d)) m)"

definition driver_exit :: "driver_names \<Rightarrow> module_state \<Rightarrow> module_state" where
  "driver_exit d m =
     (let m = snd (mcall (Driver_unregister (dn_driver d)) m);
          m = destroy_module_class m
      in snd (mcall (Unregister_chrdev_region (md_major m) AL5_NR_DEVS) m))"

definition al5d_setup_chrdev_region :: "module_state \<Rightarrow> int \<times> module_state" where
  "al5d_setup_chrdev_region = setup_chrdev_region al5d_names"

definition al5d_create_module_class :: "module_state \<Rightarrow> int \<times> module_state" where
  "al5d_create_module_class = create_module_class al5d_names"

definition al5d_destroy_module_class :: "module_state \<Rightarrow> module_state" where
  "al5d_destroy_module_class = destroy_module_class"

definition al5e_init :: "module_state \<Rightarrow> int \<times> module_state" where
  "al5e_init = driver_init al5e_names"

definition al5d_codec_init :: "module_state \<Rightarrow> int \<times> module_state" where
  "al5d_codec_init = driver_init al5d_names"

definition al5e_exit :: "module_state \<Rightarrow> module_state" where
  "al5e_exit = driver_exit al5e_names"

definition al5d_codec_exit :: "module_state \<Rightarrow> module_state" where
  "al5d_codec_exit = driver_exit al5d_names"

section \<open>Probing and removing\<close>

definition al5_setup_codec_cdev :: "int \<Rightarrow> int \<Rightarrow> codec \<Rightarrow> int \<times> codec" where
  "al5_setup_codec_cdev major minor c =
     (let (err, c) = kcall (Cdev_add major minor) c in if err \<noteq> 0 then (err, c) else (0, c))"

definition al5_clean_up_codec_cdev :: "codec \<Rightarrow> codec" where
  "al5_clean_up_codec_cdev c = kdo Cdev_del c"

definition driver_setup_codec_cdev :: "driver_names \<Rightarrow> int \<Rightarrow> int \<Rightarrow> codec \<Rightarrow> int \<times> codec" where
  "driver_setup_codec_cdev d major minor c =
     (let (err, c) = al5_setup_codec_cdev major minor c
      in if err \<noteq> 0 then (err, c)
      else let (device, c) = kcall (Device_create major minor (dn_device d)) c
      in if device < 0 then (device, al5_clean_up_codec_cdev c) else (0, c))"

definition al5e_setup_codec_cdev :: "int \<Rightarrow> int \<Rightarrow> codec \<Rightarrow> int \<times> codec" where
  "al5e_setup_codec_cdev = driver_setup_codec_cdev al5e_names"

definition al5d_setup_codec_cdev :: "int \<Rightarrow> int \<Rightarrow> codec \<Rightarrow> int \<times> codec" where
  "al5d_setup_codec_cdev = driver_setup_codec_cdev al5d_names"

text \<open>The size of \<open>struct al5_codec_desc\<close> on the target; only that it is one block matters.\<close>

definition sizeof_codec_desc :: nat where "sizeof_codec_desc = 512"

text \<open>What \<open>devm_kzalloc\<close> leaves in the descriptor.\<close>

definition zeroed :: "codec \<Rightarrow> codec" where
  "zeroed c = c\<lparr>cd_icache := None, cd_suballoc_buf := None, cd_dcache_base_addr := 0, cd_regs := 0,
     cd_minor := 0\<rparr>"

text \<open>\<open>alloc_size\<close> as in \<^const>\<open>codec_set_up_sized\<close>; \<open>p\<close> is the address of \<open>root\<close> in
  \<open>al5_codec_set_firmware\<close>. The error of \<open>devm_kzalloc\<close> is \<open>-ENOMEM\<close>.\<close>

definition driver_probe ::
    "driver_names \<Rightarrow> nat \<Rightarrow> env \<Rightarrow> board \<Rightarrow> addr \<Rightarrow> module_state \<Rightarrow> codec
      \<Rightarrow> (int \<times> module_state \<times> codec) option" where
  "driver_probe d alloc_size e b p m c =
     (let (desc, k) = kzalloc sizeof_codec_desc (hw_k (hw_of c));
          c = set_hw ((hw_of c)\<lparr>hw_k := k\<rparr>) c
      in if desc = None then Some (- ENOMEM, m, c)
      else do {
        (err, c) \<leftarrow> codec_set_up_sized alloc_size MAX_USERS_NB (zeroed c);
        if err \<noteq> 0 then Some (err, m, c)
        else do {
          (err, c) \<leftarrow> al5_codec_set_firmware e b p (dn_firmware d) (dn_bootloader d) c;
          if err \<noteq> 0 then Some (err, m, al5_codec_tear_down c)
          else let (err, c) = driver_setup_codec_cdev d (md_major m) (md_minor m) c
          in if err \<noteq> 0 then Some (err, m, al5_codec_tear_down c)
          else Some (0, m\<lparr>md_minor := md_minor m + 1\<rparr>, c\<lparr>cd_minor := md_minor m\<rparr>)
        }
      })"

definition driver_remove :: "module_state \<Rightarrow> codec \<Rightarrow> int \<times> codec" where
  "driver_remove m c =
     (let c = al5_codec_tear_down c;
          c = kdo (Device_destroy (md_major m) (cd_minor c)) c
      in (0, al5_clean_up_codec_cdev c))"

definition al5e_probe where
  "al5e_probe = driver_probe al5e_names sizeof_pointer"

definition al5d_codec_probe where
  "al5d_codec_probe = driver_probe al5d_names sizeof_pointer"

definition al5e_remove :: "module_state \<Rightarrow> codec \<Rightarrow> int \<times> codec" where
  "al5e_remove = driver_remove"

definition al5d_codec_remove :: "module_state \<Rightarrow> codec \<Rightarrow> int \<times> codec" where
  "al5d_codec_remove = driver_remove"

section \<open>What a module holds\<close>

datatype resource = Region | Class | Driver

text \<open>The resources held after the calls of a log: a region if its allocation returned 0, a class
  unless its creation returned an error pointer, the driver if its registration returned 0.\<close>

fun holds :: "(kcall \<times> int) list \<Rightarrow> resource set \<Rightarrow> resource set" where
  "holds [] R = R"
| "holds ((Alloc_chrdev_region a b s, r) # l) R = holds l (if r = 0 then insert Region R else R)"
| "holds ((Class_create s, r) # l) R = holds l (if 0 \<le> r then insert Class R else R)"
| "holds ((Driver_register s, r) # l) R = holds l (if r = 0 then insert Driver R else R)"
| "holds ((Driver_unregister s, r) # l) R = holds l (R - {Driver})"
| "holds ((Class_destroy, r) # l) R = holds l (R - {Class})"
| "holds ((Unregister_chrdev_region a b, r) # l) R = holds l (R - {Region})"
| "holds (_ # l) R = holds l R"

definition held :: "module_state \<Rightarrow> resource set" where
  "held m = holds (md_log m) {}"

lemma mcall_eq: "mcall f m =
    (md_answer m (length (md_log m)), m\<lparr>md_log := md_log m @ [(f, md_answer m (length (md_log m)))]\<rparr>)"
  by (simp add: mcall_def Let_def)

lemma held_log: "held (m\<lparr>md_log := md_log m @ l\<rparr>) = holds l (held m)"
proof -
  have "holds (l1 @ l2) R = holds l2 (holds l1 R)" for l1 l2 R
    by (induction l1 R rule: holds.induct) simp_all
  then show ?thesis by (simp add: held_def)
qed

lemma held_major [simp]: "held (m\<lparr>md_major := i\<rparr>) = held m"
  by (simp add: held_def)

lemma driver_exit_log:
  "driver_exit d m = m\<lparr>md_log := md_log m @
     [(Driver_unregister (dn_driver d), md_answer m (length (md_log m))),
      (Class_destroy, md_answer m (Suc (length (md_log m)))),
      (Unregister_chrdev_region (md_major m) AL5_NR_DEVS, md_answer m (Suc (Suc (length (md_log m)))))]\<rparr>"
  by (simp add: driver_exit_def destroy_module_class_def mcall_eq Let_def)

lemma driver_exit_held: "held (driver_exit d m) = held m - {Driver, Class, Region}"
  unfolding driver_exit_log held_log by auto

lemma held_snoc: "held (m\<lparr>md_major := i, md_log := md_log m @ l\<rparr>) = holds l (held m)"
  using held_log [of m l] by (simp add: held_def)

section \<open>Tearing down\<close>

lemma tear_down_sel [simp]:
  "calls (al5_codec_tear_down c) = calls c @ [Release_memory]"
  "cd_minor (al5_codec_tear_down c) = cd_minor c" "wakeup (al5_codec_tear_down c) = wakeup c"
proof -
  have m: "cd_minor (kdo f c') = cd_minor c'" "cd_minor (set_hw s c') = cd_minor c'" for f c' s
    by (simp_all add: kdo_def kcall_def Let_def set_hw_def)
  show c: "calls (al5_codec_tear_down c) = calls c @ [Release_memory]"
    "cd_minor (al5_codec_tear_down c) = cd_minor c"
    by (simp_all add: al5_codec_tear_down_def split_def Let_def m)
  from c(1) show "wakeup (al5_codec_tear_down c) = wakeup c" by (simp add: wakeup_def)
qed

text \<open>The buffers it gives back, in this order.\<close>

lemma tear_down_frees:
  "map fst (d_trace (hw_d (hw_of (al5_codec_tear_down c)))) = map fst (d_trace (hw_d (hw_of c))) @
     map (\<lambda>b. Dma_free_coherent (dma_size b) (cpu_handle b) (dma_handle b))
       (case cd_suballoc_buf c of None \<Rightarrow> [] | Some b \<Rightarrow> [b]) @
     map (\<lambda>b. Dma_free_coherent (dma_size b) (cpu_handle b) (dma_handle b))
       (case cd_icache c of None \<Rightarrow> [] | Some b \<Rightarrow> [b])"
  by (auto simp: al5_codec_tear_down_def al5_free_dma_def dma_free_coherent_def dcall_def Let_def split_def
      split: option.splits)

lemma cdev_calls:
  assumes "driver_setup_codec_cdev d major minor c = (err, c')"
  shows "wakeup c' = wakeup c" "cd_sys c' = cd_sys c" "cd_icache c' = cd_icache c" "hw_of c' = hw_of c"
    "\<exists>l. calls c' = calls c @ Cdev_add major minor # l"
proof -
  obtain r1 c1 where 1: "kcall (Cdev_add major minor) c = (r1, c1)" by (cases "kcall (Cdev_add major minor) c")
  obtain r2 c2 where 2: "kcall (Device_create major minor (dn_device d)) c1 = (r2, c2)"
    by (cases "kcall (Device_create major minor (dn_device d)) c1")
  have e: "c1 = kdo (Cdev_add major minor) c" "c2 = kdo (Device_create major minor (dn_device d)) c1"
    using 1 2 by (simp_all add: kdo_def)
  have c': "c' \<in> {c1, c2, kdo Cdev_del c2}"
    using assms 1 2 by (auto simp: driver_setup_codec_cdev_def al5_setup_codec_cdev_def
        al5_clean_up_codec_cdev_def Let_def split: if_splits)
  then show "wakeup c' = wakeup c" "cd_sys c' = cd_sys c" "cd_icache c' = cd_icache c" "hw_of c' = hw_of c"
    "\<exists>l. calls c' = calls c @ Cdev_add major minor # l" by (auto simp: e)
qed

section \<open>Probing\<close>

lemma zeroed_sel [simp]:
  "hw_of (zeroed c) = hw_of c" "cd_sys (zeroed c) = cd_sys c" "wakeup (zeroed c) = wakeup c"
  "cd_blob (zeroed c) = cd_blob c"
  by (simp_all add: zeroed_def hw_of_def wakeup_def calls_def)

lemma wakeup_set_hw [simp]: "wakeup (set_hw s c) = wakeup c"
  by (simp add: wakeup_def)

text \<open>The device is up, or it is not; \<open>c0\<close> is the state before.\<close>

definition probe_outcome :: "module_state \<Rightarrow> codec \<Rightarrow> int \<Rightarrow> module_state \<Rightarrow> codec \<Rightarrow> bool" where
  "probe_outcome m c0 err m' c \<longleftrightarrow>
     (if err = 0 then wakeup c = Some 1 \<and> sys_ok (hw_of c) \<and> group_ok (cd_sys c) \<and>
        user_table (cd_sys c) = replicate 256 None \<and> sys_users (cd_sys c) = sys_users (cd_sys c0) \<and>
        cd_minor c = md_minor m \<and> m' = m\<lparr>md_minor := md_minor m + 1\<rparr>
      else m' = m \<and> last (calls c) = Release_memory \<and>
        (wakeup c = wakeup c0 \<or> wakeup c = Some 0 \<or>
         wakeup c = Some 1 \<and> Cdev_add (md_major m) (md_minor m) \<in> set (calls c)))"

lemma probe_cdev:
  assumes "boot_outcome p c0 0 c" "user_table (cd_sys c0) = replicate 256 None"
    and "sys_users (cd_sys c0) = sys_users (cd_sys z)"
    and "driver_setup_codec_cdev d (md_major m) (md_minor m) c = (err, c')"
  shows "if err = 0 then probe_outcome m z 0 (m\<lparr>md_minor := md_minor m + 1\<rparr>) (c'\<lparr>cd_minor := md_minor m\<rparr>)
    else probe_outcome m z err m (al5_codec_tear_down c')"
proof -
  note c = cdev_calls [OF assms(4)]
  have k: "wakeup (c'\<lparr>cd_minor := md_minor m\<rparr>) = wakeup c'" by (simp add: wakeup_def)
  have b: "wakeup c = Some 1" "sys_ok (hw_of c)" "group_ok (cd_sys c)" "user_table (cd_sys c) = replicate 256 None"
    "sys_users (cd_sys c) = sys_users (cd_sys z)"
    using assms(1-3) by (simp_all add: boot_outcome_def)
  obtain l where "calls c' = calls c @ Cdev_add (md_major m) (md_minor m) # l" using c(5) by blast
  then have "Cdev_add (md_major m) (md_minor m) \<in> set (calls (al5_codec_tear_down c'))" by simp
  then show ?thesis using b c(1-4) k by (simp add: probe_outcome_def)
qed

lemma driver_probe_ok:
  assumes e: "env_ok e" and k: "km_ok (hw_k (hw_of c))" "km_nofail (hw_k (hw_of c))"
    and n: "sizeof_mcu_interface \<le> n" and p: "sys_users (cd_sys c) p = None"
    and bl: "length (cd_blob c (dn_bootloader d)) < 0x7004"
  shows "\<exists>err m' c'. driver_probe d n e b p m c = Some (err, m', c') \<and> probe_outcome m c err m' c'"
proof -
  let ?c = "zeroed (set_hw ((hw_of c)\<lparr>hw_k := km_step 1 1 (hw_k (hw_of c))\<rparr>) c)"
  have z: "kzalloc sizeof_codec_desc (hw_k (hw_of c)) =
      (Some (replicate sizeof_codec_desc 0), km_step 1 1 (hw_k (hw_of c)))"
    using k by (rule kzalloc_Some)
  obtain e1 c1 where 1: "codec_set_up_sized n MAX_USERS_NB ?c = Some (e1, c1)"
    "if e1 = 0 then codec_ready MAX_USERS_NB c1 else last (calls c1) = Release_memory"
    "sys_users (cd_sys c1) = sys_users (cd_sys c)" "wakeup c1 = wakeup c" "cd_blob c1 = cd_blob c"
    using codec_set_up_ok [of ?c n MAX_USERS_NB] k n by (auto simp: MAX_USERS_NB_def)
  show ?thesis
  proof (cases "e1 = 0")
    case False
    with z 1 show ?thesis
      by (intro exI [of _ e1] exI [of _ m] exI [of _ c1]) (simp add: driver_probe_def probe_outcome_def)
  next
    case True
    with 1(2) obtain ic where r: "group_ok (cd_sys c1)" "mcu_layout c1" "sys_ok (hw_of c1)"
      "cd_icache c1 = Some ic" "unat (dma_size ic) = AL5_ICACHE_SIZE"
      "user_table (cd_sys c1) = replicate 256 None"
      by (auto simp: codec_ready_def MAX_USERS_NB_def)
    have "length (cd_blob c1 (dn_bootloader d)) < 0x7004" "sys_users (cd_sys c1) p = None"
      using 1(3,5) bl p by simp_all
    from al5_codec_set_firmware_ok [where b = b and ?f1.0 = "dn_firmware d", OF e r(1-5) this]
    obtain e2 c2 where 2: "al5_codec_set_firmware e b p (dn_firmware d) (dn_bootloader d) c1 = Some (e2, c2)"
      "boot_outcome p c1 e2 c2" by blast
    show ?thesis
    proof (cases "e2 = 0")
      case False
      with z 1(1,4) True 2 show ?thesis
        by (intro exI [of _ e2] exI [of _ m] exI [of _ "al5_codec_tear_down c2"])
           (auto simp: driver_probe_def probe_outcome_def boot_outcome_def)
    next
      case ok: True
      obtain e3 c3 where 3: "driver_setup_codec_cdev d (md_major m) (md_minor m) c2 = (e3, c3)"
        by (cases "driver_setup_codec_cdev d (md_major m) (md_minor m) c2")
      with probe_cdev [OF _ r(6) 1(3) 3, of p] 2(2) ok have
        o: "if e3 = 0 then probe_outcome m c 0 (m\<lparr>md_minor := md_minor m + 1\<rparr>) (c3\<lparr>cd_minor := md_minor m\<rparr>)
          else probe_outcome m c e3 m (al5_codec_tear_down c3)" by simp
      have "driver_probe d n e b p m c =
          Some (if e3 \<noteq> 0 then (e3, m, al5_codec_tear_down c3)
            else (0, m\<lparr>md_minor := md_minor m + 1\<rparr>, c3\<lparr>cd_minor := md_minor m\<rparr>))"
        using z 1(1) True 2(1) ok 3 by (simp add: driver_probe_def)
      with o show ?thesis by (cases "e3 = 0") auto
    qed
  qed
qed

lemma driver_remove_calls:
  "calls (snd (driver_remove m c)) =
     calls c @ [Release_memory, Device_destroy (md_major m) (cd_minor c), Cdev_del]"
  "wakeup (snd (driver_remove m c)) = wakeup c"
  by (simp_all add: driver_remove_def al5_clean_up_codec_cdev_def Let_def)

section \<open>Properties\<close>

text \<open>C40: loading and unloading a module. Loading makes three calls and stops at the first one that
  fails, returning its error; what it has taken by then it keeps: after a failed class the region
  stays allocated, after a failed registration the region and the class. Unloading after a
  successful load gives all three back.\<close>

theorem driver_init_holds:
  assumes "md_major m = 0" "held m = {}"
  shows "let n = length (md_log m); (err, m') = driver_init d m
    in if md_answer m n \<noteq> 0 then err = md_answer m n \<and> held m' = {}
       else if md_answer m (n + 1) < 0 then err = md_answer m (n + 1) \<and> held m' = {Region}
       else if md_answer m (n + 2) \<noteq> 0 then err = md_answer m (n + 2) \<and> held m' = {Region, Class}
       else err = 0 \<and> held m' = {Region, Class, Driver} \<and> held (driver_exit d m') = {}"
  using assms
  by (auto simp: driver_init_def setup_chrdev_region_def al5_setup_chrdev_region_def mcall_eq
      create_module_class_def Let_def held_snoc held_log driver_exit_held)

text \<open>Answers that let everything succeed but the registration, which ends with \<open>-EBUSY\<close>.\<close>

definition module0 :: module_state where
  "module0 = \<lparr>md_major = 0, md_minor = 0, md_answer = (\<lambda>n. if n = 2 then - 16 else 0),
     md_given = (\<lambda>_. 240), md_log = []\<rparr>"

theorem driver_init_holds_witness:
  "\<exists>m'. al5e_init module0 = (- 16, m') \<and> held m' = {Region, Class}"
  using driver_init_holds [of module0 al5e_names]
  by (auto simp: module0_def held_def al5e_init_def Let_def split: prod.splits)



end
