(* ===== verification/Probe.thy ===== *)
theory Probe
  imports Module
begin

text \<open>
  A probe that succeeds (\<open>al5e_probe\<close>, \<open>al5d_codec_probe\<close>): on a platform that has the resources the
  code asks for and a firmware that answers, every step returns 0. The answers of the kernel's calls
  are followed through the log.
\<close>

section \<open>The log grows\<close>

definition grows :: "codec \<Rightarrow> codec \<Rightarrow> bool" where
  "grows c c' \<longleftrightarrow> cd_answer c' = cd_answer c \<and> length (cd_log c) \<le> length (cd_log c')"

lemma grows_refl [simp]: "grows c c"
  by (simp add: grows_def)

lemma grows_trans [trans]: "grows a b \<Longrightarrow> grows b c \<Longrightarrow> grows a c"
  by (simp add: grows_def)

lemma kcall_eq: "kcall f c = (cd_answer c (length (cd_log c)), kdo f c)"
  by (simp add: kcall_def kdo_def Let_def)

lemma log_length [simp]:
  "length (cd_log (kdo f c)) = Suc (length (cd_log c))"
  "length (cd_log (al5_writel v r c)) = Suc (length (cd_log c))"
  "length (cd_log (signal_codec c)) = Suc (length (cd_log c))"
  by (simp_all add: kdo_def kcall_def Let_def al5_writel_def signal_codec_def set_hw_def)

lemma grows_steps [simp]:
  "grows c (kdo f c')  \<longleftrightarrow> cd_answer c' = cd_answer c \<and> length (cd_log c) \<le> Suc (length (cd_log c'))"
  "grows c (set_hw s c') = grows c c'" "grows c (put_user p u s c') = grows c c'"
  "grows c (c'\<lparr>cd_sys := st\<rparr>) = grows c c'" "grows c (c'\<lparr>cd_suballoc_buf := b\<rparr>) = grows c c'"
  "grows c (c'\<lparr>cd_icache := b\<rparr>) = grows c c'" "grows c (leave_scope p c') = grows c c'"
  by (simp_all add: grows_def put_user_def leave_scope_def set_hw_def)

lemma wait_mcu_sleeps_grows: "grows c (wait_mcu_sleeps time c)"
proof (induction time c rule: wait_mcu_sleeps.induct)
  case (1 time c)
  let ?c = "kdo (Msleep 20) (kdo (Read_reg AL5_MCU_STA) c)"
  have "grows c ?c" by (simp add: grows_def)
  from 1 grows_trans [OF this, of "wait_mcu_sleeps (time + 20) ?c"] show ?case
    by (subst wait_mcu_sleeps.simps) (auto simp: al5_readl_eq)
qed

lemma stop_mcu_grows: "grows c (stop_mcu c)"
proof -
  have "grows c (signal_codec (al5_writel MCU_SLEEP_INSTRUCTION AL5_MCU_INTERRUPT_HANDLER
      (al5_writel 0 AL5_MCU_WAKEUP c)))" by (simp add: grows_def)
  then show ?thesis unfolding stop_mcu_def using wait_mcu_sleeps_grows by (rule grows_trans)
qed

lemma copy_firmware_grows: "copy_firmware fw bl c = Some (err, c') \<Longrightarrow> grows c c'"
  by (auto simp: copy_firmware_def grows_def split: if_splits Option.bind_splits)

lemma setup_and_start_mcu_grows:
  assumes "setup_and_start_mcu fw bl c = Some (err, c')"
  shows "grows c c'"
proof -
  from assms obtain r c1 where 1: "copy_firmware fw bl (reset_mcu (stop_mcu c)) = Some (r, c1)"
    and 2: "grows c1 c'"
    by (auto simp: setup_and_start_mcu_def start_mcu_def set_mcu_interrupt_mask_def set_dcache_offset_def
        set_icache_offset_def Let_def grows_def split: Option.bind_splits if_splits)
  have "grows (stop_mcu c) (reset_mcu (stop_mcu c))" by (simp add: reset_mcu_def grows_def)
  from grows_trans [OF grows_trans [OF stop_mcu_grows this] grows_trans [OF copy_firmware_grows [OF 1] 2]]
  show ?thesis .
qed

lemma init_mcu_grows: "init_mcu e b p c = Some (err, c') \<Longrightarrow> grows c c'"
  by (auto simp: init_mcu_def Let_def split: Option.bind_splits if_splits prod.splits option.splits)

lemma al5_codec_set_firmware_grows:
  assumes "al5_codec_set_firmware e b p f1 f2 c = Some (0, c')" "cd_answer c (length (cd_log c)) = 0"
    "cd_answer c (Suc (length (cd_log c))) = 0"
  shows "grows c c'"
proof -
  let ?c = "kdo (Request_firmware f2) (kdo (Request_firmware f1) c)"
  have s: "grows c ?c" by (simp add: grows_def)
  from assms obtain err st where b: "al5_group_bind_user p (cd_sys c) = Some (err, st)"
    and r: "Some (0, c') = (if err \<noteq> 0 then Some (release_firmwares p err (?c\<lparr>cd_sys := st\<rparr>))
      else start_and_init e b p (cd_blob c f1) (cd_blob c f2) (?c\<lparr>cd_sys := st\<rparr>))"
    by (auto simp: al5_codec_set_firmware_def request_all_firmwares_def kcall_eq Let_def split: Option.bind_splits)
  from r have "start_and_init e b p (cd_blob c f1) (cd_blob c f2) (?c\<lparr>cd_sys := st\<rparr>) = Some (0, c')"
    by (auto simp: release_firmwares_def split: if_splits)
  then obtain e1 c1 e2 c2 where 1: "setup_and_start_mcu (cd_blob c f1) (cd_blob c f2) (?c\<lparr>cd_sys := st\<rparr>) = Some (e1, c1)"
    and 2: "init_mcu e b p c1 = Some (e2, c2)" and 3: "grows c2 c'"
    by (auto simp: start_and_init_def release_firmwares_def grows_def leave_scope_def
        split: Option.bind_splits if_splits)
  have "grows ?c c1" using setup_and_start_mcu_grows [OF 1] by (simp add: grows_def)
  with s init_mcu_grows [OF 2] 3 show ?thesis by (blast intro: grows_trans)
qed

section \<open>Every step succeeds\<close>

text \<open>Resource, interrupt and registers are there, there is no dedicated memory, and every later
  call returns 0; DMA allocations succeed; both files fit.\<close>

definition platform_ok :: "driver_names \<Rightarrow> codec \<Rightarrow> bool" where
  "platform_ok d c \<longleftrightarrow> cd_log c = [] \<and> cd_answer c 0 \<noteq> 0 \<and> 0 \<le> cd_answer c 1 \<and> 0 \<le> cd_answer c 2 \<and>
     (\<forall>n \<ge> 3. cd_answer c n = 0) \<and> (\<forall>n. d_answer (hw_d (hw_of c)) n \<noteq> 0) \<and>
     km_ok (hw_k (hw_of c)) \<and> km_nofail (hw_k (hw_of c)) \<and>
     length (cd_blob c (dn_firmware d)) \<le> AL5_ICACHE_SIZE \<and> length (cd_blob c (dn_bootloader d)) < 0x7004"

lemma claims_ok:
  assumes "cd_log c = []" "cd_answer c 0 \<noteq> 0" "0 \<le> cd_answer c 1" "0 \<le> cd_answer c 2" "cd_answer c 3 = 0"
  shows "\<exists>c'. claim_resources c = (0, c') \<and> cd_answer c' = cd_answer c \<and> length (cd_log c') = 5"
  using assms
  by (simp add: claim_resources_def declare_dedicated_memory_def kcall_eq Let_def numeral_eq_Suc)

lemma alloc_dma_answered:
  assumes "km_nofail k" "\<And>n. d_answer d n \<noteq> 0"
  shows "\<exists>b. fst (al5_alloc_dma sz k d) = Some b" "d_answer (snd (snd (al5_alloc_dma sz k d))) = d_answer d"
  using assms by (auto simp: al5_alloc_dma_def kmalloc_def km_nofail_def dcall_def Let_def
      split: option.splits prod.splits if_splits)

lemma create_codec_answered:
  assumes k: "km_ok (hw_k (hw_of c))" "km_nofail (hw_k (hw_of c))" and n: "sizeof_mcu_interface \<le> n"
    and m: "0 \<le> m" "m < 2 ^ 32" and d: "\<And>i. d_answer (hw_d (hw_of c)) i \<noteq> 0"
    and irq: "cd_answer c (Suc (length (cd_log c))) = 0"
  shows "\<exists>c'. create_codec n m c = Some (0, c') \<and> grows c c' \<and> (\<forall>i. d_answer (hw_d (hw_of c')) i \<noteq> 0)"
proof -
  let ?r = "cd_regs c" and ?s = "hw_of c"
  note sz = mailbox_config_sizes [of ?r]
  obtain mcu mem where i: "mcu_interface_create_sized n (mailbox_config ?r) (?r + AL5_MCU_INTERRUPT)
      (hw_mem ?s) (hw_k ?s) = Some (0, Some mcu, mem, km_step 3 3 (hw_k ?s))"
    using mcu_interface_create_areas [OF k, of "mailbox_config ?r" "?r + AL5_MCU_INTERRUPT" n "hw_mem ?s"] n
    by (auto simp: sz AL5_MCU_INTERRUPT_def)
  obtain g k1 where g: "al5_group_init m (km_step 3 3 (hw_k ?s)) = (g, k1)"
    by (cases "al5_group_init m (km_step 3 3 (hw_k ?s))")
  have nf: "km_nofail k1" using group_init_ok(2) [OF g _ m] k(2) by (simp add: km_nofail_def)
  obtain b where b: "fst (al5_alloc_dma (of_nat AL5_ICACHE_SIZE) k1 (hw_d ?s)) = Some b"
    using alloc_dma_answered(1) [OF nf d] by blast
  obtain k2 d2 where a: "al5_alloc_dma (of_nat AL5_ICACHE_SIZE) k1 (hw_d ?s) = (Some b, k2, d2)"
    using b by (cases "al5_alloc_dma (of_nat AL5_ICACHE_SIZE) k1 (hw_d ?s)") auto
  have d2: "d_answer d2 = d_answer (hw_d ?s)"
    using alloc_dma_answered(2) [OF nf d, of "of_nat AL5_ICACHE_SIZE"] a by simp
  show ?thesis
    using i g a d d2 irq
    by (simp add: create_codec_def alloc_mcu_caches_def Let_def kcall_eq grows_def)
qed

lemma probe_succeeds:
  assumes e: "firmware_answers e" and pl: "platform_ok d c" and n: "sizeof_mcu_interface \<le> n"
    and p: "sys_users (cd_sys c) p = None"
  shows "\<exists>m' c'. driver_probe d n e b p m c = Some (0, m', c') \<and> probe_outcome m c 0 m' c'"
proof -
  let ?c = "zeroed (set_hw ((hw_of c)\<lparr>hw_k := km_step 1 1 (hw_k (hw_of c))\<rparr>) c)"
  have sel: "cd_answer ?c = cd_answer c" "cd_log ?c = []" "cd_blob ?c = cd_blob c"
    "km_ok (hw_k (hw_of ?c))" "km_nofail (hw_k (hw_of ?c))" "hw_d (hw_of ?c) = hw_d (hw_of c)"
    using pl by (simp_all add: platform_ok_def zeroed_def km_ok_def km_nofail_def)
  have ans: "cd_answer c i = 0" if "3 \<le> i" for i using pl that by (simp add: platform_ok_def)
  have z: "kzalloc sizeof_codec_desc (hw_k (hw_of c)) =
      (Some (replicate sizeof_codec_desc 0), km_step 1 1 (hw_k (hw_of c)))"
    using pl by (intro kzalloc_Some) (simp_all add: platform_ok_def)
  obtain c1 where 1: "claim_resources ?c = (0, c1)" "cd_answer c1 = cd_answer c" "length (cd_log c1) = 5"
    using claims_ok [of ?c] pl sel(1,2) by (auto simp: platform_ok_def)
  note k1 = claim_resources_keeps [OF 1(1)]
  have M: "0 \<le> MAX_USERS_NB" "MAX_USERS_NB < 2 ^ 32" by (simp_all add: MAX_USERS_NB_def)
  have d1: "d_answer (hw_d (hw_of c1)) i \<noteq> 0" for i
    using pl k1(2) sel(6) by (simp add: platform_ok_def)
  have irq: "cd_answer c1 (Suc (length (cd_log c1))) = 0" using 1(2,3) ans by simp
  have k: "km_ok (hw_k (hw_of c1))" "km_nofail (hw_k (hw_of c1))" using k1(2) sel(4,5) by simp_all
  from create_codec_answered [OF k n M d1 irq] obtain c2 where
    2: "create_codec n MAX_USERS_NB c1 = Some (0, c2)" "grows c1 c2"
      "\<forall>i. d_answer (hw_d (hw_of c2)) i \<noteq> 0" by blast
  have s: "codec_set_up_sized n MAX_USERS_NB ?c = Some (0, c2)"
    using 1(1) 2(1) by (simp add: codec_set_up_sized_def)
  from codec_set_up_ok [OF sel(4,5) n M] s have r: "codec_ready MAX_USERS_NB c2"
    "sys_users (cd_sys c2) = sys_users (cd_sys c)" "cd_blob c2 = cd_blob c" by (simp_all add: sel(3))
  then obtain ic where ic: "cd_icache c2 = Some ic" "unat (dma_size ic) = AL5_ICACHE_SIZE"
    and t: "group_ok (cd_sys c2)" "mcu_layout c2" "sys_ok (hw_of c2)"
      "user_table (cd_sys c2) = replicate 256 None"
    by (auto simp: codec_ready_def MAX_USERS_NB_def)
  have l2: "cd_answer c2 = cd_answer c" "5 \<le> length (cd_log c2)" using 2(2) 1(2,3) by (simp_all add: grows_def)
  have a2: "cd_answer c2 (length (cd_log c2)) = 0" "cd_answer c2 (Suc (length (cd_log c2))) = 0"
    using l2 ans by simp_all
  have fits: "length (cd_blob c2 (dn_firmware d)) \<le> AL5_ICACHE_SIZE" "length (cd_blob c2 (dn_bootloader d)) < 0x7004"
    using pl r(3) by (simp_all add: platform_ok_def)
  have "sys_users (cd_sys c2) p = None" "None \<in> set (user_table (cd_sys c2))" "36 \<le> outroom (hw_of c2)"
    using p r t(4) ready_room [OF r(1)] by (simp_all add: set_replicate_conv_if)
  from al5_codec_set_firmware_answered [where b = b, OF e t(1-3) ic this(1,2) a2 fits this(3)] 2(3) obtain c3 where
    3: "al5_codec_set_firmware e b p (dn_firmware d) (dn_bootloader d) c2 = Some (0, c3)" "boot_outcome p c2 0 c3"
    by blast
  have l3: "cd_answer c3 = cd_answer c" "5 \<le> length (cd_log c3)"
    using al5_codec_set_firmware_grows [OF 3(1) a2] l2 by (simp_all add: grows_def)
  obtain c4 where 4: "driver_setup_codec_cdev d (md_major m) (md_minor m) c3 = (0, c4)"
    using l3 ans by (auto simp: driver_setup_codec_cdev_def al5_setup_codec_cdev_def kcall_eq)
  from probe_cdev [OF 3(2) t(4) r(2) 4]
  have "probe_outcome m c 0 (m\<lparr>md_minor := md_minor m + 1\<rparr>) (c4\<lparr>cd_minor := md_minor m\<rparr>)" by simp
  with z s 3(1) 4 show ?thesis by (simp add: driver_probe_def)
qed

end
