(* ===== verification/Device.thy ===== *)
theory Device
  imports Message_Forms Probe
begin

text \<open>
  A device in use: files opened and closed, commands on any of them, the interrupt thread and the
  firmware, in any order. The steps are the functions of the code; the invariant ties the table of
  users, the open files and the state below together, and every call from a reachable state
  returns.
\<close>

section \<open>Runs of a device\<close>

text \<open>One step: a file is opened at an address that is not in use, a file's command runs, the
  interrupt thread runs while the firmware's messages have the forms its codec owes (\<open>msg_ok\<close>), the
  firmware moves messages in and out of its mailboxes (or anything else happens below the users that keeps them in order), a file
  is closed. What other threads do inside a command or a close is in its environment.\<close>

inductive device_step ::
    "('m, 'w) dispatcher \<Rightarrow> ('m \<Rightarrow> bool) \<Rightarrow> (al5_mail \<Rightarrow> bool) \<Rightarrow> system \<Rightarrow> system \<Rightarrow> bool"
  for ioctl :: "('m, 'w) dispatcher" and call_ok :: "'m \<Rightarrow> bool" and msg_ok :: "al5_mail \<Rightarrow> bool" where
  opened: "sys_users st p = None \<Longrightarrow> al5_codec_open p st = Some (err, st') \<Longrightarrow>
    device_step ioctl call_ok msg_ok st st'"
| command: "sys_users st p = Some u \<Longrightarrow> call_ok m \<Longrightarrow>
    ioctl cmd m u (sys_hw st) = Some (err, w, u', s') \<Longrightarrow>
    device_step ioctl call_ok msg_ok st (st\<lparr>sys_users := (sys_users st)(p \<mapsto> u'), sys_hw := s'\<rparr>)"
| interrupt: "\<forall>w \<in> set (inbox (sys_hw st)). msg_ok (mail_of_wire w) \<Longrightarrow>
    al5_group_read_mails st = Some st' \<Longrightarrow> device_step ioctl call_ok msg_ok st st'"
| firmware: "sys_ok s' \<Longrightarrow> device_step ioctl call_ok msg_ok st (st\<lparr>sys_hw := s'\<rparr>)"
| closed: "sys_users st p = Some u \<Longrightarrow> (\<And>i. env_ok (e i)) \<Longrightarrow>
    al5_codec_release e p st = Some (err, st') \<Longrightarrow> device_step ioctl call_ok msg_ok st st'"

inductive_cases device_stepE: "device_step ioctl call_ok msg_ok st st'"

text \<open>A device starts without files, as \<open>probe\<close> leaves it.\<close>

inductive device_reachable ::
    "('m, 'w) dispatcher \<Rightarrow> ('m \<Rightarrow> bool) \<Rightarrow> (al5_mail \<Rightarrow> bool) \<Rightarrow> system \<Rightarrow> bool"
  for ioctl :: "('m, 'w) dispatcher" and call_ok :: "'m \<Rightarrow> bool" and msg_ok :: "al5_mail \<Rightarrow> bool" where
  probed: "group_ok st \<Longrightarrow> sys_ok (sys_hw st) \<Longrightarrow> sys_users st = Map.empty \<Longrightarrow>
    device_reachable ioctl call_ok msg_ok st"
| step: "device_reachable ioctl call_ok msg_ok st \<Longrightarrow> device_step ioctl call_ok msg_ok st st' \<Longrightarrow>
    device_reachable ioctl call_ok msg_ok st'"

definition device_ok :: "(al5_user \<Rightarrow> bool) \<Rightarrow> system \<Rightarrow> bool" where
  "device_ok I st \<longleftrightarrow> group_ok st \<and> sys_ok (sys_hw st) \<and>
     (\<forall>p u. sys_users st p = Some u \<longrightarrow> I u \<and> Some p \<in> set (user_table st))"

lemma set_update_other: "x \<in> set xs \<Longrightarrow> xs ! i \<noteq> x \<Longrightarrow> x \<in> set (xs[i := y])"
  by (metis in_set_conv_nth length_list_update nth_list_update_neq)

lemma device_ok_probed:
  "group_ok st \<Longrightarrow> sys_ok (sys_hw st) \<Longrightarrow> sys_users st = Map.empty \<Longrightarrow> device_ok I st"
  by (simp add: device_ok_def)

lemma device_ok_hw: "device_ok I st \<Longrightarrow> sys_ok s \<Longrightarrow> device_ok I (st\<lparr>sys_hw := s\<rparr>)"
  by (simp add: device_ok_def group_ok_def user_table_def)

lemma device_ok_user:
  assumes "device_ok I st" "sys_users st p = Some u" "u_uid u' = u_uid u" "I u'" "sys_ok s"
  shows "device_ok I (st\<lparr>sys_users := (sys_users st)(p \<mapsto> u'), sys_hw := s\<rparr>)"
proof -
  from assms(1-3) have "group_ok (st\<lparr>sys_users := (sys_users st)(p \<mapsto> u')\<rparr>)"
    by (intro group_ok_update) (auto simp: device_ok_def)
  with assms show ?thesis by (simp add: device_ok_def group_ok_def user_table_def)
qed

lemma device_ok_notin: "device_ok I st \<Longrightarrow> sys_users st p = None \<Longrightarrow> Some p \<notin> set (user_table st)"
  using group_ok_entry [of st p] by (auto simp: device_ok_def)

lemma device_ok_open:
  assumes "device_ok I st" "sys_users st p = None" "al5_codec_open p st = Some (err, st')"
    and "\<And>uid. I (al5_user_init uid)"
  shows "device_ok I st' \<and> (err = 0 \<longleftrightarrow> None \<in> set (user_table st))"
proof -
  have g: "group_ok st" "sys_ok (sys_hw st)" using assms(1) by (simp_all add: device_ok_def)
  note o = al5_codec_open_ok [OF g device_ok_notin [OF assms(1,2)]]
  show ?thesis
  proof (cases "None \<in> set (user_table st)")
    case False
    with o assms(1,3) show ?thesis by (auto simp: device_ok_def)
  next
    case True
    with o assms(3) obtain i where
      n: "err = 0" "group_ok st'" "sys_ok (sys_hw st')" "i < length (user_table st)" "user_table st ! i = None"
      "user_table st' = (user_table st)[i := Some p]" "sys_users st' = (sys_users st)(p \<mapsto> al5_user_init (int i))"
      by auto
    have "I u \<and> Some q \<in> set (user_table st')" if "sys_users st' q = Some u" for q u
      using that n(4-7) assms(1,4) set_update_other [of "Some q" "user_table st" i]
      by (auto simp: device_ok_def set_update_memI split: if_splits)
    with n True show ?thesis by (simp add: device_ok_def)
  qed
qed

lemma device_ok_close:
  assumes "device_ok I st" "sys_users st p = Some u" "\<And>i. env_ok (e i)" "\<And>u. I u \<Longrightarrow> pools_ok u"
  shows "\<exists>st'. al5_codec_release e p st = Some (0, st') \<and> device_ok I st' \<and>
    sys_users st' = (sys_users st)(p := None)"
proof -
  have g: "group_ok st" "sys_ok (sys_hw st)" "Some p \<in> set (user_table st)" "pools_ok u"
    using assms(1,2,4) by (auto simp: device_ok_def)
  from al5_codec_release_ok [where e = e, OF assms(3) g(1-3) assms(2) g(4)] obtain st' i where
    r: "al5_codec_release e p st = Some (0, st')" "group_ok st'" "sys_ok (sys_hw st')"
    "user_table st ! i = Some p" "user_table st' = (user_table st)[i := None]"
    "sys_users st' = (sys_users st)(p := None)" by blast
  have "I v \<and> Some q \<in> set (user_table st')" if "sys_users st' q = Some v" for q v
    using that r(4-6) assms(1) set_update_other [of "Some q" "user_table st" i]
    by (auto simp: device_ok_def split: if_splits)
  with r show ?thesis by (simp add: device_ok_def)
qed

text \<open>Deliveries leave everything but the queues of a user.\<close>

lemma delivered_keeps:
  assumes "delivered ms st st'" "sys_users st p = Some u" "sys_users st' p = Some u'"
  shows "env_keeps (u, s) (u', s)"
proof -
  from assms have "u'\<lparr>u_queues := u_queues u\<rparr> = u" unfolding delivered_def by fastforce
  then show ?thesis by (cases u; cases u') (simp add: env_keeps_def)
qed

lemma device_ok_interrupt:
  assumes "device_ok I st" "\<forall>w \<in> set (inbox (sys_hw st)). msg_ok (mail_of_wire w)"
    and w: "\<And>m. msg_ok m \<Longrightarrow> fw_mail_ok m"
    and q: "\<And>ms st' p u u'. delivered ms st st' \<Longrightarrow> (\<And>m. m \<in> set ms \<Longrightarrow> msg_ok m) \<Longrightarrow>
      sys_users st p = Some u \<Longrightarrow> sys_users st' p = Some u' \<Longrightarrow> I u \<Longrightarrow> I u'"
  shows "\<exists>st'. al5_group_read_mails st = Some st' \<and> device_ok I st'"
proof -
  have g: "group_ok st" "sys_ok (sys_hw st)" using assms(1) by (simp_all add: device_ok_def)
  let ?ms = "map mail_of_wire (take 100 (inbox (sys_hw st)))"
  have ms: "msg_ok m" if "m \<in> set ?ms" for m
    using that assms(2) by (auto dest: in_set_takeD)
  from read_mails_all [OF g, of 100] assms(2) w obtain st' where
    r: "al5_group_read_mails st = Some st'" "group_ok st'" "sys_ok (sys_hw st')" and
    d: "delivered ?ms st st'"
    by (auto simp: al5_group_read_mails_def MAX_MAILBOX_MSG_def)
  have s: "same_routes st st'" using d by (simp add: delivered_def)
  have "I u' \<and> Some p \<in> set (user_table st')" if u': "sys_users st' p = Some u'" for p u'
  proof -
    from s u' obtain u where u: "sys_users st p = Some u"
      by (cases "sys_users st p") (auto simp: same_routes_def dest!: spec [of _ p])
    moreover from u assms(1) have "I u" "Some p \<in> set (user_table st)" by (auto simp: device_ok_def)
    ultimately show ?thesis using q [OF d ms u u'] same_routes_table [OF s] by simp
  qed
  with r show ?thesis by (simp add: device_ok_def)
qed

text \<open>As many files are open as numbers are taken.\<close>

lemma open_files_numbers:
  assumes "device_ok I st"
  shows "bij_betw (\<lambda>p. nat (u_uid (the (sys_users st p)))) (dom (sys_users st))
    {i. i < length (user_table st) \<and> user_table st ! i \<noteq> None}"
proof (rule bij_betw_byWitness [where f' = "\<lambda>i. the (user_table st ! i)"])
  have g: "group_ok st" using assms by (simp add: device_ok_def)
  have at: "\<exists>i < length (user_table st). user_table st ! i = Some p \<and> u_uid u = int i"
    if "sys_users st p = Some u" for p u
  proof -
    have "Some p \<in> set (user_table st)" using assms that by (auto simp: device_ok_def)
    from table_place [OF g this that] show ?thesis by metis
  qed
  show "(\<lambda>p. nat (u_uid (the (sys_users st p)))) ` dom (sys_users st) \<subseteq>
      {i. i < length (user_table st) \<and> user_table st ! i \<noteq> None}"
    using at by fastforce
  show "(\<lambda>i. the (user_table st ! i)) ` {i. i < length (user_table st) \<and> user_table st ! i \<noteq> None} \<subseteq>
      dom (sys_users st)"
    using group_okE(3) [OF g] by fastforce
  show "\<forall>p \<in> dom (sys_users st). the (user_table st ! nat (u_uid (the (sys_users st p)))) = p"
    using at by fastforce
  show "\<forall>i \<in> {i. i < length (user_table st) \<and> user_table st ! i \<noteq> None}.
      nat (u_uid (the (sys_users st (the (user_table st ! i))))) = i"
    using group_okE(3) [OF g] by fastforce
qed

lemma table_full:
  assumes "device_ok I st"
  shows "None \<in> set (user_table st) \<longleftrightarrow> card (dom (sys_users st)) < length (user_table st)"
proof -
  let ?T = "user_table st"
  have "card (dom (sys_users st)) = card {i. i < length ?T \<and> ?T ! i \<noteq> None}"
    using open_files_numbers [OF assms] by (rule bij_betw_same_card)
  also have "\<dots> = length (filter (\<lambda>x. x \<noteq> None) ?T)" by (simp add: length_filter_conv_card)
  also have "\<dots> < length ?T \<longleftrightarrow> None \<in> set ?T"
    using length_filter_less [of None ?T "\<lambda>x. x \<noteq> None"] filter_True [of ?T "\<lambda>x. x \<noteq> None"]
    by (metis nat_less_le)
  finally show ?thesis by simp
qed

section \<open>Devices whose commands keep their contract\<close>

locale command_device =
  fixes ioctl :: "('m, 'w) dispatcher"
    and call_ok :: "'m \<Rightarrow> bool"
    and msg_ok :: "al5_mail \<Rightarrow> bool"
    and inv :: "al5_user \<Rightarrow> bool"
  assumes inv_init: "inv (al5_user_init uid)"
    and inv_pools: "inv u \<Longrightarrow> pools_ok u"
    and msg_words: "msg_ok x \<Longrightarrow> fw_mail_ok x"
    and inv_delivered: "delivered ms st st' \<Longrightarrow> (\<And>x. x \<in> set ms \<Longrightarrow> msg_ok x) \<Longrightarrow>
      sys_users st p = Some u \<Longrightarrow> sys_users st' p = Some u' \<Longrightarrow> inv u \<Longrightarrow> inv u'"
    and returns: "sys_ok s \<Longrightarrow> inv u \<Longrightarrow> call_ok m \<Longrightarrow> \<exists>err w u' s'.
      ioctl cmd m u s = Some (err, w, u', s') \<and> sys_ok s' \<and> inv u' \<and> u_uid u' = u_uid u"
begin

lemma command_ok:
  assumes "device_ok inv st" "sys_users st p = Some u" "call_ok m"
  shows "\<exists>err w u' s'. ioctl cmd m u (sys_hw st) = Some (err, w, u', s') \<and>
    device_ok inv (st\<lparr>sys_users := (sys_users st)(p \<mapsto> u'), sys_hw := s'\<rparr>)"
proof -
  have ok: "sys_ok (sys_hw st)" "inv u" using assms(1,2) by (auto simp: device_ok_def)
  from returns [OF ok assms(3)] obtain err w u' s' where
    r: "ioctl cmd m u (sys_hw st) = Some (err, w, u', s')" "sys_ok s'" "inv u'" "u_uid u' = u_uid u" by blast
  from device_ok_user [OF assms(1,2) r(4,3,2)] r(1) show ?thesis by blast
qed

lemma interrupt_ok:
  assumes "device_ok inv st" "\<forall>w \<in> set (inbox (sys_hw st)). msg_ok (mail_of_wire w)"
  shows "\<exists>st'. al5_group_read_mails st = Some st' \<and> device_ok inv st'"
  using assms msg_words inv_delivered by (rule device_ok_interrupt)

lemma step_ok: "device_step ioctl call_ok msg_ok st st' \<Longrightarrow> device_ok inv st \<Longrightarrow> device_ok inv st'"
proof (induction rule: device_step.induct)
  case (opened st p err st')
  then show ?case using device_ok_open inv_init by blast
next
  case (command st p u m cmd err w u' s')
  then show ?case using command_ok [of st p u m cmd] by auto
next
  case (interrupt st st')
  then show ?case using interrupt_ok [of st] by auto
next
  case (firmware s' st)
  then show ?case by (intro device_ok_hw)
next
  case (closed st p u e err st')
  then show ?case using device_ok_close [of inv st p u e] inv_pools by auto
qed

lemma device_invariant: "device_reachable ioctl call_ok msg_ok st \<Longrightarrow> device_ok inv st"
  by (induction rule: device_reachable.induct) (auto intro: device_ok_probed step_ok)

lemma numbers:
  assumes "device_reachable ioctl call_ok msg_ok st"
  shows "group_ok st \<and> sys_ok (sys_hw st) \<and>
    (\<forall>p u. sys_users st p = Some u \<longrightarrow> inv u \<and>
      (\<exists>i < length (user_table st). user_table st ! i = Some p \<and> u_uid u = int i)) \<and>
    (\<forall>p q u v. sys_users st p = Some u \<and> sys_users st q = Some v \<and> p \<noteq> q \<longrightarrow> u_uid u \<noteq> u_uid v) \<and>
    card (dom (sys_users st)) \<le> length (user_table st)"
    (is "_ \<and> _ \<and> ?at \<and> ?distinct \<and> ?card")
proof (intro conjI)
  have ok: "device_ok inv st" using assms by (rule device_invariant)
  then show g: "group_ok st" and "sys_ok (sys_hw st)" by (simp_all add: device_ok_def)
  show at: ?at
  proof (intro allI impI conjI)
    fix p u
    assume u: "sys_users st p = Some u"
    with ok have "inv u" "Some p \<in> set (user_table st)" by (auto simp: device_ok_def)
    with table_place [OF g _ u] show "inv u"
      "\<exists>i < length (user_table st). user_table st ! i = Some p \<and> u_uid u = int i" by metis+
  qed
  show ?distinct
  proof (intro allI impI)
    fix p q u v
    assume a: "sys_users st p = Some u \<and> sys_users st q = Some v \<and> p \<noteq> q"
    then obtain i where i: "user_table st ! i = Some p" "u_uid u = int i" using at by blast
    from a obtain j where j: "user_table st ! j = Some q" "u_uid v = int j" using at by blast
    show "u_uid u \<noteq> u_uid v"
    proof
      assume "u_uid u = u_uid v"
      with i(2) j(2) have "i = j" by simp
      with i(1) j(1) a show False by simp
    qed
  qed
  have "card (dom (sys_users st)) = card {i. i < length (user_table st) \<and> user_table st ! i \<noteq> None}"
    using open_files_numbers [OF ok] by (rule bij_betw_same_card)
  also have "\<dots> \<le> card {..< length (user_table st)}" by (rule card_mono) auto
  also have "\<dots> = length (user_table st)" by simp
  finally show ?card .
qed

lemma never_stuck:
  assumes "device_reachable ioctl call_ok msg_ok st"
  shows "(sys_users st p = None \<longrightarrow> (\<exists>err st'. al5_codec_open p st = Some (err, st') \<and>
      device_reachable ioctl call_ok msg_ok st' \<and>
      (err = 0 \<longleftrightarrow> card (dom (sys_users st)) < length (user_table st)))) \<and>
    (\<forall>u m cmd. sys_users st p = Some u \<and> call_ok m \<longrightarrow> (\<exists>err w u' s'.
      ioctl cmd m u (sys_hw st) = Some (err, w, u', s') \<and>
      device_reachable ioctl call_ok msg_ok (st\<lparr>sys_users := (sys_users st)(p \<mapsto> u'), sys_hw := s'\<rparr>))) \<and>
    ((\<forall>w \<in> set (inbox (sys_hw st)). msg_ok (mail_of_wire w)) \<longrightarrow>
      (\<exists>st'. al5_group_read_mails st = Some st' \<and> device_reachable ioctl call_ok msg_ok st')) \<and>
    (\<forall>e. sys_users st p \<noteq> None \<and> (\<forall>i. env_ok (e i)) \<longrightarrow> (\<exists>st'. al5_codec_release e p st = Some (0, st') \<and>
      device_reachable ioctl call_ok msg_ok st' \<and> sys_users st' = (sys_users st)(p := None)))"
    (is "?open \<and> ?command \<and> ?interrupt \<and> ?close")
proof (intro conjI)
  have ok: "device_ok inv st" using assms by (rule device_invariant)
  note next_step = device_reachable.step [OF assms]
  show ?open
  proof
    assume p: "sys_users st p = None"
    have g: "group_ok st" "sys_ok (sys_hw st)" using ok by (simp_all add: device_ok_def)
    from al5_codec_open_ok [OF g device_ok_notin [OF ok p]] obtain err st' where
      o: "al5_codec_open p st = Some (err, st')" by blast
    from next_step [OF device_step.opened [OF p o]] device_ok_open [OF ok p o inv_init] o
    show "\<exists>err st'. al5_codec_open p st = Some (err, st') \<and> device_reachable ioctl call_ok msg_ok st' \<and>
      (err = 0 \<longleftrightarrow> card (dom (sys_users st)) < length (user_table st))"
      unfolding table_full [OF ok] by blast
  qed
  show ?command using command_ok [OF ok] next_step [OF device_step.command] by metis
  show ?interrupt
  proof
    assume w: "\<forall>w \<in> set (inbox (sys_hw st)). msg_ok (mail_of_wire w)"
    from interrupt_ok [OF ok w] obtain st' where i: "al5_group_read_mails st = Some st'" by blast
    from next_step [OF device_step.interrupt [OF w i]] i
    show "\<exists>st'. al5_group_read_mails st = Some st' \<and> device_reachable ioctl call_ok msg_ok st'" by blast
  qed
  show ?close
  proof (intro allI impI)
    fix e :: "nat \<Rightarrow> env"
    assume e: "sys_users st p \<noteq> None \<and> (\<forall>i. env_ok (e i))"
    then obtain u where u: "sys_users st p = Some u" by blast
    from e have e': "env_ok (e i)" for i by simp
    obtain st' where c: "al5_codec_release e p st = Some (0, st')" "sys_users st' = (sys_users st)(p := None)"
      using device_ok_close [where e = e, OF ok u e'] inv_pools by blast
    from next_step [OF device_step.closed [where e = e, OF u e' c(1)]] c
    show "\<exists>st'. al5_codec_release e p st = Some (0, st') \<and> device_reachable ioctl call_ok msg_ok st' \<and>
      sys_users st' = (sys_users st)(p := None)" by blast
  qed
qed

end

text \<open>The commands of the two devices. Reading a reconstructed picture needs more of the firmware
  than a form: a number that is not the one \<open>get_user_rec_buffer\<close> lets pass by mistake.\<close>

definition enc_device_call :: "env \<times> enc_user_mem \<Rightarrow> bool" where
  "enc_device_call em \<longleftrightarrow> others_ok enc_form (fst em) \<and> enc_mem_ok (snd em) \<and>
     (um_rec (snd em) \<noteq> None \<longrightarrow> rec_waits_ok (fst em))"

definition dec_device_call :: "env \<times> dec_user_mem \<Rightarrow> bool" where
  "dec_device_call em \<longleftrightarrow> others_ok dec_form (fst em) \<and> dec_mem_ok (snd em)"

abbreviation enc_reachable :: "system \<Rightarrow> bool" where
  "enc_reachable \<equiv> device_reachable enc_call enc_device_call (fw_form enc_form)"

abbreviation dec_reachable :: "system \<Rightarrow> bool" where
  "dec_reachable \<equiv> device_reachable dec_call dec_device_call (fw_form dec_form)"

interpretation enc_device: command_device enc_call enc_device_call "fw_form enc_form"
  "\<lambda>u. enc_inv u \<and> queues_ok enc_form u"
proof
  show "enc_inv (al5_user_init uid) \<and> queues_ok enc_form (al5_user_init uid)" for uid
    by (simp add: enc_inv_init)
  show "pools_ok u" if "enc_inv u \<and> queues_ok enc_form u" for u
    using that by (simp add: enc_inv_def pools_small_def)
  show "fw_mail_ok m" if "fw_form enc_form m" for m using that by (simp add: fw_form_def)
  show "enc_inv u' \<and> queues_ok enc_form u'"
    if "delivered ms st st'" "\<And>m. m \<in> set ms \<Longrightarrow> fw_form enc_form m" "sys_users st p = Some u"
      "sys_users st' p = Some u'" "enc_inv u \<and> queues_ok enc_form u" for ms st st' p u u'
    using delivered_forms [OF that(1-4)] delivered_keeps [OF that(1,3,4), of hw0] that(5)
      env_keeps_enc_inv by blast
  show "\<exists>err w u' s'. enc_call cmd m u s = Some (err, w, u', s') \<and> sys_ok s' \<and>
      (enc_inv u' \<and> queues_ok enc_form u') \<and> u_uid u' = u_uid u"
    if "sys_ok s" "enc_inv u \<and> queues_ok enc_form u" "enc_device_call m" for s u m cmd
    using enc_command_returns [of "fst m" "snd m" s u cmd] that
    by (simp add: enc_call_def enc_device_call_def)
qed

interpretation dec_device: command_device dec_call dec_device_call "fw_form dec_form"
  "\<lambda>u. dec_inv u \<and> queues_ok dec_form u"
proof
  show "dec_inv (al5_user_init uid) \<and> queues_ok dec_form (al5_user_init uid)" for uid
    by (simp add: dec_inv_init)
  show "pools_ok u" if "dec_inv u \<and> queues_ok dec_form u" for u
    using that by (simp add: dec_inv_def pools_ok_def)
  show "fw_mail_ok m" if "fw_form dec_form m" for m using that by (simp add: fw_form_def)
  show "dec_inv u' \<and> queues_ok dec_form u'"
    if "delivered ms st st'" "\<And>m. m \<in> set ms \<Longrightarrow> fw_form dec_form m" "sys_users st p = Some u"
      "sys_users st' p = Some u'" "dec_inv u \<and> queues_ok dec_form u" for ms st st' p u u'
    using delivered_forms [OF that(1-4)] dec_inv_kept [OF delivered_keeps [OF that(1,3,4), of hw0]] that(5)
    by blast
  show "\<exists>err w u' s'. dec_call cmd m u s = Some (err, w, u', s') \<and> sys_ok s' \<and>
      (dec_inv u' \<and> queues_ok dec_form u') \<and> u_uid u' = u_uid u"
    if "sys_ok s" "dec_inv u \<and> queues_ok dec_form u" "dec_device_call m" for s u m cmd
    using dec_command_returns [of "fst m" s u "snd m" cmd] that
    by (simp add: dec_call_def dec_device_call_def)
qed

section \<open>Properties\<close>

text \<open>C5: numbers and files of an encoder device. After any run of opens, commands of any file,
  interrupts, activity of the firmware and closes, every open file is in the table at the place of
  its number, no two files share a number, there are no more files than the table has entries,
  every user and the state below are in order, and the queues hold messages of the right forms.\<close>

theorem enc_device_safe:
  assumes "enc_reachable st"
  shows "group_ok st \<and> sys_ok (sys_hw st) \<and>
    (\<forall>p u. sys_users st p = Some u \<longrightarrow> (enc_inv u \<and> queues_ok enc_form u) \<and>
      (\<exists>i < length (user_table st). user_table st ! i = Some p \<and> u_uid u = int i)) \<and>
    (\<forall>p q u v. sys_users st p = Some u \<and> sys_users st q = Some v \<and> p \<noteq> q \<longrightarrow> u_uid u \<noteq> u_uid v) \<and>
    card (dom (sys_users st)) \<le> length (user_table st)"
  using assms by (rule enc_device.numbers)


text \<open>The device of \<open>codec0\<close> after its set-up, with one file open.\<close>

lemma device0:
  obtains c st where "codec_set_up_sized sizeof_mcu_interface 4 codec0 = Some (0, c)"
    "enc_reachable (cd_sys c)" "sys_users (cd_sys c) = Map.empty"
    "user_table (cd_sys c) = replicate 4 None" "al5_codec_open 20 (cd_sys c) = Some (0, st)"
    "enc_reachable st" "sys_users st 20 \<noteq> None" "length (user_table st) = 4"
proof -
  obtain c ic where c: "codec_set_up_sized sizeof_mcu_interface 4 codec0 = Some (0, c)" "codec_ready 4 c"
    "cd_icache c = Some ic" "unat (dma_size ic) = AL5_ICACHE_SIZE" "sys_users (cd_sys c) = Map.empty"
    by (rule codec0_ready)
  have g: "group_ok (cd_sys c)" "sys_ok (sys_hw (cd_sys c))" "user_table (cd_sys c) = replicate 4 None"
    using c(2) by (simp_all add: codec_ready_def hw_of_def)
  have r: "enc_reachable (cd_sys c)"
    using g(1,2) c(5) by (rule device_reachable.probed)
  from al5_codec_open_ok [OF g(1,2), of 20] g(3) obtain st i where
    o: "al5_codec_open 20 (cd_sys c) = Some (0, st)" "user_table st = (user_table (cd_sys c))[i := Some 20]"
    "sys_users st = (sys_users (cd_sys c))(20 \<mapsto> al5_user_init (int i))"
    by (auto simp: set_replicate_conv_if)
  have "sys_users (cd_sys c) 20 = None" using c(5) by simp
  from device_reachable.step [OF r device_step.opened [OF this o(1)]]
  have "enc_reachable st" .
  moreover have "sys_users st 20 \<noteq> None" using o(3) by simp
  moreover have "length (user_table st) = 4" using o(2) g(3) by simp
  ultimately show thesis using that [OF c(1) r c(5) g(3) o(1)] by blast
qed

theorem enc_device_safe_witness:
  "\<exists>c st u. codec_set_up_sized sizeof_mcu_interface 4 codec0 = Some (0, c) \<and>
    al5_codec_open 20 (cd_sys c) = Some (0, st) \<and> sys_users st 20 = Some u \<and> enc_inv u \<and> u_uid u < 4"
proof -
  obtain c st where d: "codec_set_up_sized sizeof_mcu_interface 4 codec0 = Some (0, c)"
    "al5_codec_open 20 (cd_sys c) = Some (0, st)" "enc_reachable st"
    "sys_users st 20 \<noteq> None" "length (user_table st) = 4" by (rule device0)
  then obtain u where "sys_users st 20 = Some u" by blast
  with enc_device_safe [OF d(3)] d show ?thesis by fastforce
qed






end
