(* ===== verification/Interrupt_Env.thy ===== *)
theory Interrupt_Env
  imports Device
begin

text \<open>
  The interrupt thread as the other thread of a call. While a call waits, the firmware works and the
  handler of \<open>common/al_group.c\<close> delivers its messages, to the waiting user among others. Here that
  is an environment made of the code itself: the contracts the commands rely on follow from the
  handler, and a caller that waits is woken by the message it waits for.
\<close>

section \<open>Interrupts while a call waits\<close>

text \<open>What surrounds a call of the user at \<open>su_address\<close>: the table and the other users as they are
  when an interrupt comes, what the firmware has done by then to the state below, and how a wait
  for the answer to a creation ends when nothing arrives (a signal, or the end of its time).\<close>

record surroundings =
  su_address :: addr
  su_rest :: "hw \<Rightarrow> system"
  su_firmware :: "hw \<Rightarrow> hw"
  su_signal :: bool

definition with_user :: "surroundings \<Rightarrow> ustate \<Rightarrow> system" where
  "with_user w us =
     (let st = su_rest w (snd us)
      in st\<lparr>sys_users := (sys_users st)(su_address w \<mapsto> fst us), sys_hw := snd us\<rparr>)"

text \<open>The table leads to the users, the state below is in order, and the firmware's messages have
  the forms its codec owes.\<close>

definition in_order :: "form \<Rightarrow> system \<Rightarrow> bool" where
  "in_order form st \<longleftrightarrow> group_ok st \<and> sys_ok (sys_hw st) \<and>
     (\<forall>w \<in> set (inbox (sys_hw st)). fw_form form (mail_of_wire w))"

text \<open>The firmware works, then the interrupt thread runs; an interrupt that would find things out of
  order does not come.\<close>

definition interrupt_on :: "form \<Rightarrow> surroundings \<Rightarrow> ustate \<Rightarrow> ustate" where
  "interrupt_on form w us =
     (let st = with_user w (fst us, su_firmware w (snd us))
      in if \<not> in_order form st then us
         else case al5_group_read_mails st of
           None \<Rightarrow> us
         | Some st \<Rightarrow> (case sys_users st (su_address w) of None \<Rightarrow> us | Some u \<Rightarrow> (u, sys_hw st)))"

text \<open>The loop of \<open>wait_event\<close>: the condition is tested, and tested again after each of at most \<open>n\<close>
  interrupts.\<close>

fun await :: "nat \<Rightarrow> (ustate \<Rightarrow> bool) \<Rightarrow> (ustate \<Rightarrow> ustate) \<Rightarrow> ustate \<Rightarrow> bool \<times> ustate" where
  "await 0 ready burst us = (ready us, us)"
| "await (Suc n) ready burst us = (if ready us then (True, us) else await n ready burst (burst us))"

text \<open>Only the wait for the answer to a creation has a time limit: it then returns the time left.\<close>

definition wait_end :: "surroundings \<Rightarrow> user_mail \<Rightarrow> bool \<Rightarrow> int" where
  "wait_end w q ready =
     (if q = AL5_USER_MAIL_CREATE then if ready then 1 else if su_signal w then - ERESTARTSYS else 0
      else if ready then 0 else - ERESTARTSYS)"

definition interrupt_env :: "form \<Rightarrow> surroundings \<Rightarrow> nat \<Rightarrow> env" where
  "interrupt_env form w n =
     \<lparr>e_lock = (\<lambda>op us. let us = interrupt_on form w us
                       in (if u_locks (fst us) op then - EINTR else 0, us)),
      e_wait = (\<lambda>q us. let (ready, us) = await n (\<lambda>us. mail_is_available (u_queues (fst us) q))
                                          (interrupt_on form w) us
                      in (wait_end w q ready, us))\<rparr>"

section \<open>One interrupt\<close>

lemma with_user_sel [simp]:
  "sys_users (with_user w us) (su_address w) = Some (fst us)" "sys_hw (with_user w us) = snd us"
  "sys_group (with_user w us) = sys_group (su_rest w (snd us))"
  by (simp_all add: with_user_def Let_def)

text \<open>What the interrupt thread delivers, to the user who waits.\<close>

definition arriving :: "surroundings \<Rightarrow> ustate \<Rightarrow> al5_mail list" where
  "arriving w us = map mail_of_wire (take 100 (inbox (su_firmware w (snd us))))"

lemma interrupt_delivers:
  assumes "in_order form (with_user w (u, su_firmware w s))"
  shows "\<exists>u' s'. interrupt_on form w (u, s) = (u', s') \<and> sys_ok s' \<and>
    inbox s' = drop 100 (inbox (su_firmware w s)) \<and> u'\<lparr>u_queues := u_queues u\<rparr> = u \<and>
    (\<forall>m \<in> set (arriving w (u, s)). fw_form form m) \<and>
    (\<forall>q. q_list (u_queues u' q) = q_list (u_queues u q) @
           routed (with_user w (u, su_firmware w s)) (su_address w) q (arriving w (u, s)) \<and>
         q_locked (u_queues u' q) = q_locked (u_queues u q)) \<and>
    (queues_ok form u \<longrightarrow> queues_ok form u')"
proof -
  let ?st = "with_user w (u, su_firmware w s)"
  from assms have o: "group_ok ?st" "sys_ok (sys_hw ?st)"
    "\<forall>x \<in> set (inbox (sys_hw ?st)). fw_form form (mail_of_wire x)" by (simp_all add: in_order_def)
  have f: "fw_form form m" if "m \<in> set (arriving w (u, s))" for m
    using that o(3) by (auto simp: arriving_def dest: in_set_takeD)
  from o(3) have "\<forall>x \<in> set (inbox (sys_hw ?st)). fw_mail_ok (mail_of_wire x)" by (simp add: fw_form_def)
  from read_mails_all [OF o(1,2) this, of 100] obtain st' where
    r: "al5_group_read_mails ?st = Some st'" "sys_ok (sys_hw st')"
    "inbox (sys_hw st') = drop 100 (inbox (su_firmware w s))"
    and d: "delivered (arriving w (u, s)) ?st st'"
    by (auto simp: al5_group_read_mails_def MAX_MAILBOX_MSG_def arriving_def)
  have u: "sys_users ?st (su_address w) = Some u" by simp
  from d u obtain u' where u': "sys_users st' (su_address w) = Some u'"
    "u'\<lparr>u_queues := u_queues u\<rparr> = u"
    "\<forall>q. q_list (u_queues u' q) = q_list (u_queues u q) @
       routed ?st (su_address w) q (arriving w (u, s)) \<and> q_locked (u_queues u' q) = q_locked (u_queues u q)"
    unfolding delivered_def by blast
  have "interrupt_on form w (u, s) = (u', sys_hw st')"
    using assms r(1) u'(1) by (simp add: interrupt_on_def Let_def)
  moreover have "queues_ok form u \<longrightarrow> queues_ok form u'"
    using delivered_forms [OF d f u u'(1)] by blast
  ultimately show ?thesis using r(2,3) u'(2,3) f by blast
qed

text \<open>What an interrupt guarantees to the call it interrupts.\<close>

definition harmless :: "form \<Rightarrow> ustate \<Rightarrow> ustate \<Rightarrow> bool" where
  "harmless form us us' \<longleftrightarrow> env_keeps us us' \<and> u_locks (fst us') = u_locks (fst us) \<and>
     (queues_ok form (fst us) \<longrightarrow> queues_ok form (fst us'))"

lemma harmless_refl: "harmless form us us"
  by (simp add: harmless_def)

lemma harmless_trans: "harmless form us us' \<Longrightarrow> harmless form us' us'' \<Longrightarrow> harmless form us us''"
  by (auto simp: harmless_def intro: env_keeps_trans)

lemma interrupt_harmless: "harmless form us (interrupt_on form w us)"
proof (cases "in_order form (with_user w (fst us, su_firmware w (snd us)))")
  case False
  then show ?thesis by (simp add: interrupt_on_def harmless_refl)
next
  case True
  obtain u s where us: "us = (u, s)" by (cases us)
  from interrupt_delivers [of form w u s] True us obtain u' s' where
    i: "interrupt_on form w (u, s) = (u', s')" "sys_ok s'" "u'\<lparr>u_queues := u_queues u\<rparr> = u"
    "queues_ok form u \<longrightarrow> queues_ok form u'" by auto
  then show ?thesis using us by (cases u; cases u') (simp add: harmless_def env_keeps_def)
qed

section \<open>The contracts\<close>

lemma await_ready: "await n ready burst us = (b, us') \<Longrightarrow> b = ready us'"
  by (induction n arbitrary: us) (auto split: if_splits)

lemma await_harmless: "harmless form us (snd (await n ready (interrupt_on form w) us))"
proof (induction n arbitrary: us)
  case (Suc n)
  show ?case using harmless_trans [OF interrupt_harmless Suc.IH] by (simp add: harmless_refl)
qed (simp add: harmless_refl)

lemma interrupt_env_harmless:
  "harmless form us (snd (e_lock (interrupt_env form w n) op us))"
  "harmless form us (snd (e_wait (interrupt_env form w n) q us))"
  by (simp_all add: interrupt_env_def Let_def split_def interrupt_harmless await_harmless)

lemma interrupt_env_results:
  "e_lock (interrupt_env form w n) op us = (r, us') \<Longrightarrow> r = - EINTR \<or> r = 0 \<and> \<not> u_locks (fst us') op"
  "create_waits (interrupt_env form w n)"
  by (auto simp: interrupt_env_def create_waits_def Let_def wait_end_def wait_timeout_result_def
      split: prod.splits if_splits dest: await_ready)

lemma interrupt_env_ok:
  "others_ok form (interrupt_env form w n)" "env_leaves_lock (interrupt_env form w n) op"
proof -
  let ?e = "interrupt_env form w n"
  note h = interrupt_env_harmless [where form = form and w = w and n = n, unfolded harmless_def]
  have "env_ok ?e"
    unfolding env_ok_def using h interrupt_env_results(1) [where form = form and w = w and n = n]
    by (auto split: prod.splits) (metis snd_conv)+
  moreover have "keeps_env (queues_ok form) ?e" unfolding keeps_env_def using h by blast
  ultimately show "others_ok form ?e" using interrupt_env_results(2) by (simp add: others_ok_def)
  show "env_leaves_lock ?e op" unfolding env_leaves_lock_def using h by simp
qed

section \<open>A caller that waits for a status\<close>

lemma await_at:
  "(\<And>i. i < k \<Longrightarrow> \<not> ready ((burst ^^ i) us)) \<Longrightarrow> ready ((burst ^^ k) us) \<Longrightarrow> k \<le> n \<Longrightarrow>
   await n ready burst us = (True, (burst ^^ k) us)"
proof (induction n arbitrary: k us)
  case (Suc n)
  show ?case
  proof (cases k)
    case (Suc j)
    have "await n ready burst (burst us) = (True, (burst ^^ j) (burst us))"
    proof (rule Suc.IH)
      show "\<not> ready ((burst ^^ i) (burst us))" if "i < j" for i
        using Suc.prems(1) [of "i + 1"] that \<open>k = Suc j\<close> by (simp add: funpow_swap1)
    qed (use Suc.prems \<open>k = Suc j\<close> in \<open>simp_all add: funpow_swap1\<close>)
    with Suc.prems(1) [of 0] \<open>k = Suc j\<close> show ?thesis by (simp add: funpow_swap1)
  qed (use Suc.prems in simp)
qed simp

text \<open>The state after \<open>k\<close> interrupts.\<close>

definition after_interrupts :: "form \<Rightarrow> surroundings \<Rightarrow> nat \<Rightarrow> ustate \<Rightarrow> ustate" where
  "after_interrupts form w k = interrupt_on form w ^^ k"

text \<open>The caller of \<open>al5e_user_wait_for_status\<close>, blocked with its mutex taken, after \<open>k\<close> interrupts.\<close>

definition status_wait :: "form \<Rightarrow> surroundings \<Rightarrow> al5_user \<Rightarrow> hw \<Rightarrow> nat \<Rightarrow> ustate" where
  "status_wait form w u s k =
     after_interrupts form w k (u\<lparr>u_locks := (u_locks u)(AL5_USER_STATUS := True)\<rparr>, s)"

lemma after_interrupts_kept:
  "q_locked (u_queues (fst (after_interrupts form w k us)) q) = q_locked (u_queues (fst us) q) \<and>
   u_chan_uid (fst (after_interrupts form w k us)) = u_chan_uid (fst us)"
proof (induction k)
  case (Suc k)
  let ?us = "after_interrupts form w k us"
  obtain u s where us: "?us = (u, s)" by (cases ?us)
  have "q_locked (u_queues (fst (interrupt_on form w ?us)) q) = q_locked (u_queues (fst ?us) q)"
  proof (cases "in_order form (with_user w (u, su_firmware w s))")
    case False
    then show ?thesis by (simp add: us interrupt_on_def)
  next
    case True
    from interrupt_delivers [OF True] us show ?thesis by fastforce
  qed
  moreover have "u_chan_uid (fst (interrupt_on form w ?us)) = u_chan_uid (fst ?us)"
    using interrupt_harmless [of form ?us w] by (simp add: harmless_def env_keeps_def)
  ultimately show ?case using Suc.IH by (simp add: after_interrupts_def)
qed (simp add: after_interrupts_def)

text \<open>A caller blocks in \<open>AL5_USER_MAIL_STATUS\<close>; the first \<open>k\<close> interrupts bring it nothing, the next
  one does.\<close>

lemma status_wakes:
  fixes form w k u s
  defines "x \<equiv> status_wait form w u s k"
  assumes u: "al5_chan_is_created u" "\<not> u_locks u AL5_USER_STATUS" "q_locked (u_queues u AL5_USER_MAIL_STATUS)"
    and quiet: "\<And>i. i \<le> k \<Longrightarrow> q_list (u_queues (fst (status_wait form w u s i)) AL5_USER_MAIL_STATUS) = []"
    and order: "in_order form (with_user w (fst x, su_firmware w (snd x)))"
    and arrives: "routed (with_user w (fst x, su_firmware w (snd x))) (su_address w) AL5_USER_MAIL_STATUS
      (arriving w x) = m # rest"
    and st: "form AL5_USER_MAIL_STATUS = status_ok" and p: "params_ok msg" and n: "k < n"
  shows "\<exists>msg' u' s'. al5e_user_wait_for_status (interrupt_env form w n) msg u s = Some (0, msg', u', s') \<and>
    params_data msg' = drop 4 (body m) \<and> q_list (u_queues u' AL5_USER_MAIL_STATUS) = rest \<and>
    \<not> u_locks u' AL5_USER_STATUS"
proof -
  let ?q = AL5_USER_MAIL_STATUS and ?ready = "\<lambda>us. mail_is_available (u_queues (fst us) AL5_USER_MAIL_STATUS)"
  define v where "v = u\<lparr>u_locks := (u_locks u)(AL5_USER_STATUS := True)\<rparr>"
  have sw: "status_wait form w u s i = after_interrupts form w i (v, s)" for i
    by (simp add: status_wait_def v_def)
  have l: "q_locked (u_queues (fst (after_interrupts form w i (v, s))) ?q)" for i
    using u(3) by (simp add: after_interrupts_kept v_def)
  have before: "\<not> ?ready ((interrupt_on form w ^^ i) (v, s))" if "i < Suc k" for i
    using quiet [of i] l [of i] that by (simp add: mail_is_available_def after_interrupts_def sw)
  obtain y t where xy: "x = (y, t)" by (cases x)
  from interrupt_delivers [of form w y t] order xy obtain u1 s1 where
    i: "interrupt_on form w x = (u1, s1)" "q_list (u_queues u1 ?q) = q_list (u_queues y ?q) @
      routed (with_user w (y, su_firmware w t)) (su_address w) ?q (arriving w (y, t))"
    "\<forall>m \<in> set (arriving w (y, t)). fw_form form m" by auto
  have "m \<in> set (routed (with_user w (fst x, su_firmware w (snd x))) (su_address w) ?q (arriving w x))"
    unfolding arrives by simp
  then have sm: "status_ok m" using routed_form [where form = form] i(3) xy st by (fastforce simp: routed_def)
  have q1: "q_list (u_queues u1 ?q) = m # rest"
    using i(2) quiet [of k] arrives xy by (simp add: x_def)
  have at: "(interrupt_on form w ^^ Suc k) (v, s) = (u1, s1)"
    using i(1) by (simp add: x_def after_interrupts_def sw)
  have "await n ?ready (interrupt_on form w) (v, s) = (True, u1, s1)"
    using await_at [of "Suc k" ?ready "interrupt_on form w" "(v, s)" n] before n q1
    unfolding at by (simp add: mail_is_available_def)
  then have w: "e_wait (interrupt_env form w n) ?q (v, s) = (0, u1, s1)"
    by (simp add: interrupt_env_def wait_end_def)
  obtain uid bs where m: "m = mail_of uid bs" "4 \<le> length bs" "length bs \<le> 516"
    using sm by (auto simp: status_ok_def)
  have "length bs < 2 ^ 16" using m(3) by simp
  from wait_for_status_eq [where u = u and ms = "m # rest", OF p this w [unfolded v_def] q1, of uid] m u(1,2)
  show ?thesis by (auto simp: mail_of_sel)
qed

section \<open>The handshake of a creation\<close>

text \<open>A firmware with nothing to do and an empty mailbox: the interrupt changes nothing.\<close>

lemma interrupt_idle:
  assumes "su_firmware w s = s" "inbox s = []"
  shows "interrupt_on form w (u, s) = (u, s)"
proof (cases "in_order form (with_user w (u, s))")
  case False
  with assms(1) show ?thesis by (simp add: interrupt_on_def)
next
  case True
  then have "al5_mcu_is_empty s" using assms(2) by (simp add: in_order_def sys_ok_def al5_mcu_is_empty_iff)
  then have "al5_group_read_mails (with_user w (u, s)) = Some (with_user w (u, s))"
    by (simp add: al5_group_read_mails_def read_mails.simps)
  with assms(1) True show ?thesis by (simp add: interrupt_on_def)
qed

text \<open>The table of the surroundings leads to the user under its number.\<close>

definition seated :: "surroundings \<Rightarrow> int \<Rightarrow> bool" where
  "seated w uid \<longleftrightarrow> (\<forall>x. group_ok (su_rest w x) \<and> table_user (su_rest w x) uid = Some (su_address w))"

lemma with_user_table [simp]: "user_table (with_user w us) = user_table (su_rest w (snd us))"
  by (simp add: user_table_def)

lemma seated_with_user:
  assumes "seated w (u_uid u)"
  shows "group_ok (with_user w (u, x))" "table_user (with_user w (u, x)) (u_uid u) = Some (su_address w)"
proof -
  let ?st = "su_rest w x"
  from assms have g: "group_ok ?st" and t: "table_user ?st (u_uid u) = Some (su_address w)"
    by (simp_all add: seated_def)
  from t have i: "nat (u_uid u) < length (user_table ?st)" "user_table ?st ! nat (u_uid u) = Some (su_address w)"
    "0 \<le> u_uid u" by (auto simp: table_user_def split: if_splits)
  from group_okE(3) [OF g i(1,2)] obtain v where v: "sys_users ?st (su_address w) = Some v" "u_uid v = u_uid u"
    using i(3) by auto
  have "group_ok (?st\<lparr>sys_users := (sys_users ?st)(su_address w \<mapsto> u)\<rparr>)"
    using group_ok_update [OF g v(1)] v(2) by simp
  then show "group_ok (with_user w (u, x))" by (simp add: with_user_def Let_def)
  show "table_user (with_user w (u, x)) (u_uid u) = Some (su_address w)"
    using t by (simp add: table_user_def split: if_splits)
qed

text \<open>The answer to a creation reaches the user it names.\<close>

lemma answer_route:
  assumes "seated w (u_uid u)" "u_uid u < 2 ^ 31"
  shows "route (with_user w (u, x)) (mail_of (uid_code AL_MCU_MSG_CREATE_CHANNEL)
    (le32 c @ le32 (u32_of_int (u_uid u)) @ bs)) = Some (su_address w, AL5_USER_MAIL_CREATE)"
proof -
  let ?m = "mail_of (uid_code AL_MCU_MSG_CREATE_CHANNEL) (le32 c @ le32 (u32_of_int (u_uid u)) @ bs)"
  have nn: "0 \<le> u_uid u"
    using assms(1) by (auto simp: seated_def table_user_def split: if_splits)
  have "load32 (body ?m) 4 = Some (u32_of_int (u_uid u))"
    using load32_le32_at [of "le32 c" 4 "u32_of_int (u_uid u)" bs] by (simp add: mail_of_sel)
  then have "word_at ?m 1 = u_uid u"
    using nn assms(2) by (simp add: word_at_def sint_sbintrunc' signed_take_bit_int_eq_self)
  with seated_with_user(2) [OF assms(1)] show ?thesis
    by (simp add: route_def mail_simps mail_to_queue_def)
qed

text \<open>The wait for the answer, from a state in which the firmware's next message is that answer.\<close>

lemma answer_arrives:
  fixes c cores code
  defines "a \<equiv> \<lambda>u. mail_of (uid_code AL_MCU_MSG_CREATE_CHANNEL)
    (le32 c @ le32 (u32_of_int (u_uid u)) @ le32 cores @ le32 code)"
  assumes w: "seated w (u_uid u)" "u_uid u < 2 ^ 31" and q: "u_queues u AL5_USER_MAIL_CREATE = al5_queue_init"
    and fw: "sys_ok (su_firmware w s)" "inbox (su_firmware w s) = [wire_of (a u)]" and n: "0 < n"
  shows "\<exists>u' s'. e_wait (interrupt_env dec_form w n) AL5_USER_MAIL_CREATE (u, s) = (1, u', s') \<and> sys_ok s' \<and>
    inbox s' = [] \<and> q_list (u_queues u' AL5_USER_MAIL_CREATE) = [a u] \<and> u'\<lparr>u_queues := u_queues u\<rparr> = u"
proof -
  let ?q = AL5_USER_MAIL_CREATE
  have wire: "mail_of_wire (wire_of (a u)) = a u" unfolding a_def by (rule mail_of_wire_of) simp_all
  have "fw_form dec_form (a u)"
    by (simp add: fw_form_def fw_mail_ok_def a_def mail_simps mail_to_queue_def dec_answer_ok_def)
  then have o: "in_order dec_form (with_user w (u, su_firmware w s))"
    using seated_with_user(1) [OF w(1)] fw wire by (simp add: in_order_def)
  have ar: "arriving w (u, s) = [a u]" using fw(2) wire by (simp add: arriving_def)
  have "route (with_user w (u, su_firmware w s)) (a u) = Some (su_address w, ?q)"
    unfolding a_def using w by (rule answer_route)
  then have rt: "routed (with_user w (u, su_firmware w s)) (su_address w) ?q [a u] = [a u]"
    by (simp add: routed_def)
  from interrupt_delivers [OF o] obtain u' s' where
    i: "interrupt_on dec_form w (u, s) = (u', s')" "sys_ok s'" "inbox s' = []" "u'\<lparr>u_queues := u_queues u\<rparr> = u"
    "q_list (u_queues u' ?q) = q_list (u_queues u ?q) @ [a u]" by (auto simp: ar rt fw(2))
  have ql: "q_list (u_queues u' ?q) = [a u]" using i(5) q by (simp add: al5_queue_init_def)
  have nr: "\<not> mail_is_available (u_queues u ?q)" using q by (simp add: mail_is_available_def al5_queue_init_def)
  obtain j where "n = Suc j" using n by (cases n) auto
  with nr ql i(1) have "await n (\<lambda>us. mail_is_available (u_queues (fst us) ?q)) (interrupt_on dec_form w) (u, s) =
      (True, u', s')"
    by (cases j) (simp_all add: mail_is_available_def)
  with i(2-4) ql show ?thesis by (simp add: interrupt_env_def wait_end_def)
qed

text \<open>What the firmware owes a creation: once the message of user \<open>uid\<close> is behind those it had, it
  answers with channel \<open>c\<close>, for that user, in the same mailbox.\<close>

definition answers_creation ::
    "surroundings \<Rightarrow> hw \<Rightarrow> int \<Rightarrow> al5_params \<Rightarrow> u32 \<Rightarrow> u32 \<Rightarrow> u32 \<Rightarrow> bool" where
  "answers_creation w s uid p c cores code \<longleftrightarrow> (\<forall>x. sys_ok x \<and> inbox x = [] \<and>
     mcu_to_cpu (hw_mcu x) = mcu_to_cpu (hw_mcu s) \<and> outbox x = outbox s @ [wire_of (mail_of (uid_code AL_MCU_MSG_CREATE_CHANNEL)
       (le32 (u32_of_int uid) @ params_data p))] \<longrightarrow>
     sys_ok (su_firmware w x) \<and> inbox (su_firmware w x) = [wire_of (mail_of
       (uid_code AL_MCU_MSG_CREATE_CHANNEL) (le32 c @ le32 (u32_of_int uid) @ le32 cores @ le32 code))])"

lemma creation_answered:
  assumes u: "\<not> al5_chan_is_created u" "\<not> u_locks u AL5_USER_CREATE"
      "u_queues u AL5_USER_MAIL_CREATE = al5_queue_init"
    and w: "seated w (u_uid u)" "u_uid u < 2 ^ 31" and n: "0 < n"
    and p: "params_ok p" "params_fit p" "length (params_data p) + 12 \<le> outroom s"
    and s: "sys_ok s" "inbox s = []" "su_firmware w s = s"
    and fw: "answers_creation w s (u_uid u) p c cores code" and c: "c \<noteq> u32_of_int BAD_CHAN"
  shows "\<exists>u' s'. al5d_user_create_channel (interrupt_env dec_form w n) p status u s =
      Some (0, status\<lparr>dst_error_code := code, dst_num_core := ucast cores\<rparr>, u', s') \<and> sys_ok s' \<and>
    u'\<lparr>u_queues := u_queues u\<rparr> = u\<lparr>u_chan_uid := int_of_u32 c\<rparr> \<and>
    q_list (u_queues u' AL5_USER_MAIL_CREATE) = []"
proof -
  let ?e = "interrupt_env dec_form w n" and ?v = "u\<lparr>u_locks := (u_locks u)(AL5_USER_CREATE := True)\<rparr>"
  let ?mk = "al5d_create_channel_param_msg (u32_of_int (u_uid ?v)) p"
  let ?m = "mail_of (uid_code AL_MCU_MSG_CREATE_CHANNEL) (le32 (u32_of_int (u_uid ?v)) @ params_data p)"
  let ?a = "mail_of (uid_code AL_MCU_MSG_CREATE_CHANNEL)
    (le32 c @ le32 (u32_of_int (u_uid ?v)) @ le32 cores @ le32 code)"
  have l: "mutex_lock_killable ?e AL5_USER_CREATE u s = Some (0, ?v, s)"
    using u(2) interrupt_idle [OF s(3,2)]
    by (simp add: mutex_lock_killable_def interrupt_env_def Let_def take_lock_def)
  have nc: "\<not> al5_chan_is_created ?v" using u(1) by (simp add: al5_chan_is_created_def)
  have k: "km_ok (hw_k s)" "km_nofail (hw_k s)" using s(1) by (simp_all add: sys_ok_kmem)
  have d: "length (params_data p) \<le> 512" using params_fitD [OF p(1,2)] by (simp add: params_data_def)
  have room: "\<not> outroom s < unat (body_size ?m) + 8"
    using p(3) d by (simp add: mail_of_sel unat_word_ariths unat_of_nat)
  from make_and_send_cases [where mk = ?mk, OF s(1) al5d_create_channel_param_msg_eq [OF k p(1,2)] destroy_mail_wf]
    room obtain s1 where m: "make_and_send ?mk s = Some (0, s1)" "hw_frame s s1"
      "outbox s1 = outbox s @ [wire_of ?m]" by blast
  have s1: "sys_ok s1" "inbox s1 = []"
    using sys_ok_frame [OF m(2) s(1)] m(2) s(1,2) by (simp_all add: hw_frame_def sys_ok_def)
  have f: "sys_ok (su_firmware w s1)" "inbox (su_firmware w s1) = [wire_of ?a]"
    using fw s1 m(2,3) by (simp_all add: answers_creation_def hw_frame_def)
  from answer_arrives [where u = ?v and s = s1 and c = c and cores = cores and code = code and n = n and w = w]
    w u(3) f n obtain u2 s2 where
    e: "e_wait ?e AL5_USER_MAIL_CREATE (?v, s1) = (1, u2, s2)" "sys_ok s2"
      "q_list (u_queues u2 AL5_USER_MAIL_CREATE) = [?a]" "u2\<lparr>u_queues := u_queues ?v\<rparr> = ?v" by auto
  let ?u3 = "set_queue AL5_USER_MAIL_CREATE ((u_queues u2 AL5_USER_MAIL_CREATE)\<lparr>q_list := []\<rparr>) u2"
  let ?s3 = "s2\<lparr>hw_k := km_step 0 (- 1) (hw_k s2)\<rparr>"
  have pop: "user_pop_timeout ?e AL5_USER_MAIL_CREATE ?v s1 = (0, Some ?a, ?u3, ?s3)"
    using e(1,3) by (simp add: user_pop_timeout_def al5_queue_pop_timeout_mail)
  have st: "al5d_update_chan_param status ?a =
      Some (status\<lparr>dst_error_code := code, dst_num_core := ucast cores\<rparr>)"
    using load32_le32_at [of "le32 c @ le32 (u32_of_int (u_uid u))" 8 cores "le32 code"]
      load32_le32_at [of "le32 c @ le32 (u32_of_int (u_uid u)) @ le32 cores" 12 code "[]"]
    by (simp add: al5d_update_chan_param_def mail_of_sel)
  have "al5_mail_get_chan_uid ?a = Some c"
    by (simp add: al5_mail_get_chan_uid_def Let_def mail_simps al5_mail_get_word_def)
  then have i: "init_chan ?a ?u3 = Some (0, ?u3\<lparr>u_chan_uid := int_of_u32 c\<rparr>)"
    using int_of_u32_BAD_CHAN [OF c] by (simp add: init_chan_def al5_chan_is_created_def Let_def)
  let ?u4 = "mutex_unlock AL5_USER_CREATE (?u3\<lparr>u_chan_uid := int_of_u32 c\<rparr>)"
  have "al5d_user_create_channel ?e p status u s = Some (0,
      status\<lparr>dst_error_code := code, dst_num_core := ucast cores\<rparr>, ?u4, ?s3\<lparr>hw_k := al5_free_mail (Some ?a) (hw_k ?s3)\<rparr>)"
    using l nc m(1) pop st i by (simp add: al5d_user_create_channel_def)
  moreover have "sys_ok (?s3\<lparr>hw_k := al5_free_mail (Some ?a) (hw_k ?s3)\<rparr>)"
    using e(2) by (simp add: al5_free_mail_def kfree_step)
  moreover have "?u4\<lparr>u_queues := u_queues u\<rparr> = u\<lparr>u_chan_uid := int_of_u32 c\<rparr>"
    using e(4) u(2) by (cases u; cases u2) (auto simp: mutex_unlock_def set_queue_def fun_eq_iff)
  moreover have "q_list (u_queues ?u4 AL5_USER_MAIL_CREATE) = []"
    by (simp add: mutex_unlock_def set_queue_def)
  ultimately show ?thesis by blast
qed

text \<open>From then on the feedback of the channel goes to its user, when no other user has it.\<close>

lemma channel_route:
  assumes "seated w (u_uid u)"
    and "\<And>q v. q \<noteq> su_address w \<Longrightarrow> sys_users (su_rest w x) q = Some v \<Longrightarrow> u_chan_uid v \<noteq> u_chan_uid u"
  shows "chan_user (with_user w (u, x)) (u_chan_uid u) = Some (su_address w)"
proof -
  let ?st = "with_user w (u, x)" and ?T = "user_table (su_rest w x)"
  have h: "has_chan ?st (u_chan_uid u) e \<longleftrightarrow> e = Some (su_address w)" for e
    using assms(2) by (auto simp: has_chan_def with_user_def Let_def split: if_splits)
  from seated_with_user(2) [OF assms(1), of x] have "Some (su_address w) \<in> set ?T"
    by (auto simp: table_user_def in_set_conv_nth split: if_splits) (metis nat_int nat_less_iff)
  moreover have "find (\<lambda>e. e = Some (su_address w)) T = Some (Some (su_address w))"
    if "Some (su_address w) \<in> set T" for T
    using that by (induction T) auto
  moreover have "has_chan ?st (u_chan_uid u) = (\<lambda>e. e = Some (su_address w))" using h by (intro ext)
  ultimately show ?thesis by (simp add: chan_user_def)
qed

lemma status_route:
  assumes "seated w (u_uid u)" "u_chan_uid u = int_of_u32 c"
    and "\<And>q v. q \<noteq> su_address w \<Longrightarrow> sys_users (su_rest w x) q = Some v \<Longrightarrow> u_chan_uid v \<noteq> int_of_u32 c"
  shows "route (with_user w (u, x)) (mail_of (uid_code AL_MCU_MSG_DECODE_ONE_FRM) (le32 c @ bs)) =
    Some (su_address w, AL5_USER_MAIL_STATUS)"
proof -
  have "word_at (mail_of (uid_code AL_MCU_MSG_DECODE_ONE_FRM) (le32 c @ bs)) 0 = int_of_u32 c"
    by (simp add: word_at_def mail_of_sel)
  with channel_route [of w u x] assms show ?thesis
    by (simp add: route_def mail_simps mail_to_queue_def)
qed

section \<open>Properties\<close>



text \<open>A table with user 0 at 20, the first that opens the device of \<open>codec0\<close>.\<close>

definition around20 :: surroundings where
  "around20 = \<lparr>su_address = 20, su_rest = (\<lambda>_. \<lparr>sys_group = \<lparr>g_max_users_nb = 1, g_users = Some [Some 20]\<rparr>,
     sys_users = [20 \<mapsto> al5_user_init 0], sys_hw = hw0\<rparr>), su_firmware = (\<lambda>s. s), su_signal = False\<rparr>"



text \<open>The user of \<open>sys1\<close> at 10, with channel 3, over the memory of \<open>hw0\<close>; the firmware has the status of
  the channel when the interrupt comes.\<close>

definition around3 :: surroundings where
  "around3 = \<lparr>su_address = 10, su_rest = (\<lambda>_. sys1), su_firmware = firmware_puts status3, su_signal = False\<rparr>"


text \<open>C11: a decoder channel comes to life. The caller finds its user without a channel and the state
  below idle; the firmware answers the creation once it is in its mailbox. Then
  \<open>al5d_user_create_channel\<close> sends the message, blocks, is woken by the interrupt that delivers the
  answer to the user it names, and returns 0 with the firmware's numbers; of the user only the
  channel has changed, and if no other user has this channel its status messages lead to this user
  from now on.\<close>

theorem decoder_channel_handshake:
  assumes "\<not> al5_chan_is_created u" "\<not> u_locks u AL5_USER_CREATE"
      "u_queues u AL5_USER_MAIL_CREATE = al5_queue_init"
    and "seated w (u_uid u)" "u_uid u < 2 ^ 31" "0 < n"
    and "params_ok p" "params_fit p" "length (params_data p) + 12 \<le> outroom s"
    and "sys_ok s" "inbox s = []" "su_firmware w s = s"
    and "answers_creation w s (u_uid u) p c cores code" "c \<noteq> u32_of_int BAD_CHAN"
    and "\<forall>x q v. q \<noteq> su_address w \<and> sys_users (su_rest w x) q = Some v \<longrightarrow> u_chan_uid v \<noteq> int_of_u32 c"
  shows "\<exists>u' s'. al5d_user_create_channel (interrupt_env dec_form w n) p status u s =
      Some (0, status\<lparr>dst_error_code := code, dst_num_core := ucast cores\<rparr>, u', s') \<and> sys_ok s' \<and>
    u'\<lparr>u_queues := u_queues u\<rparr> = u\<lparr>u_chan_uid := int_of_u32 c\<rparr> \<and>
    (\<forall>x bs. route (with_user w (u', x)) (mail_of (uid_code AL_MCU_MSG_DECODE_ONE_FRM) (le32 c @ bs)) =
      Some (su_address w, AL5_USER_MAIL_STATUS))"
proof -
  from creation_answered [OF assms(1-14)] obtain u' s' where
    r: "al5d_user_create_channel (interrupt_env dec_form w n) p status u s =
      Some (0, status\<lparr>dst_error_code := code, dst_num_core := ucast cores\<rparr>, u', s')" "sys_ok s'"
      "u'\<lparr>u_queues := u_queues u\<rparr> = u\<lparr>u_chan_uid := int_of_u32 c\<rparr>" by blast
  from r(3) have "u_uid u' = u_uid u" "u_chan_uid u' = int_of_u32 c" by (cases u; cases u'; simp)+
  with status_route [of w u' c] assms(4,15) r show ?thesis by auto
qed

text \<open>A firmware that answers the first message it gets with channel 5, on two cores.\<close>

definition answer5 :: al5_mail where
  "answer5 = mail_of (uid_code AL_MCU_MSG_CREATE_CHANNEL) (le32 5 @ le32 (u32_of_int 0) @ le32 2 @ le32 0)"

definition around5 :: surroundings where
  "around5 = \<lparr>su_address = 10, su_rest = (\<lambda>_. sys1),
     su_firmware = (\<lambda>s. if outbox s = [] then s else firmware_puts answer5 s), su_signal = False\<rparr>"

theorem decoder_channel_handshake_witness:
  "\<exists>u' s'. al5d_user_create_channel (interrupt_env dec_form around5 1) params0 dstatus0 (al5_user_init 0) hw0 =
      Some (0, dstatus0\<lparr>dst_error_code := 0, dst_num_core := 2\<rparr>, u', s') \<and> u_chan_uid u' = 5"
proof -
  have u: "\<not> al5_chan_is_created (al5_user_init 0)" "\<not> u_locks (al5_user_init 0) AL5_USER_CREATE"
    "u_queues (al5_user_init 0) AL5_USER_MAIL_CREATE = al5_queue_init"
    by (simp_all add: al5_user_init_def al5_chan_is_created_def)
  have s: "seated around5 (u_uid (al5_user_init 0))" "u_uid (al5_user_init 0) < 2 ^ 31"
    using sys1_ok by (simp_all add: seated_def around5_def table_user_def al5_user_init_def)
  have p: "length (params_data params0) + 12 \<le> outroom hw0"
    by (simp add: hw0_ok(4) params_data_def params0_def)
  have idle: "su_firmware around5 hw0 = hw0" by (simp add: around5_def hw0_ok(2))
  have box: "unat (box_size (mcu_to_cpu (hw_mcu hw0))) = 64"
    by (simp add: hw0_def al5_mailbox_init_def Let_def)
  have a: "answers_creation around5 hw0 (u_uid (al5_user_init 0)) params0 5 2 0"
    unfolding answers_creation_def
  proof (intro allI impI)
    fix x
    assume x: "sys_ok x \<and> inbox x = [] \<and> mcu_to_cpu (hw_mcu x) = mcu_to_cpu (hw_mcu hw0) \<and>
      outbox x = outbox hw0 @ [wire_of (mail_of (uid_code AL_MCU_MSG_CREATE_CHANNEL)
        (le32 (u32_of_int (u_uid (al5_user_init 0))) @ params_data params0))]"
    then have "mailbox_ok (mcu_to_cpu (hw_mcu x)) (hw_mem x)" unfolding sys_ok_def hw_ok_def by blast
    moreover from x have "mailbox_mails (mcu_to_cpu (hw_mcu x)) (hw_mem x) = []" unfolding inbox_def by blast
    ultimately have "box_used (mcu_to_cpu (hw_mcu x)) (hw_mem x) = 0" by (simp only: mailbox_mails_Nil_used)
    then have room: "box_used (mcu_to_cpu (hw_mcu x)) (hw_mem x) + unat (body_size answer5) + 8
        \<le> unat (box_size (mcu_to_cpu (hw_mcu x)))"
      using x box by (simp add: answer5_def mail_of_sel)
    have "mail_wf answer5" by (simp add: answer5_def)
    from firmware_puts_ok [OF _ this room] x
    show "sys_ok (su_firmware around5 x) \<and> inbox (su_firmware around5 x) = [wire_of (mail_of
      (uid_code AL_MCU_MSG_CREATE_CHANNEL) (le32 5 @ le32 (u32_of_int (u_uid (al5_user_init 0))) @ le32 2 @ le32 0))]"
      by (simp add: around5_def answer5_def al5_user_init_def)
  qed
  have c: "(5 :: u32) \<noteq> u32_of_int BAD_CHAN" by (simp add: BAD_CHAN_def)
  have alone: "\<forall>x q v. q \<noteq> su_address around5 \<and> sys_users (su_rest around5 x) q = Some v \<longrightarrow>
      u_chan_uid v \<noteq> int_of_u32 (5 :: u32)"
    by (simp add: around5_def sys1_def)
  from decoder_channel_handshake [OF u s _ params0_ok p hw0_ok(1,3) idle a c alone, where n = 1 and status = dstatus0]
  obtain u' s' where "al5d_user_create_channel (interrupt_env dec_form around5 1) params0 dstatus0 (al5_user_init 0) hw0 =
      Some (0, dstatus0\<lparr>dst_error_code := 0, dst_num_core := ucast (2 :: u32)\<rparr>, u', s')"
    "u'\<lparr>u_queues := u_queues (al5_user_init 0)\<rparr> = (al5_user_init 0)\<lparr>u_chan_uid := int_of_u32 5\<rparr>" by auto
  then show ?thesis by (cases u') (auto simp: al5_user_init_def)
qed

end
