(* ===== verification/Wiring.thy ===== *)
theory Wiring
  imports Interrupt_Env
begin

text \<open>
  The tables through which the kernel calls the two drivers (\<open>al5e/al_enc.c\<close>, \<open>al5d/al_dec.c\<close>): the
  operations of a device file, and the platform driver with the devices it matches. The calls of
  processes and the interrupts of a device are events that go through these tables; any sequence
  of them runs to its end.
\<close>

section \<open>Operations of a device file\<close>

text \<open>A field of the table may be NULL. An argument \<open>'m\<close> is what a command finds in the caller's
  memory, with the threads it runs among.\<close>

record ('m, 'w) file_operations =
  fop_owner :: string
  fop_open :: "addr \<Rightarrow> system \<Rightarrow> (int \<times> system) option"
  fop_release :: "(nat \<Rightarrow> env) \<Rightarrow> addr \<Rightarrow> system \<Rightarrow> (int \<times> system) option"
  fop_unlocked_ioctl :: "('m, 'w) dispatcher option"
  fop_compat_ioctl :: "('m, 'w) dispatcher option"

text \<open>The 32-bit entry calls the file's own dispatcher, if there is one. \<open>enc_call\<close> and \<open>dec_call\<close> are
  \<open>al5e_ioctl\<close> and \<open>al5d_ioctl\<close> with the two parts of the argument apart.\<close>

definition al5_codec_compat_ioctl :: "('m, 'w) dispatcher option \<Rightarrow> ('m, 'w) dispatcher" where
  "al5_codec_compat_ioctl unlocked_ioctl cmd m u s =
     (case unlocked_ioctl of None \<Rightarrow> Some (- ENOIOCTLCMD, None, u, s) | Some f \<Rightarrow> f cmd m u s)"

definition al5e_fops :: "(env \<times> enc_user_mem, enc_written) file_operations" where
  "al5e_fops =
     \<lparr>fop_owner = ''al5e'', fop_open = al5_codec_open, fop_release = al5_codec_release,
      fop_unlocked_ioctl = Some enc_call,
      fop_compat_ioctl = Some (al5_codec_compat_ioctl (Some enc_call))\<rparr>"

definition al5d_fops :: "(env \<times> dec_user_mem, dec_written) file_operations" where
  "al5d_fops =
     \<lparr>fop_owner = ''al5d'', fop_open = al5_codec_open, fop_release = al5_codec_release,
      fop_unlocked_ioctl = Some dec_call,
      fop_compat_ioctl = Some (al5_codec_compat_ioctl (Some dec_call))\<rparr>"

section \<open>The platform drivers\<close>

record platform_driver =
  pd_probe :: "env \<Rightarrow> board \<Rightarrow> addr \<Rightarrow> module_state \<Rightarrow> codec \<Rightarrow> (int \<times> module_state \<times> codec) option"
  pd_remove :: "module_state \<Rightarrow> codec \<Rightarrow> int \<times> codec"
  pd_name :: string
  pd_of_match_table :: "string list"

definition al5e_of_match :: "string list" where
  "al5e_of_match = [''al,al5e'']"

definition al5d_codec_of_match :: "string list" where
  "al5d_codec_of_match = [''al,al5d'']"

definition al5e_platform_driver :: platform_driver where
  "al5e_platform_driver = \<lparr>pd_probe = al5e_probe, pd_remove = al5e_remove, pd_name = ''al5e'',
     pd_of_match_table = al5e_of_match\<rparr>"

definition al5d_platform_driver :: platform_driver where
  "al5d_platform_driver = \<lparr>pd_probe = al5d_codec_probe, pd_remove = al5d_codec_remove, pd_name = ''al5d'',
     pd_of_match_table = al5d_codec_of_match\<rparr>"

text \<open>The name a module registers its driver under is the name in the table.\<close>

lemma registered_names:
  "dn_driver al5e_names = pd_name al5e_platform_driver" "dn_driver al5d_names = pd_name al5d_platform_driver"
  by (simp_all add: al5e_names_def al5d_names_def al5e_platform_driver_def al5d_platform_driver_def)

section \<open>Events of a device\<close>

text \<open>A process opens the device (the kernel takes a new address for its user), sends a command as a
  64-bit or a 32-bit process, closes the file; an interrupt comes when the firmware has worked.\<close>

datatype 'm device_event =
    Ev_open addr
  | Ev_ioctl addr u32 'm
  | Ev_compat_ioctl addr u32 'm
  | Ev_release addr "nat \<Rightarrow> env"
  | Ev_interrupt "hw \<Rightarrow> hw"

text \<open>A command through one of the two entries; without an entry the kernel answers \<open>-ENOTTY\<close>.\<close>

definition call_entry ::
    "('m, 'w) dispatcher option \<Rightarrow> addr \<Rightarrow> u32 \<Rightarrow> 'm \<Rightarrow> system \<Rightarrow> (int \<times> system) option" where
  "call_entry f p cmd m st =
     (case f of
        None \<Rightarrow> Some (- 25, st)
      | Some f \<Rightarrow> do {
          u \<leftarrow> sys_users st p;
          (ret, _, u, s) \<leftarrow> f cmd m u (sys_hw st);
          Some (ret, st\<lparr>sys_users := (sys_users st)(p \<mapsto> u), sys_hw := s\<rparr>)
        })"

fun happens :: "('m, 'w) file_operations \<Rightarrow> 'm device_event \<Rightarrow> system \<Rightarrow> (int \<times> system) option" where
  "happens fops (Ev_open p) st = fop_open fops p st"
| "happens fops (Ev_ioctl p cmd m) st = call_entry (fop_unlocked_ioctl fops) p cmd m st"
| "happens fops (Ev_compat_ioctl p cmd m) st = call_entry (fop_compat_ioctl fops) p cmd m st"
| "happens fops (Ev_release p e) st = fop_release fops e p st"
| "happens fops (Ev_interrupt fw) st = do {
     st \<leftarrow> al5_group_read_mails (st\<lparr>sys_hw := fw (sys_hw st)\<rparr>);
     Some (0, st)
   }"

fun run_events :: "('m, 'w) file_operations \<Rightarrow> 'm device_event list \<Rightarrow> system \<Rightarrow> (int list \<times> system) option" where
  "run_events fops [] st = Some ([], st)"
| "run_events fops (ev # evs) st = do {
     (r, st) \<leftarrow> happens fops ev st;
     (rs, st) \<leftarrow> run_events fops evs st;
     Some (r # rs, st)
   }"

text \<open>What the kernel, the callers and the firmware owe an event in a state: an open file for a call,
  an address not in use for a new one, arguments within their contract, messages of their form.\<close>

fun event_ok :: "('m \<Rightarrow> bool) \<Rightarrow> (al5_mail \<Rightarrow> bool) \<Rightarrow> system \<Rightarrow> 'm device_event \<Rightarrow> bool" where
  "event_ok call_ok msg_ok st (Ev_open p) \<longleftrightarrow> sys_users st p = None"
| "event_ok call_ok msg_ok st (Ev_ioctl p cmd m) \<longleftrightarrow> sys_users st p \<noteq> None \<and> call_ok m"
| "event_ok call_ok msg_ok st (Ev_compat_ioctl p cmd m) \<longleftrightarrow> sys_users st p \<noteq> None \<and> call_ok m"
| "event_ok call_ok msg_ok st (Ev_release p e) \<longleftrightarrow> sys_users st p \<noteq> None \<and> (\<forall>i. env_ok (e i))"
| "event_ok call_ok msg_ok st (Ev_interrupt fw) \<longleftrightarrow> sys_ok (fw (sys_hw st)) \<and>
     (\<forall>w \<in> set (inbox (fw (sys_hw st))). msg_ok (mail_of_wire w))"

text \<open>Each event of a list is owed its part in the state the events before it lead to.\<close>

fun events_ok ::
    "('m, 'w) file_operations \<Rightarrow> ('m \<Rightarrow> bool) \<Rightarrow> (al5_mail \<Rightarrow> bool) \<Rightarrow> 'm device_event list \<Rightarrow> system \<Rightarrow> bool" where
  "events_ok fops call_ok msg_ok [] st \<longleftrightarrow> True"
| "events_ok fops call_ok msg_ok (ev # evs) st \<longleftrightarrow> event_ok call_ok msg_ok st ev \<and>
     (case happens fops ev st of None \<Rightarrow> True | Some (_, st') \<Rightarrow> events_ok fops call_ok msg_ok evs st')"

section \<open>Runs\<close>

definition wired :: "('m, 'w) dispatcher \<Rightarrow> ('m, 'w) file_operations \<Rightarrow> bool" where
  "wired ioctl fops \<longleftrightarrow> fop_open fops = al5_codec_open \<and> fop_release fops = al5_codec_release \<and>
     fop_unlocked_ioctl fops = Some ioctl \<and> fop_compat_ioctl fops = Some (al5_codec_compat_ioctl (Some ioctl))"

lemma wired_fops: "wired enc_call al5e_fops" "wired dec_call al5d_fops"
  by (simp_all add: wired_def al5e_fops_def al5d_fops_def)

text \<open>A 32-bit process gets what a 64-bit one gets.\<close>

lemma compat_same: "al5_codec_compat_ioctl (Some f) = f"
  by (simp add: fun_eq_iff al5_codec_compat_ioctl_def)

context command_device begin

lemma event_returns:
  assumes w: "wired ioctl fops" and r: "device_reachable ioctl call_ok msg_ok st"
    and e: "event_ok call_ok msg_ok st ev"
  shows "\<exists>ret st'. happens fops ev st = Some (ret, st') \<and> device_reachable ioctl call_ok msg_ok st'"
proof -
  have call: "\<exists>ret st'. call_entry (Some ioctl) p cmd m st = Some (ret, st') \<and>
      device_reachable ioctl call_ok msg_ok st'" if p: "sys_users st p \<noteq> None" "call_ok m" for p cmd m
  proof -
    from p(1) obtain u where u: "sys_users st p = Some u" by blast
    with p(2) never_stuck [OF r, of p] obtain err w u' s' where
      "ioctl cmd m u (sys_hw st) = Some (err, w, u', s')"
      "device_reachable ioctl call_ok msg_ok (st\<lparr>sys_users := (sys_users st)(p \<mapsto> u'), sys_hw := s'\<rparr>)"
      by metis
    with u show ?thesis by (simp add: call_entry_def)
  qed
  show ?thesis
  proof (cases ev)
    case (Ev_open p)
    then have "sys_users st p = None" using e by simp
    with never_stuck [OF r, of p] w Ev_open show ?thesis by (auto simp: wired_def)
  next
    case (Ev_ioctl p cmd m)
    with call e w show ?thesis by (simp add: wired_def)
  next
    case (Ev_compat_ioctl p cmd m)
    with call e w show ?thesis by (simp add: wired_def compat_same)
  next
    case (Ev_release p f)
    then have "sys_users st p \<noteq> None \<and> (\<forall>i. env_ok (f i))" using e by simp
    with never_stuck [OF r, of p] w Ev_release show ?thesis by (simp add: wired_def) blast
  next
    case (Ev_interrupt fw)
    let ?st = "st\<lparr>sys_hw := fw (sys_hw st)\<rparr>"
    from Ev_interrupt e have s: "sys_ok (fw (sys_hw st))" and
      i: "\<forall>x \<in> set (inbox (sys_hw ?st)). msg_ok (mail_of_wire x)" by simp_all
    have "device_reachable ioctl call_ok msg_ok ?st"
      using device_reachable.step [OF r device_step.firmware [OF s]] .
    from never_stuck [OF this] i obtain st' where "al5_group_read_mails ?st = Some st'"
      "device_reachable ioctl call_ok msg_ok st'" by blast
    with Ev_interrupt show ?thesis by simp
  qed
qed

lemma events_return:
  assumes w: "wired ioctl fops"
  shows "device_reachable ioctl call_ok msg_ok st \<Longrightarrow> events_ok fops call_ok msg_ok evs st \<Longrightarrow>
    \<exists>rs st'. run_events fops evs st = Some (rs, st') \<and> length rs = length evs \<and>
      device_reachable ioctl call_ok msg_ok st'"
proof (induction evs arbitrary: st)
  case (Cons ev evs)
  from Cons.prems(2) have "event_ok call_ok msg_ok st ev" by simp
  from event_returns [OF w Cons.prems(1) this] obtain r st1 where
    1: "happens fops ev st = Some (r, st1)" "device_reachable ioctl call_ok msg_ok st1" by blast
  with Cons.prems(2) have "events_ok fops call_ok msg_ok evs st1" by simp
  from Cons.IH [OF 1(2) this] obtain rs st' where
    "run_events fops evs st1 = Some (rs, st')" "length rs = length evs"
    "device_reachable ioctl call_ok msg_ok st'" by blast
  with 1(1) show ?case by simp
qed simp

lemma all_closed:
  assumes "device_reachable ioctl call_ok msg_ok st" "sys_users st = Map.empty"
  shows "set (user_table st) \<subseteq> {None}"
proof
  fix e
  assume e: "e \<in> set (user_table st)"
  have "group_ok st" using device_invariant [OF assms(1)] by (simp add: device_ok_def)
  from group_ok_entry [OF this] e assms(2) show "e \<in> {None}" by (cases e) auto
qed

end

text \<open>One process opens a device that nobody uses, sends a command through each entry and closes.\<close>

definition session :: "addr \<Rightarrow> u32 \<Rightarrow> 'm \<Rightarrow> 'm device_event list" where
  "session p cmd m = [Ev_open p, Ev_ioctl p cmd m, Ev_compat_ioctl p cmd m, Ev_release p (\<lambda>_. killed_env)]"

definition only_user :: "addr \<Rightarrow> system \<Rightarrow> bool" where
  "only_user p st \<longleftrightarrow> (\<exists>u. sys_users st = [p \<mapsto> u])"

lemma only_user_open: "only_user p st \<Longrightarrow> \<exists>u. sys_users st p = Some u"
  by (auto simp: only_user_def)

lemma call_entry_only: "call_entry f p cmd m st = Some (r, st') \<Longrightarrow> only_user p st \<Longrightarrow> only_user p st'"
  by (auto simp: call_entry_def only_user_def bind_eq_Some_conv split: option.splits)

context command_device begin

lemma session_closes:
  assumes w: "wired ioctl fops" and r: "device_reachable ioctl call_ok msg_ok st"
    and e: "sys_users st = Map.empty" "al5_codec_open p st = Some (0, st1)" "only_user p st1"
    and m: "call_ok m"
  shows "events_ok fops call_ok msg_ok (session p cmd m) st \<and>
    (run_events fops (session p cmd m) st = Some (rs, st') \<longrightarrow> sys_users st' = Map.empty)"
proof -
  let ?I = "call_entry (Some ioctl) p cmd m"
  have k: "\<forall>i :: nat. env_ok killed_env" using killed_env_ok by simp
  have f: "fop_open fops = al5_codec_open" "fop_release fops = al5_codec_release"
    "fop_unlocked_ioctl fops = Some ioctl" "fop_compat_ioctl fops = Some ioctl"
    using w by (simp_all add: wired_def compat_same)
  note next_user = call_entry_only [of "Some ioctl" p cmd m]
  have calls: "\<exists>u. sys_users st1 p = Some u"
    "?I st1 = Some (a, t1) \<Longrightarrow> \<exists>u. sys_users t1 p = Some u"
    "?I st1 = Some (a, t1) \<Longrightarrow> ?I t1 = Some (b, t2) \<Longrightarrow> \<exists>u. sys_users t2 p = Some u" for a b t1 t2
    using only_user_open next_user e(3) by blast+
  have ev: "events_ok fops call_ok msg_ok (session p cmd m) st"
    using e m k calls by (auto simp: session_def f split: option.splits)
  moreover have "sys_users st' = Map.empty" if run: "run_events fops (session p cmd m) st = Some (rs, st')"
  proof -
    from run e(2) obtain a b t1 t2 c where t: "?I st1 = Some (a, t1)" "?I t1 = Some (b, t2)"
      "al5_codec_release (\<lambda>_. killed_env) p t2 = Some (c, st')"
      by (auto simp: session_def f bind_eq_Some_conv)
    have d: "only_user p t2" using next_user t(1,2) e(3) by blast
    have "events_ok fops call_ok msg_ok (take 3 (session p cmd m)) st"
      using e m calls by (auto simp: session_def f split: option.splits)
    from events_return [OF w r this] e(2) t(1,2) have "device_reachable ioctl call_ok msg_ok t2"
      by (simp add: session_def f)
    from never_stuck [OF this, of p] only_user_open [OF d] k t(3) have "sys_users st' = (sys_users t2)(p := None)"
      by fastforce
    with d show ?thesis by (auto simp: fun_eq_iff only_user_def)
  qed
  ultimately show ?thesis by blast
qed

end

section \<open>Properties\<close>


text \<open>The user of an opened device is the only one if there was none.\<close>

lemma only_user_opened:
  assumes "group_ok st" "sys_ok (sys_hw st)" "Some p \<notin> set (user_table st)"
    "al5_codec_open p st = Some (0, st')" "sys_users st = Map.empty"
  shows "only_user p st'"
  using al5_codec_open_ok [OF assms(1-3)] assms(4,5) by (auto simp: only_user_def split: if_splits)


end
