(* ===== verification/Handshake.thy ===== *)
theory Handshake
  imports Interrupt_Env
begin

text \<open>
  An encoder channel from its creation to its first status. Three messages go out and one comes in:
  the creation, the firmware's answer with the buffers it needs, and the addresses of the two pools.
\<close>

section \<open>One message in the mailbox\<close>

lemma al5_mcu_recv_hw_d: "al5_mcu_recv s = Some (m, s') \<Longrightarrow> hw_d s' = hw_d s"
  by (auto simp: al5_mcu_recv_def bind_eq_Some_conv)

text \<open>A run of the interrupt thread that finds one message, for a user.\<close>

lemma one_message_delivered:
  assumes g: "group_ok st" and s: "sys_ok (sys_hw st)" "inbox (sys_hw st) = [w]"
    and m: "fw_mail_ok (mail_of_wire w)" "route st (mail_of_wire w) = Some (p, q)" "sys_users st p = Some u"
  shows "\<exists>t. al5_group_read_mails st = Some (st\<lparr>sys_users := (sys_users st)
      (p \<mapsto> set_queue q ((u_queues u q)\<lparr>q_list := q_list (u_queues u q) @ [mail_of_wire w]\<rparr>) u),
      sys_hw := t\<rparr>) \<and> sys_ok t \<and> inbox t = [] \<and> outbox t = outbox (sys_hw st) \<and>
    outroom t = outroom (sys_hw st) \<and> hw_d t = hw_d (sys_hw st)"
proof -
  have h: "hw_ok (sys_hw st)" "km_nofail (hw_k (sys_hw st))" using s(1) by (simp_all add: sys_ok_def)
  obtain s1 where r: "al5_mcu_recv (sys_hw st) = Some (mail_of_wire w, s1)" "hw_ok s1" "inbox s1 = []"
    "outbox s1 = outbox (sys_hw st)" "outroom s1 = outroom (sys_hw st)"
    "hw_k s1 = km_step 3 1 (hw_k (sys_hw st))"
    using al5_mcu_recv_first [OF h s(2)] by metis
  have s1: "sys_ok s1" using r(2,6) h(2) by (simp add: sys_ok_def)
  have rt: "route (st\<lparr>sys_hw := s1\<rparr>) = route st"
    by (rule same_routes_route) (simp add: same_routes_def)
  let ?st = "st\<lparr>sys_users := (sys_users st)
      (p \<mapsto> set_queue q ((u_queues u q)\<lparr>q_list := q_list (u_queues u q) @ [mail_of_wire w]\<rparr>) u),
      sys_hw := s1\<lparr>hw_k := km_step 1 1 (hw_k s1)\<rparr>\<rparr>"
  have "handle_mail (mail_of_wire w) (st\<lparr>sys_hw := s1\<rparr>) = Some ?st"
    using handle_mail_delivered [of "st\<lparr>sys_hw := s1\<rparr>" "mail_of_wire w" p q u] g s1 m rt by simp
  then have rm: "read_mail st = Some ?st" using r(1) by (simp add: read_mail_def)
  have e: "\<not> al5_mcu_is_empty (sys_hw st)" "al5_mcu_is_empty (sys_hw ?st)"
    using s h(1) r(2,3) al5_mcu_is_empty_iff [of "sys_hw st"] al5_mcu_is_empty_iff [of s1]
    by (simp_all add: al5_mcu_is_empty_def)
  have "al5_group_read_mails st = read_mails (Suc 99) st"
    by (simp add: al5_group_read_mails_def MAX_MAILBOX_MSG_def eval_nat_numeral)
  also have "\<dots> = Some ?st" using e rm by (simp add: read_mails.simps)
  finally show ?thesis using r(3-5) s1 al5_mcu_recv_hw_d [OF r(1)] by auto
qed

section \<open>The answer of the firmware\<close>

definition answer_mail :: "al5e_feedback_channel \<Rightarrow> al5_mail" where
  "answer_mail fb = mail_of (uid_code AL_MCU_MSG_CREATE_CHANNEL) (bytes_of_feedback fb)"

lemma answer_mail_split:
  "\<exists>bs. answer_mail fb = mail_of (uid_code AL_MCU_MSG_CREATE_CHANNEL)
     (le32 (fb_chan_uid fb) @ le32 (fb_user_uid fb) @ bs) \<and> length bs = 36"
  by (simp add: answer_mail_def bytes_of_feedback_def) (rule exI, rule conjI, rule refl, simp)

lemma answer_mail_feedback: "feedback_of_bytes (body (answer_mail fb)) = Some fb"
  using feedback_roundtrip [of fb "[]"] by (simp add: answer_mail_def mail_of_sel)

lemma answer_mail_form: "buffers_small (fb_buffers_needed fb) \<Longrightarrow> fw_form enc_form (answer_mail fb)"
  by (simp add: fw_form_def fw_mail_ok_def mail_to_queue_def answer_mail_feedback feedback_ok_def)
     (simp add: answer_mail_def mail_simps bytes_of_feedback_def)

lemma answer_mail_wire: "mail_of_wire (wire_of (answer_mail fb)) = answer_mail fb"
  unfolding answer_mail_def by (rule mail_of_wire_of) (simp_all add: bytes_of_feedback_def)

text \<open>The caller waits; the firmware's next message is the answer.\<close>

lemma grant_arrives:
  assumes w: "seated w (u_uid u)" "u_uid u < 2 ^ 31" and q: "u_queues u AL5_USER_MAIL_CREATE = al5_queue_init"
    and fb: "fb_user_uid fb = u32_of_int (u_uid u)" "buffers_small (fb_buffers_needed fb)"
    and fw: "sys_ok (su_firmware w s)" "inbox (su_firmware w s) = [wire_of (answer_mail fb)]" and n: "0 < n"
  shows "\<exists>t. e_wait (interrupt_env enc_form w n) AL5_USER_MAIL_CREATE (u, s) = (1,
      set_queue AL5_USER_MAIL_CREATE (al5_queue_init\<lparr>q_list := [answer_mail fb]\<rparr>) u, t) \<and>
    sys_ok t \<and> inbox t = [] \<and> outbox t = outbox (su_firmware w s) \<and>
    outroom t = outroom (su_firmware w s) \<and> hw_d t = hw_d (su_firmware w s)"
proof -
  let ?q = AL5_USER_MAIL_CREATE and ?st = "with_user w (u, su_firmware w s)" and ?m = "answer_mail fb"
  let ?v = "set_queue AL5_USER_MAIL_CREATE (al5_queue_init\<lparr>q_list := [answer_mail fb]\<rparr>) u"
  note form = answer_mail_form [OF fb(2)]
  have g: "group_ok ?st" by (rule seated_with_user(1) [OF w(1)])
  have o: "in_order enc_form ?st" using g fw form by (simp add: in_order_def answer_mail_wire)
  have "route ?st ?m = Some (su_address w, ?q)"
    using answer_mail_split [of fb] answer_route [OF w] fb(1) by auto
  with one_message_delivered [of ?st "wire_of ?m" "su_address w" ?q u] g fw form obtain t where
    r: "al5_group_read_mails ?st = Some (?st\<lparr>sys_users := (sys_users ?st)(su_address w \<mapsto> ?v), sys_hw := t\<rparr>)"
    and t: "sys_ok t" "inbox t = []" "outbox t = outbox (su_firmware w s)"
      "outroom t = outroom (su_firmware w s)" "hw_d t = hw_d (su_firmware w s)"
    by (auto simp: answer_mail_wire fw_form_def q al5_queue_init_def)
  have i: "interrupt_on enc_form w (u, s) = (?v, t)" using o r by (simp add: interrupt_on_def Let_def)
  have nr: "\<not> mail_is_available (u_queues u ?q)" "mail_is_available (u_queues ?v ?q)"
    using q by (simp_all add: mail_is_available_def al5_queue_init_def set_queue_def)
  obtain j where "n = Suc j" using n by (cases n) auto
  with nr i have "await n (\<lambda>us. mail_is_available (u_queues (fst us) ?q)) (interrupt_on enc_form w) (u, s) =
      (True, ?v, t)" by (cases j) simp_all
  with t show ?thesis by (simp add: interrupt_env_def wait_end_def)
qed

section \<open>Room for the pools\<close>

lemma make_and_send_room:
  assumes s: "sys_ok s" and mk: "mk (hw_k s) = Some (Some m, km_step 1 1 (hw_k s))" and wf: "mail_wf m"
    and room: "unat (body_size m) + 8 \<le> outroom s"
  shows "\<exists>s'. make_and_send mk s = Some (0, s') \<and> hw_frame s s' \<and> outbox s' = outbox s @ [wire_of m] \<and>
    hw_d s' = hw_d s \<and> outroom s' + 4 + roundup4 (unat (body_size m)) = outroom s"
proof -
  let ?s = "s\<lparr>hw_k := km_step 1 1 (hw_k s)\<rparr>"
  have ok: "hw_ok ?s" "unat (body_size m) + 8 \<le> outroom ?s" using s room by (simp_all add: sys_ok_def)
  obtain t where t: "al5_mcu_send m ?s = Some (0, t)" "hw_frame ?s t" "outbox t = outbox ?s @ [wire_of m]"
    "hw_k t = hw_k ?s" "outroom t + 4 + roundup4 (unat (body_size m)) = outroom ?s"
    using al5_mcu_send_fits [OF ok(1) wf ok(2)] by metis
  let ?t = "al5_signal_mcu t"
  let ?s' = "?t\<lparr>hw_k := km_step 0 (- 1) (hw_k ?t)\<rparr>"
  have "hw_frame t ?t" "outbox ?t = outbox t" "outroom ?t = outroom t"
    using al5_signal_mcu_frame [of t] hw_frame_ok [OF t(2) ok(1)] by auto
  then have "hw_frame s ?s'" "outbox ?s' = outbox s @ [wire_of m]"
    "outroom ?s' + 4 + roundup4 (unat (body_size m)) = outroom s"
    using t hw_frame_trans [OF hw_frame_km_step [of s 1 1] t(2)] hw_frame_trans hw_frame_km_step [of ?t 0 "- 1"]
    by (auto intro: hw_frame_trans)
  moreover have "make_and_send mk s = Some (0, ?s')"
    using mk t(1) by (simp add: make_and_send_def al5_check_and_send_def send_msg_def al5_free_mail_def kfree_step)
  moreover have "hw_d ?s' = hw_d s" using al5_mcu_send_hw_d [OF t(1)] by simp
  ultimately show ?thesis by blast
qed

text \<open>The two messages of the pools, with their bytes in the mailbox.\<close>

definition pools_room :: "al5_channel_buffers \<Rightarrow> nat" where
  "pools_room b = 12 * unat (int_buffers_count b) + 12 * unat (rec_buffers_count b) + 20"

text \<open>The size of a message has 16 bits: of the addresses of more than 5460 buffers only the size
  modulo \<open>2^16\<close> goes into the header, and the mailbox takes no more bytes than that.\<close>

lemma pool_mail_size_cut:
  assumes "pool_ok p" "bp_count p = int n"
  shows "unat (body_size (mail_of uid (le32 c @ concat (map buffer_words (pool_buffers p))))) =
    (12 * n + 4) mod 2 ^ 16"
proof -
  have "length (pool_buffers p) = n"
    using assms by (cases rule: pool_ok_cases) (auto simp: pool_buffers_def al5_bufpool_init_def)
  moreover have "unat (of_nat (4 + 12 * n) :: u16) = (4 + 12 * n) mod 2 ^ 16" by (subst unat_of_nat) simp
  ultimately show ?thesis by (simp add: mail_of_sel length_concat_words add.commute)
qed

definition pools_fit :: "al5_channel_buffers \<Rightarrow> bool" where
  "pools_fit b \<longleftrightarrow> unat (int_buffers_count b) \<le> 5460 \<and> unat (rec_buffers_count b) \<le> 5460"

lemma pools_fit_small: "pools_fit b \<Longrightarrow> buffers_small b"
  by (simp add: pools_fit_def buffers_small_def)

lemma send_pool_room:
  assumes s: "sys_ok s" and p: "pool_ok p" "bp_count p = int n" "n \<le> 5460" and room: "12 * n + 12 \<le> outroom s"
  shows "\<exists>s'. make_and_send (create_mail_from_bufpool uid c p) s = Some (0, s') \<and> sys_ok s' \<and>
    outbox s' = outbox s @ [wire_of (mail_of uid (le32 c @ concat (map buffer_words (pool_buffers p))))] \<and>
    outroom s' + 12 * n + 8 = outroom s"
proof -
  have sz: "unat (body_size (mail_of uid (le32 c @ concat (map buffer_words (pool_buffers p))))) = 12 * n + 4"
    using pool_mail_size_cut [OF p(1,2), of uid c] p(3) by simp
  have small: "pool_small p" using p by (simp add: pool_small_def)
  have "roundup4 (12 * n + 4) = 12 * n + 4" unfolding roundup4_def by presburger
  with make_and_send_room [where mk = "create_mail_from_bufpool uid c p", OF s
      mail_msg_ok [OF s p(1) small, of uid c]] sz room
  show ?thesis using sys_ok_frame s by fastforce
qed

lemma send_pools_sends:
  assumes s: "sys_ok s" "pools_ok u" and b: "pools_fit b" "bp_count (u_int_buffers u) = int (unat (int_buffers_count b))"
      "bp_count (u_rec_buffers u) = int (unat (rec_buffers_count b))"
    and c: "u_checkpoint u = CHECKPOINT_SEND_INTERMEDIATE_BUFFERS" and room: "pools_room b \<le> outroom s"
  shows "\<exists>s'. send_pools u s = Some (0, u\<lparr>u_checkpoint := NO_CHECKPOINT\<rparr>, s') \<and> sys_ok s' \<and>
    outbox s' = outbox s @ [wire_of (int_pool_mail u), wire_of (rec_pool_mail u)]"
proof -
  have p: "pool_ok (u_int_buffers u)" "pool_ok (u_rec_buffers u)" using s(2) by (simp_all add: pools_ok_def)
  have n: "unat (int_buffers_count b) \<le> 5460" "unat (rec_buffers_count b) \<le> 5460"
    using b(1) by (simp_all add: pools_fit_def)
  from send_pool_room [OF s(1) p(1) b(2) n(1), of "uid_code AL_MCU_MSG_PUSH_BUFFER_INTERMEDIATE" "u32_of_int (u_chan_uid u)"]
    room obtain s1 where 1: "send_intermediate_buffers u s = Some (0, s1)" "sys_ok s1"
      "outbox s1 = outbox s @ [wire_of (int_pool_mail u)]"
      "outroom s1 + 12 * unat (int_buffers_count b) + 8 = outroom s"
    by (auto simp: send_intermediate_buffers_def int_pool_mail_def pools_room_def)
  let ?v = "u\<lparr>u_checkpoint := CHECKPOINT_SEND_REFERENCE_BUFFERS\<rparr>"
  have "12 * unat (rec_buffers_count b) + 12 \<le> outroom s1" using 1(4) room by (simp add: pools_room_def)
  from send_pool_room [OF 1(2) p(2) b(3) n(2) this, of "uid_code AL_MCU_MSG_PUSH_BUFFER_REFERENCE" "u32_of_int (u_chan_uid u)"]
  obtain s2 where 2: "send_reference_buffers ?v s1 = Some (0, s2)" "sys_ok s2"
      "outbox s2 = outbox s1 @ [wire_of (rec_pool_mail u)]"
    by (auto simp: send_reference_buffers_def rec_pool_mail_def)
  have "send_pools u s = Some (0, u\<lparr>u_checkpoint := NO_CHECKPOINT\<rparr>, s2)"
    using 1(1) 2(1) c by (simp add: send_pools_def checkpoint_defs)
  with 1(3) 2(2,3) show ?thesis by auto
qed

section \<open>The handshake\<close>

definition creation_mail :: "int \<Rightarrow> al5_params \<Rightarrow> al5_mail" where
  "creation_mail uid p = mail_of (uid_code AL_MCU_MSG_CREATE_CHANNEL) (le32 (u32_of_int uid) @ params_data p)"

text \<open>What the firmware owes a creation: once the message of user \<open>uid\<close> is behind those it had, it
  answers with \<open>fb\<close>; it may have taken messages, and has left room for the two to come.\<close>

definition grants_channel :: "surroundings \<Rightarrow> hw \<Rightarrow> int \<Rightarrow> al5_params \<Rightarrow> al5e_feedback_channel \<Rightarrow> bool" where
  "grants_channel w s uid p fb \<longleftrightarrow> fb_user_uid fb = u32_of_int uid \<and> (\<forall>x. sys_ok x \<and> inbox x = [] \<and>
     mcu_to_cpu (hw_mcu x) = mcu_to_cpu (hw_mcu s) \<and> hw_d x = hw_d s \<and>
     outbox x = outbox s @ [wire_of (creation_mail uid p)] \<and>
     outroom x + 4 + roundup4 (unat (body_size (creation_mail uid p))) = outroom s \<longrightarrow>
     sys_ok (su_firmware w x) \<and> inbox (su_firmware w x) = [wire_of (answer_mail fb)] \<and>
     (\<exists>k. outbox (su_firmware w x) = drop k (outbox x)) \<and> hw_d (su_firmware w x) = hw_d x \<and>
     pools_room (fb_buffers_needed fb) \<le> outroom (su_firmware w x))"

text \<open>What the kernel owes it: the memory for the pools.\<close>

definition memory_for :: "al5_channel_buffers \<Rightarrow> dsys \<Rightarrow> bool" where
  "memory_for b d \<longleftrightarrow> (\<forall>u s. sys_ok s \<and> hw_d s = d \<longrightarrow>
     (\<exists>u' s'. allocate_channel_buffers b u s = Some (0, u', s')))"

text \<open>There is memory when no call of the DMA framework fails; a positive answer is a success of each of
  the calls of an allocation.\<close>

lemma kzalloc_nofail:
  "km_nofail k \<Longrightarrow> \<exists>bs. kzalloc n k = (Some bs, km_step 1 1 k)"
  "km_nofail k \<Longrightarrow> \<exists>bs. kmalloc n k = (Some bs, km_step 1 1 k)"
  by (auto simp: kzalloc_def kmalloc_def km_nofail_def km_step_def Let_def)

lemma buffer_exported:
  assumes k: "km_nofail k" and d: "\<And>i. 0 < d_answer d i"
  shows "\<exists>b k1 d1 h k2 d2. al5_alloc_dma sz k d = (Some b, k1, d1) \<and> al5_dmabuf_wrap b k1 d1 = (h, k2, d2) \<and>
    0 < h \<and> km_nofail k2 \<and> d_answer d2 = d_answer d"
proof -
  from kzalloc_nofail(2) [OF k, of sizeof_dma_buffer] d [of "length (d_trace d)"] obtain b d1 where
    1: "al5_alloc_dma sz k d = (Some b, km_step 1 1 k, d1)" "d_answer d1 = d_answer d"
    by (auto simp: al5_alloc_dma_def dcall_def Let_def)
  obtain x y where x: "kzalloc sizeof_dmabuf_priv (km_step 1 1 k) = (Some x, km_step 2 2 k)"
    "kzalloc sizeof_sg_table (km_step 2 2 k) = (Some y, km_step 3 3 k)"
    using kzalloc_nofail(1) [of "km_step 1 1 k" sizeof_dmabuf_priv] kzalloc_nofail(1) [of "km_step 2 2 k" sizeof_sg_table] k
    by auto
  have pos: "0 < d_answer d1 i" "\<not> d_answer d1 i < 0" "\<not> d_answer d1 i \<le> 0" for i
    using d [of i] 1(2) by simp_all
  have "\<exists>h k2 d2. al5_dmabuf_wrap b (km_step 1 1 k) d1 = (h, k2, d2) \<and> 0 < h \<and> km_nofail k2 \<and> d_answer d2 = d_answer d"
    using x pos 1(2) k
    by (simp add: al5_dmabuf_wrap_def al5_get_base_sgt_def al5_get_dmabuf_def dcall_def Let_def last_table_def)
  with 1(1) show ?thesis by blast
qed

lemma pool_filled:
  "fill_pool n i sz pool k d = Some (ok, p, k', d') \<Longrightarrow> km_nofail k \<Longrightarrow> (\<And>i. 0 < d_answer d i) \<Longrightarrow>
   ok \<and> d_answer d' = d_answer d"
proof (induction n arbitrary: i pool k d)
  case (Suc n)
  from buffer_exported [OF Suc.prems(2,3), of "word_of_int sz"] obtain b k1 d1 h k2 d2 where
    b: "al5_alloc_dma (word_of_int sz) k d = (Some b, k1, d1)" "al5_dmabuf_wrap b k1 d1 = (h, k2, d2)"
      "0 < h" "km_nofail k2" "d_answer d2 = d_answer d" by blast
  from Suc.prems(1) b(1-3) obtain pool' where "fill_pool n (i + 1) sz pool' k2 d2 = Some (ok, p, k', d')"
    by (auto simp: bind_eq_Some_conv)
  from Suc.IH [OF this b(4)] b(5) Suc.prems(3) show ?case by simp
qed simp

lemma pool_allocated:
  assumes k: "km_nofail k" and d: "\<And>i. 0 < d_answer d i" and n: "unat count < 2 ^ 16"
  shows "\<exists>p k' d'. al5_bufpool_allocate pool (int_of_u32 count) sz k d = Some (0, p, k', d') \<and>
    km_nofail k' \<and> d_answer d' = d_answer d"
proof -
  let ?c = "int_of_u32 count"
  from bufpool_allocate_nofail [OF k n, of pool sz d] obtain err p k' d' where
    a: "al5_bufpool_allocate pool ?c sz k d = Some (err, p, k', d')" "km_oracle k' = km_oracle k" by blast
  obtain ok1 k1 where 1: "kcalloc_ptrs ?c k = (ok1, k1)" by (cases "kcalloc_ptrs ?c k")
  obtain ok2 k2 where 2: "kcalloc_ptrs ?c k1 = (ok2, k2)" by (cases "kcalloc_ptrs ?c k1")
  have c: "0 \<le> ?c" using int_of_u32_small [OF n] by simp
  have nf: "km_nofail k1" "km_nofail k2"
    using kcalloc_ptrs_kmem [OF 1] kcalloc_ptrs_kmem [OF 2] k by (simp_all add: km_nofail_def)
  have ok: "ok1" "ok2" "km_nofail k2"
    using kcalloc_ptrs_nofail [OF k c int_of_u32_cint] kcalloc_ptrs_nofail [OF nf(1) c int_of_u32_cint] 1 2 nf
    by simp_all
  from a(1) 1 2 ok(1,2) obtain pool' ok3 p3 k3 d3 where
    f: "fill_pool (nat ?c) 0 sz pool' k2 d = Some (ok3, p3, k3, d3)" "ok3 \<Longrightarrow> err = 0 \<and> d' = d3"
    by (auto simp: al5_bufpool_allocate_def Let_def bind_eq_Some_conv split: if_splits)
  from pool_filled [OF f(1) ok(3) d] f(2) have "err = 0" "d_answer d' = d_answer d" by simp_all
  with a k show ?thesis by (auto simp: km_nofail_def)
qed

lemma memory_enough:
  assumes d: "\<And>i. 0 < d_answer d i" and b: "buffers_small b"
  shows "memory_for b d"
  unfolding memory_for_def
proof (intro allI impI)
  fix u :: al5_user and s :: hw
  assume s: "sys_ok s \<and> hw_d s = d"
  have n: "unat (int_buffers_count b) < 2 ^ 16" "unat (rec_buffers_count b) < 2 ^ 16"
    using b by (simp_all add: buffers_small_def)
  have "km_nofail (hw_k s)" using s by (simp add: sys_ok_def)
  from pool_allocated [OF this d n(1)] s obtain ip k1 d1 where
    1: "al5_bufpool_allocate (u_int_buffers u) (int_of_u32 (int_buffers_count b))
        (int_of_u32 (int_buffers_size b)) (hw_k s) (hw_d s) = Some (0, ip, k1, d1)"
      "km_nofail k1" "d_answer d1 = d_answer d" by blast
  have "\<And>i. 0 < d_answer d1 i" using d 1(3) by simp
  from pool_allocated [OF 1(2) this n(2)] obtain rp k2 d2 where
    "al5_bufpool_allocate (u_rec_buffers u) (int_of_u32 (rec_buffers_count b))
        (int_of_u32 (rounded_rec_size (rec_buffers_size b))) k1 d1 = Some (0, rp, k2, d2)" by blast
  with 1(1) show "\<exists>u' s'. allocate_channel_buffers b u s = Some (0, u', s')"
    by (simp add: allocate_channel_buffers_def)
qed

text \<open>The first step: the message out, the wait, the answer.\<close>

lemma creation_granted:
  assumes u: "u_queues u AL5_USER_MAIL_CREATE = al5_queue_init"
    and w: "seated w (u_uid u)" "u_uid u < 2 ^ 31" and n: "0 < n"
    and p: "params_ok p" "params_fit p" "length (params_data p) + 12 \<le> outroom s"
    and s: "sys_ok s" "inbox s = []"
    and fw: "grants_channel w s (u_uid u) p fb" "pools_fit (fb_buffers_needed fb)"
      "fb_chan_uid fb \<noteq> u32_of_int BAD_CHAN"
  shows "\<exists>s' k. try_to_create_channel (interrupt_env enc_form w n) p status feedback0 u s =
      Some (0, update_chan_param status fb, fb, u\<lparr>u_chan_uid := int_of_u32 (fb_chan_uid fb)\<rparr>, s') \<and>
    sys_ok s' \<and> hw_d s' = hw_d s \<and> outbox s' = drop k (outbox s @ [wire_of (creation_mail (u_uid u) p)]) \<and>
    pools_room (fb_buffers_needed fb) \<le> outroom s'"
proof -
  let ?e = "interrupt_env enc_form w n" and ?q = AL5_USER_MAIL_CREATE and ?m = "creation_mail (u_uid u) p"
  let ?mk = "al5e_create_channel_param_msg (u32_of_int (u_uid u)) p" and ?a = "answer_mail fb"
  have k: "km_ok (hw_k s)" "km_nofail (hw_k s)" using s(1) by (simp_all add: sys_ok_kmem)
  have d: "length (params_data p) \<le> 512" using params_fitD [OF p(1,2)] by (simp add: params_data_def)
  have room: "unat (body_size ?m) + 8 \<le> outroom s"
    using p(3) d by (simp add: creation_mail_def mail_of_sel unat_word_ariths unat_of_nat)
  have mk: "?mk (hw_k s) = Some (Some ?m, km_step 1 1 (hw_k s))"
    using al5e_create_channel_param_msg_eq [OF k p(1,2)] by (simp add: creation_mail_def)
  have "mail_wf ?m" unfolding creation_mail_def by (rule destroy_mail_wf)
  from make_and_send_room [where mk = ?mk, OF s(1) mk this room] obtain s1 where
    1: "make_and_send ?mk s = Some (0, s1)" "hw_frame s s1" "outbox s1 = outbox s @ [wire_of ?m]"
      "hw_d s1 = hw_d s" "outroom s1 + 4 + roundup4 (unat (body_size ?m)) = outroom s" by blast
  have s1: "sys_ok s1" "inbox s1 = []" "mcu_to_cpu (hw_mcu s1) = mcu_to_cpu (hw_mcu s)"
    using sys_ok_frame [OF 1(2) s(1)] 1(2) s by (simp_all add: hw_frame_def sys_ok_def)
  let ?y = "su_firmware w s1"
  from fw(1) s1 1(3-5) have y: "sys_ok ?y" "inbox ?y = [wire_of ?a]" "\<exists>k. outbox ?y = drop k (outbox s1)"
    "hw_d ?y = hw_d s1" "pools_room (fb_buffers_needed fb) \<le> outroom ?y" "fb_user_uid fb = u32_of_int (u_uid u)"
    unfolding grants_channel_def by blast+
  from grant_arrives [where u = u, OF w u y(6) pools_fit_small [OF fw(2)] y(1,2) n] obtain t where
    t: "e_wait ?e ?q (u, s1) = (1, set_queue ?q (al5_queue_init\<lparr>q_list := [?a]\<rparr>) u, t)"
      "sys_ok t" "outbox t = outbox ?y" "outroom t = outroom ?y" "hw_d t = hw_d ?y" by blast
  have same: "set_queue ?q (al5_queue_init\<lparr>q_list := []\<rparr>) u = u"
    using u by (cases u) (simp add: set_queue_def fun_upd_idem al5_queue_init_def)
  let ?t = "t\<lparr>hw_k := km_step 0 (- 1) (hw_k t)\<rparr>"
  have pop: "user_pop_timeout ?e ?q u s1 = (0, Some ?a, u, ?t)"
    using t(1) same by (simp add: user_pop_timeout_def al5_queue_pop_timeout_mail set_queue_def)
  let ?s' = "?t\<lparr>hw_k := al5_free_mail (Some ?a) (hw_k ?t)\<rparr>"
  have "try_to_create_channel ?e p status feedback0 u s = Some (0, update_chan_param status fb, fb,
      u\<lparr>u_chan_uid := int_of_u32 (fb_chan_uid fb)\<rparr>, ?s')"
    using 1(1) pop fw(3) answer_mail_feedback [of fb]
    by (simp add: try_to_create_channel_def al5_mail_get_body_def check_and_affect_chan_uid_def Let_def)
  moreover have "sys_ok ?s'" using t(2) by (simp add: al5_free_mail_def kfree_step)
  ultimately show ?thesis using 1(3,4) y(3-5) t(3-5) by auto
qed

text \<open>The whole creation.\<close>

lemma channel_granted:
  assumes u: "enc_inv u" "\<not> al5_chan_is_created u" "\<not> u_locks u AL5_USER_CREATE"
      "u_queues u AL5_USER_MAIL_CREATE = al5_queue_init"
    and w: "seated w (u_uid u)" "u_uid u < 2 ^ 31" and n: "0 < n"
    and p: "params_ok p" "params_fit p" "length (params_data p) + 12 \<le> outroom s"
    and s: "sys_ok s" "inbox s = []" "su_firmware w s = s"
    and fw: "grants_channel w s (u_uid u) p fb" "pools_fit (fb_buffers_needed fb)"
      "fb_chan_uid fb \<noteq> u32_of_int BAD_CHAN"
    and m: "memory_for (fb_buffers_needed fb) (hw_d s)"
  shows "\<exists>ip rp u' s' k. u' = u\<lparr>u_chan_uid := int_of_u32 (fb_chan_uid fb), u_int_buffers := ip, u_rec_buffers := rp\<rparr> \<and>
    al5e_user_create_channel (interrupt_env enc_form w n) p status u s =
      Some (0, update_chan_param status fb, u', s') \<and> sys_ok s' \<and> enc_inv u' \<and> channel_is_fully_created u' \<and>
    bp_count ip = int (unat (int_buffers_count (fb_buffers_needed fb))) \<and>
    bp_count rp = int (unat (rec_buffers_count (fb_buffers_needed fb))) \<and>
    outbox s' = drop k (outbox s @ [wire_of (creation_mail (u_uid u) p)]) @
      [wire_of (int_pool_mail u'), wire_of (rec_pool_mail u')]"
proof -
  let ?e = "interrupt_env enc_form w n" and ?b = "fb_buffers_needed fb" and ?c = "int_of_u32 (fb_chan_uid fb)"
  define v where "v = u\<lparr>u_locks := (u_locks u)(AL5_USER_CREATE := True)\<rparr>"
  have v: "u_queues v AL5_USER_MAIL_CREATE = al5_queue_init" "u_uid v = u_uid u" using u(4) by (simp_all add: v_def)
  have nocp: "u_checkpoint u = NO_CHECKPOINT" using u(1,2) by (auto simp: enc_inv_def al5_have_checkpoint_def)
  have l: "mutex_lock_killable ?e AL5_USER_CREATE u s = Some (0, v, s)"
    using u(3) interrupt_idle [OF s(3,2)]
    by (simp add: mutex_lock_killable_def interrupt_env_def Let_def take_lock_def v_def)
  have nf: "\<not> channel_is_fully_created v" "\<not> al5_have_checkpoint v"
    using u(2) nocp by (simp_all add: channel_is_fully_created_def al5_chan_is_created_def al5_have_checkpoint_def v_def)
  from creation_granted [where u = v and status = status and s = s and w = w and n = n and p = p and fb = fb]
    v w n p s fw obtain s1 k where
    1: "try_to_create_channel ?e p status feedback0 v s =
        Some (0, update_chan_param status fb, fb, v\<lparr>u_chan_uid := ?c\<rparr>, s1)"
      "sys_ok s1" "hw_d s1 = hw_d s" "outbox s1 = drop k (outbox s @ [wire_of (creation_mail (u_uid u) p)])"
      "pools_room ?b \<le> outroom s1" by auto
  let ?v1 = "v\<lparr>u_chan_uid := ?c, u_checkpoint := CHECKPOINT_ALLOCATE_BUFFERS\<rparr>"
  have cs: "create_step ?e p status v s = Some (0, update_chan_param status fb, fb, ?v1, s1)"
    using 1(1) nf(2) by (simp add: create_step_def)
  have small: "pools_small ?v1" using u(1) by (simp add: enc_inv_def pools_small_def pools_ok_def v_def)
  from m 1(2,3) obtain u0 s0 where "allocate_channel_buffers ?b ?v1 s1 = Some (0, u0, s0)"
    unfolding memory_for_def by blast
  with allocate_channel_buffers_ok [OF 1(2) small pools_fit_small [OF fw(2)]] obtain ip rp kk dd where
    2: "allocate_channel_buffers ?b ?v1 s1 =
        Some (0, ?v1\<lparr>u_int_buffers := ip, u_rec_buffers := rp\<rparr>, s1\<lparr>hw_k := kk, hw_d := dd\<rparr>)"
      "sys_ok (s1\<lparr>hw_k := kk, hw_d := dd\<rparr>)" "pools_small (?v1\<lparr>u_int_buffers := ip, u_rec_buffers := rp\<rparr>)"
      "bp_count ip = int (unat (int_buffers_count ?b))" "bp_count rp = int (unat (rec_buffers_count ?b))" by auto
  let ?v2 = "?v1\<lparr>u_int_buffers := ip, u_rec_buffers := rp, u_checkpoint := CHECKPOINT_SEND_INTERMEDIATE_BUFFERS\<rparr>"
  let ?s2 = "s1\<lparr>hw_k := kk, hw_d := dd\<rparr>"
  have as: "allocate_step fb ?v1 s1 = Some (0, ?v2, ?s2)" using 2(1) by (simp add: allocate_step_def)
  have "pools_ok ?v2" using 2(3) by (simp add: pools_small_def pools_ok_def)
  from send_pools_sends [OF 2(2) this fw(2)] 2(4,5) 1(5) obtain s3 where
    3: "send_pools ?v2 ?s2 = Some (0, ?v2\<lparr>u_checkpoint := NO_CHECKPOINT\<rparr>, s3)" "sys_ok s3"
      "outbox s3 = outbox s1 @ [wire_of (int_pool_mail ?v2), wire_of (rec_pool_mail ?v2)]" by auto
  let ?u' = "u\<lparr>u_chan_uid := ?c, u_int_buffers := ip, u_rec_buffers := rp\<rparr>"
  have eq: "mutex_unlock AL5_USER_CREATE (?v2\<lparr>u_checkpoint := NO_CHECKPOINT\<rparr>) = ?u'"
    using nocp u(3) by (cases u) (auto simp: v_def mutex_unlock_def fun_eq_iff)
  have "al5e_user_create_channel ?e p status u s = Some (0, update_chan_param status fb, ?u', s3)"
    using l nf(1) cs as 3(1) eq by (simp add: al5e_user_create_channel_def)
  moreover have "channel_is_fully_created ?u'"
    using int_of_u32_BAD_CHAN [OF fw(3)] nocp
    by (simp add: channel_is_fully_created_def al5_chan_is_created_def al5_have_checkpoint_def)
  moreover have "enc_inv ?u'"
    using 2(3) nocp by (simp add: enc_inv_def pools_small_def pools_ok_def al5_have_checkpoint_def)
  moreover have "int_pool_mail ?v2 = int_pool_mail ?u'" "rec_pool_mail ?v2 = rec_pool_mail ?u'"
    by (simp_all add: int_pool_mail_def rec_pool_mail_def)
  ultimately show ?thesis using 1(4) 2(4,5) 3(2,3) by (metis append.assoc)
qed

text \<open>Afterwards the status messages of the channel lead to its user.\<close>

lemma encoded_route:
  assumes "seated w (u_uid u)" "u_chan_uid u = int_of_u32 c"
    and "\<And>q v. q \<noteq> su_address w \<Longrightarrow> sys_users (su_rest w x) q = Some v \<Longrightarrow> u_chan_uid v \<noteq> int_of_u32 c"
  shows "route (with_user w (u, x)) (mail_of (uid_code AL_MCU_MSG_ENCODE_ONE_FRM) (le32 c @ bs)) =
    Some (su_address w, AL5_USER_MAIL_STATUS)"
proof -
  have "word_at (mail_of (uid_code AL_MCU_MSG_ENCODE_ONE_FRM) (le32 c @ bs)) 0 = int_of_u32 c"
    by (simp add: word_at_def mail_of_sel)
  with channel_route [of w u x] assms show ?thesis
    by (simp add: route_def mail_simps mail_to_queue_def)
qed

section \<open>Properties\<close>

text \<open>C10: an encoder channel comes to life. The caller finds its user without a channel and the state
  below idle; the firmware grants the channel once the creation is in its mailbox; there is memory
  for the buffers it asks for. Then \<open>al5e_user_create_channel\<close> sends the creation, blocks, is woken
  by the interrupt that delivers the answer, allocates the two pools with as many buffers as the
  answer says, sends their addresses in this order and returns 0 with the firmware's numbers. Of the
  user only the channel and the pools have changed, the channel is complete, and if no other user
  has it its status messages lead to this user from now on.\<close>

theorem encoder_channel_handshake:
  assumes "enc_inv u" "\<not> al5_chan_is_created u" "\<not> u_locks u AL5_USER_CREATE"
      "u_queues u AL5_USER_MAIL_CREATE = al5_queue_init"
    and "seated w (u_uid u)" "u_uid u < 2 ^ 31" "0 < n"
    and "params_ok p" "params_fit p" "length (params_data p) + 12 \<le> outroom s"
    and "sys_ok s" "inbox s = []" "su_firmware w s = s"
    and "grants_channel w s (u_uid u) p fb" "pools_fit (fb_buffers_needed fb)"
      "fb_chan_uid fb \<noteq> u32_of_int BAD_CHAN" "memory_for (fb_buffers_needed fb) (hw_d s)"
    and "\<forall>x q v. q \<noteq> su_address w \<and> sys_users (su_rest w x) q = Some v \<longrightarrow>
      u_chan_uid v \<noteq> int_of_u32 (fb_chan_uid fb)"
  shows "\<exists>ip rp u' s' k. u' = u\<lparr>u_chan_uid := int_of_u32 (fb_chan_uid fb), u_int_buffers := ip, u_rec_buffers := rp\<rparr> \<and>
    al5e_user_create_channel (interrupt_env enc_form w n) p status u s =
      Some (0, update_chan_param status fb, u', s') \<and> sys_ok s' \<and> enc_inv u' \<and> channel_is_fully_created u' \<and>
    bp_count ip = int (unat (int_buffers_count (fb_buffers_needed fb))) \<and>
    bp_count rp = int (unat (rec_buffers_count (fb_buffers_needed fb))) \<and>
    outbox s' = drop k (outbox s @ [wire_of (creation_mail (u_uid u) p)]) @
      [wire_of (int_pool_mail u'), wire_of (rec_pool_mail u')] \<and>
    (\<forall>x bs. route (with_user w (u', x))
        (mail_of (uid_code AL_MCU_MSG_ENCODE_ONE_FRM) (le32 (fb_chan_uid fb) @ bs)) =
      Some (su_address w, AL5_USER_MAIL_STATUS))"
proof -
  from channel_granted [OF assms(1-17)] obtain ip rp u' s' k where
    u': "u' = u\<lparr>u_chan_uid := int_of_u32 (fb_chan_uid fb), u_int_buffers := ip, u_rec_buffers := rp\<rparr>"
    and r: "al5e_user_create_channel (interrupt_env enc_form w n) p status u s =
        Some (0, update_chan_param status fb, u', s')" "sys_ok s'" "enc_inv u'" "channel_is_fully_created u'"
      "bp_count ip = int (unat (int_buffers_count (fb_buffers_needed fb)))"
      "bp_count rp = int (unat (rec_buffers_count (fb_buffers_needed fb)))"
      "outbox s' = drop k (outbox s @ [wire_of (creation_mail (u_uid u) p)]) @
        [wire_of (int_pool_mail u'), wire_of (rec_pool_mail u')]" by blast
  have "\<forall>x bs. route (with_user w (u', x))
        (mail_of (uid_code AL_MCU_MSG_ENCODE_ONE_FRM) (le32 (fb_chan_uid fb) @ bs)) =
      Some (su_address w, AL5_USER_MAIL_STATUS)"
    using encoded_route [of w u' "fb_chan_uid fb"] assms(5,18) u' by auto
  with u' r show ?thesis by blast
qed

text \<open>A firmware that grants channel 9 with one buffer in each pool.\<close>

definition grant9 :: al5e_feedback_channel where
  "grant9 = feedback0\<lparr>fb_chan_uid := 9, fb_num_core := 2,
     fb_buffers_needed := \<lparr>int_buffers_count = 1, int_buffers_size = 64,
       rec_buffers_count = 1, rec_buffers_size = 5000, buffers_reserved = 0\<rparr>\<rparr>"

definition around9 :: surroundings where
  "around9 = \<lparr>su_address = 10, su_rest = (\<lambda>_. sys1),
     su_firmware = (\<lambda>s. if outbox s = [] then s else firmware_puts (answer_mail grant9) s), su_signal = False\<rparr>"

lemma firmware_puts_hw_d: "hw_d (firmware_puts m s) = hw_d s"
  by (simp add: firmware_puts_def)

lemma grants9: "grants_channel around9 hw0 0 params0 grant9"
  unfolding grants_channel_def
proof (intro conjI allI impI)
  show "fb_user_uid grant9 = u32_of_int 0" by (simp add: grant9_def feedback0_def)
next
  fix x
  assume x: "sys_ok x \<and> inbox x = [] \<and> mcu_to_cpu (hw_mcu x) = mcu_to_cpu (hw_mcu hw0) \<and> hw_d x = hw_d hw0 \<and>
    outbox x = outbox hw0 @ [wire_of (creation_mail 0 params0)] \<and>
    outroom x + 4 + roundup4 (unat (body_size (creation_mail 0 params0))) = outroom hw0"
  have box: "unat (box_size (mcu_to_cpu (hw_mcu hw0))) = 64"
    by (simp add: hw0_def al5_mailbox_init_def Let_def)
  from x have "mailbox_ok (mcu_to_cpu (hw_mcu x)) (hw_mem x)" unfolding sys_ok_def hw_ok_def by blast
  moreover from x have "mailbox_mails (mcu_to_cpu (hw_mcu x)) (hw_mem x) = []" unfolding inbox_def by blast
  ultimately have "box_used (mcu_to_cpu (hw_mcu x)) (hw_mem x) = 0" by (simp only: mailbox_mails_Nil_used)
  then have room: "box_used (mcu_to_cpu (hw_mcu x)) (hw_mem x) + unat (body_size (answer_mail grant9)) + 8
      \<le> unat (box_size (mcu_to_cpu (hw_mcu x)))"
    using x box by (simp add: answer_mail_def bytes_of_feedback_def mail_of_sel)
  have wf: "mail_wf (answer_mail grant9)"
    using answer_mail_split [of grant9] by (auto simp: answer_mail_def bytes_of_feedback_def)
  have fw: "su_firmware around9 x = firmware_puts (answer_mail grant9) x" using x by (simp add: around9_def)
  note f = firmware_puts_ok [OF _ wf room]
  show "sys_ok (su_firmware around9 x)" "inbox (su_firmware around9 x) = [wire_of (answer_mail grant9)]"
    using f(1,2) x fw by simp_all
  show "\<exists>k. outbox (su_firmware around9 x) = drop k (outbox x)"
    using f(3) x fw by (intro exI [of _ 0]) simp
  show "hw_d (su_firmware around9 x) = hw_d x" by (simp add: fw firmware_puts_hw_d)
  have "unat (body_size (creation_mail 0 params0)) = 12"
    by (simp add: creation_mail_def mail_of_sel params_data_def params0_def)
  then have "outroom x = 48" using x hw0_ok(4) by (simp add: roundup4_def)
  then show "pools_room (fb_buffers_needed grant9) \<le> outroom (su_firmware around9 x)"
    using f(4) x fw by (simp add: pools_room_def grant9_def)
qed

theorem encoder_channel_handshake_witness:
  "\<exists>u' s'. al5e_user_create_channel (interrupt_env enc_form around9 1) params0 status0 (al5_user_init 0) hw0 =
      Some (0, update_chan_param status0 grant9, u', s') \<and> u_chan_uid u' = 9 \<and> channel_is_fully_created u' \<and>
    bp_count (u_int_buffers u') = 1 \<and> bp_count (u_rec_buffers u') = 1"
proof -
  have u: "\<not> al5_chan_is_created (al5_user_init 0)" "\<not> u_locks (al5_user_init 0) AL5_USER_CREATE"
    "u_queues (al5_user_init 0) AL5_USER_MAIL_CREATE = al5_queue_init" "u_uid (al5_user_init 0) = 0"
    by (simp_all add: al5_user_init_def al5_chan_is_created_def)
  have s: "seated around9 (u_uid (al5_user_init 0))" "u_uid (al5_user_init 0) < 2 ^ 31"
    using sys1_ok by (simp_all add: seated_def around9_def table_user_def al5_user_init_def)
  have p: "length (params_data params0) + 12 \<le> outroom hw0"
    by (simp add: hw0_ok(4) params_data_def params0_def)
  have idle: "su_firmware around9 hw0 = hw0" by (simp add: around9_def hw0_ok(2))
  have fit: "pools_fit (fb_buffers_needed grant9)" by (simp add: pools_fit_def grant9_def)
  have m: "memory_for (fb_buffers_needed grant9) (hw_d hw0)"
    by (rule memory_enough [OF _ pools_fit_small [OF fit]]) (simp add: hw0_ok(6) dsys7_def)
  have g: "grants_channel around9 hw0 (u_uid (al5_user_init 0)) params0 grant9" using grants9 u(4) by simp
  have c: "fb_chan_uid grant9 \<noteq> u32_of_int BAD_CHAN" by (simp add: grant9_def BAD_CHAN_def)
  have alone: "\<forall>x q v. q \<noteq> su_address around9 \<and> sys_users (su_rest around9 x) q = Some v \<longrightarrow>
      u_chan_uid v \<noteq> int_of_u32 (fb_chan_uid grant9)"
    by (simp add: around9_def sys1_def)
  from encoder_channel_handshake [OF enc_inv_init u(1-3) s _ params0_ok p hw0_ok(1,3) idle g fit c m alone,
      where n = 1 and status = status0]
  show ?thesis by (auto simp: grant9_def)
qed

end
