(* ===== verification/Dmabuf_Runs.thy ===== *)
theory Dmabuf_Runs
  imports Dma
begin

text \<open>
  An exported buffer in use. The dma-buf framework calls the driver through the table
  \<open>al5_dmabuf_ops\<close>: importers attach, map, unmap and detach in any order and number, processes map
  the pages, and when the last reference goes the framework releases the buffer. The steps are the
  entries of the table; the invariant counts what the attachments hold.
\<close>

section \<open>Runs\<close>

text \<open>The private data of the export, the attachments that are alive, and the state below.\<close>

record exported =
  ex_priv :: al5_dmabuf_priv
  ex_attached :: "al5_dmabuf_attachment list"
  ex_k :: kmem
  ex_d :: dsys

definition remove_nth :: "nat \<Rightarrow> 'a list \<Rightarrow> 'a list" where
  "remove_nth i xs = take i xs @ drop (Suc i) xs"

inductive dmabuf_step :: "dma_buf_ops \<Rightarrow> exported \<Rightarrow> exported \<Rightarrow> bool" for ops :: dma_buf_ops where
  attached: "op_attach ops (ex_priv x) (ex_k x) (ex_d x) = Some (0, Some a, k, d) \<Longrightarrow>
    dmabuf_step ops x (x\<lparr>ex_attached := ex_attached x @ [a], ex_k := k, ex_d := d\<rparr>)"
| refused: "op_attach ops (ex_priv x) (ex_k x) (ex_d x) = Some (err, a, k, d) \<Longrightarrow> err \<noteq> 0 \<Longrightarrow>
    dmabuf_step ops x (x\<lparr>ex_k := k, ex_d := d\<rparr>)"
| mapped: "i < length (ex_attached x) \<Longrightarrow> dir \<noteq> DMA_NONE \<Longrightarrow>
    op_map_dma_buf ops (Some (ex_attached x ! i)) dir (ex_d x) = Some (r, Some a, d) \<Longrightarrow>
    dmabuf_step ops x (x\<lparr>ex_attached := (ex_attached x)[i := a], ex_d := d\<rparr>)"
| unmapped: "dmabuf_step ops x (x\<lparr>ex_d := op_unmap_dma_buf ops (ex_d x)\<rparr>)"
| detached: "i < length (ex_attached x) \<Longrightarrow>
    op_detach ops (Some (ex_attached x ! i)) (ex_k x) (ex_d x) = (a, k, d) \<Longrightarrow>
    dmabuf_step ops x (x\<lparr>ex_attached := remove_nth i (ex_attached x), ex_k := k, ex_d := d\<rparr>)"
| mmapped: "op_mmap ops (Some (ex_priv x)) vma (ex_d x) = Some (r, vma', d) \<Longrightarrow>
    dmabuf_step ops x (x\<lparr>ex_d := d\<rparr>)"

inductive_cases dmabuf_stepE: "dmabuf_step ops x y"

inductive dmabuf_run :: "dma_buf_ops \<Rightarrow> exported \<Rightarrow> exported \<Rightarrow> bool" for ops :: dma_buf_ops where
  start: "dmabuf_run ops x x"
| more: "dmabuf_run ops x y \<Longrightarrow> dmabuf_step ops y z \<Longrightarrow> dmabuf_run ops x z"

section \<open>What the attachments hold\<close>

definition all_mappings :: "al5_dmabuf_attachment list \<Rightarrow> int" where
  "all_mappings as = sum_list (map mappings as)"

text \<open>Each attachment has its own copy of the exporter's scatter list; it holds a block, a table and
  at most one mapping.\<close>

definition accounted :: "exported \<Rightarrow> exported \<Rightarrow> bool" where
  "accounted x y \<longleftrightarrow> ex_priv y = ex_priv x \<and>
     (\<forall>a \<in> set (ex_attached y). sgt_base (ex_priv x) = Some (att_sgt a)) \<and>
     km_live (ex_k y) = km_live (ex_k x) + int (length (ex_attached y)) \<and>
     km_oracle (ex_k y) = km_oracle (ex_k x) \<and>
     (\<forall>R. dma_live R (ex_d y) = dma_live R (ex_d x) +
        (if R = Sg_table then int (length (ex_attached y)) else 0) +
        (if R = Sg_mapping then all_mappings (ex_attached y) else 0))"

lemma accounted_start: "ex_attached x = [] \<Longrightarrow> accounted x x"
  by (simp add: accounted_def all_mappings_def)

lemma remove_nth_split:
  assumes "i < length xs"
  shows "set (remove_nth i xs) \<subseteq> set xs" "length (remove_nth i xs) = length xs - 1"
    "sum_list (map f (remove_nth i xs)) = sum_list (map f xs) - (f (xs ! i) :: int)"
proof -
  have x: "xs = take i xs @ xs ! i # drop (Suc i) xs" using assms by (simp add: id_take_nth_drop)
  show "set (remove_nth i xs) \<subseteq> set xs"
    by (auto simp: remove_nth_def dest: in_set_takeD in_set_dropD)
  show "length (remove_nth i xs) = length xs - 1" using assms by (simp add: remove_nth_def)
  have "sum_list (map f xs) = sum_list (map f (take i xs @ xs ! i # drop (Suc i) xs))" using x by simp
  then show "sum_list (map f (remove_nth i xs)) = sum_list (map f xs) - f (xs ! i)"
    by (simp add: remove_nth_def)
qed

lemma sum_list_update:
  assumes "i < length xs"
  shows "sum_list (map f (xs[i := y])) = sum_list (map f xs) + (f y - f (xs ! i) :: int)"
proof -
  have "xs = take i xs @ xs ! i # drop (Suc i) xs" using assms by (simp add: id_take_nth_drop)
  then have "sum_list (map f xs) = sum_list (map f (take i xs @ xs ! i # drop (Suc i) xs))" by simp
  then show ?thesis using assms by (simp add: upd_conv_take_nth_drop)
qed

section \<open>Each callback\<close>

lemma attach_result:
  assumes "sgt_base di = Some base"
  shows "\<exists>err a k' d'. al5_dmabuf_attach di k d = Some (err, a, k', d') \<and> km_oracle k' = km_oracle k \<and>
    (if err = 0 then a = Some \<lparr>att_sgt = base, att_dir = DMA_NONE\<rparr> \<and> km_live k' = km_live k + 1
     else err = - ENOMEM \<and> a = None \<and> km_live k' = km_live k) \<and>
    (\<forall>R. dma_live R d' = dma_live R d + (if R = Sg_table \<and> err = 0 then 1 else 0))"
proof -
  obtain z k1 where z: "kzalloc sizeof_attachment k = (z, k1)" by (cases "kzalloc sizeof_attachment k")
  note k1 = kzalloc_kmem [OF z]
  show ?thesis
  proof (cases z)
    case None
    with z k1 show ?thesis by (simp add: al5_dmabuf_attach_def)
  next
    case (Some bs)
    obtain r d1 where r: "dcall (Sg_alloc_table (length base)) d = (r, d1)"
      by (cases "dcall (Sg_alloc_table (length base)) d")
    have "dma_live R d1 = dma_live R d + (if R = Sg_table \<and> r = 0 then 1 else 0)" for R
      using dcall_live [OF r, of R] by simp
    with z k1 Some r assms show ?thesis
      by (cases "r = 0") (simp_all add: al5_dmabuf_attach_def sg_copy_all kfree_step)
  qed
qed

lemma detach_result:
  "\<exists>k' d'. al5_dmabuf_detach (Some att) k d = (None, k', d') \<and> km_live k' = km_live k - 1 \<and>
    km_oracle k' = km_oracle k \<and>
    (\<forall>R. dma_live R d' = dma_live R d - (if R = Sg_mapping then mappings att else 0)
       - (if R = Sg_table then 1 else 0))"
proof -
  obtain a k' d' where d: "al5_dmabuf_detach (Some att) k d = (a, k', d')"
    by (cases "al5_dmabuf_detach (Some att) k d") auto
  then have "km_oracle k' = km_oracle k"
    by (auto simp: al5_dmabuf_detach_def Let_def split_def kfree_step)
  with d al5_dmabuf_detach_live [OF d] show ?thesis by blast
qed

lemma mmap_result:
  "\<exists>r vma' d'. al5_dmabuf_mmap (Some di) vma d = Some (r, vma', d') \<and> (\<forall>R. dma_live R d' = dma_live R d)"
  by (simp add: al5_dmabuf_mmap_def Let_def split_def)

lemma al5_dmabuf_ops_sel [simp]:
  "op_attach al5_dmabuf_ops = al5_dmabuf_attach" "op_detach al5_dmabuf_ops = al5_dmabuf_detach"
  "op_map_dma_buf al5_dmabuf_ops = al5_dmabuf_map" "op_unmap_dma_buf al5_dmabuf_ops = al5_dmabuf_unmap"
  "op_mmap al5_dmabuf_ops = al5_dmabuf_mmap" "op_release al5_dmabuf_ops = al5_dmabuf_release"
  by (simp_all add: al5_dmabuf_ops_def)

lemma step_accounted:
  assumes "sgt_base (ex_priv x) = Some base"
  shows "dmabuf_step al5_dmabuf_ops y z \<Longrightarrow> accounted x y \<Longrightarrow> accounted x z"
proof (induction rule: dmabuf_step.induct)
  case (attached y a k d)
  have b: "sgt_base (ex_priv y) = Some base" using assms attached.prems by (simp add: accounted_def)
  from attach_result [OF b, of "ex_k y" "ex_d y"] attached show ?case
    using assms by (auto simp: accounted_def all_mappings_def mappings_def)
next
  case (refused y err a k d)
  have b: "sgt_base (ex_priv y) = Some base" using assms refused.prems by (simp add: accounted_def)
  from attach_result [OF b, of "ex_k y" "ex_d y"] refused show ?case by (auto simp: accounted_def)
next
  case (mapped i y dir r a d)
  let ?b = "ex_attached y ! i"
  have s: "att_sgt a = att_sgt ?b" and l: "dma_live R d = dma_live R (ex_d y) +
      (if R = Sg_mapping then mappings a - mappings ?b else 0)" for R
    using al5_dmabuf_map_live [OF mapped(2), of ?b "ex_d y" R] mapped(3) by auto
  have "?b \<in> set (ex_attached y)" using mapped(1) by simp
  then have "sgt_base (ex_priv x) = Some (att_sgt a)" using mapped.prems s by (simp add: accounted_def)
  with mapped.prems l sum_list_update [OF mapped(1), of mappings a] show ?case
    by (auto simp: accounted_def all_mappings_def dest!: set_update_subset_insert [THEN subsetD])
next
  case (unmapped y)
  then show ?case by (simp add: accounted_def al5_dmabuf_unmap_def)
next
  case (detached i y a k d)
  from detach_result [of "ex_attached y ! i" "ex_k y" "ex_d y"] detached(2) have
    "km_live k = km_live (ex_k y) - 1" "km_oracle k = km_oracle (ex_k y)"
    "\<And>R. dma_live R d = dma_live R (ex_d y) - (if R = Sg_mapping then mappings (ex_attached y ! i) else 0)
       - (if R = Sg_table then 1 else 0)" by auto
  moreover note r = remove_nth_split [OF detached(1)] and n = remove_nth_split(3) [OF detached(1), of mappings]
  moreover have "int (length (ex_attached y) - 1) = int (length (ex_attached y)) - 1"
    using detached(1) by simp
  ultimately show ?case using detached.prems by (auto simp: accounted_def all_mappings_def)
next
  case (mmapped y vma r vma' d)
  with mmap_result [of "ex_priv y" vma "ex_d y"] show ?case by (auto simp: accounted_def)
qed

lemma run_accounted:
  "dmabuf_run al5_dmabuf_ops x y \<Longrightarrow> sgt_base (ex_priv x) = Some base \<Longrightarrow> ex_attached x = [] \<Longrightarrow>
   accounted x y"
  by (induction rule: dmabuf_run.induct) (auto intro: accounted_start step_accounted)

lemma all_mappings_le: "0 \<le> all_mappings as \<and> all_mappings as \<le> int (length as)"
  by (induction as) (auto simp: all_mappings_def mappings_def)

text \<open>The export, and what has been acquired by then.\<close>

lemma export_state:
  assumes "al5_alloc_dma sz k d = (Some b, k1, d1)" "al5_dmabuf_wrap b k1 d1 = (h, k2, d2)" "0 < h"
  shows "\<exists>n t. last (d_trace d2) = (Dma_buf_export n \<lparr>priv_buffer = b, sgt_base = Some t\<rparr>, h) \<and>
    km_live k2 = km_live k + 3 \<and>
    (\<forall>R. dma_live R d2 = dma_live R d + (if R \<in> {Coherent, Device_ref, Sg_table, Buf_ref} then 1 else 0))"
proof -
  from al5_dmabuf_wrap_live [OF assms(2,3)] obtain n t where
    t: "last (d_trace d2) = (Dma_buf_export n \<lparr>priv_buffer = b, sgt_base = Some t\<rparr>, h)"
    "km_live k2 = km_live k1 + 2"
    "\<And>R. dma_live R d2 = dma_live R d1 + (if R \<in> {Device_ref, Sg_table, Buf_ref} then 1 else 0)"
    by auto
  have "dma_live R d2 = dma_live R d + (if R \<in> {Coherent, Device_ref, Sg_table, Buf_ref} then 1 else 0)" for R
    using t(3) [of R] al5_alloc_dma_live [OF assms(1), of R] by simp
  moreover have "km_live k2 = km_live k + 3" using t(2) al5_alloc_dma_live [OF assms(1)] by simp
  ultimately show ?thesis using t(1) by blast
qed

definition exported_as :: "al5_dmabuf_priv \<Rightarrow> kmem \<Rightarrow> dsys \<Rightarrow> exported" where
  "exported_as di k d = \<lparr>ex_priv = di, ex_attached = [], ex_k = k, ex_d = d\<rparr>"

section \<open>Properties\<close>

text \<open>C22: an exported buffer from its allocation to its release. After \<open>al5_alloc_dma\<close> and
  \<open>al5_dmabuf_wrap\<close> succeed, the framework may call the table's entries in any order. Whatever the
  run: attaching and mapping return, a mapping with the exporter's scatter list or \<open>-EIO\<close>; each
  attachment alive holds one block and one table, and at most one mapping however often it was
  mapped; and once all are detached, the release gives back everything the buffer has acquired
  since it was allocated, leaving the reference of the dma-buf to its holder.\<close>

theorem dmabuf_runs_balanced:
  assumes "al5_alloc_dma sz k d = (Some b, k1, d1)" "al5_dmabuf_wrap b k1 d1 = (h, k2, d2)" "0 < h"
  shows "\<exists>n di base. last (d_trace d2) = (Dma_buf_export n di, h) \<and> priv_buffer di = b \<and>
    sgt_base di = Some base \<and>
    (\<forall>x. dmabuf_run al5_dmabuf_ops (exported_as di k2 d2) x \<longrightarrow>
      (\<exists>err a k' d'. op_attach al5_dmabuf_ops di (ex_k x) (ex_d x) = Some (err, a, k', d') \<and>
         err \<in> {0, - ENOMEM}) \<and>
      (\<forall>a \<in> set (ex_attached x). \<forall>dir. dir \<noteq> DMA_NONE \<longrightarrow> (\<exists>r a' d'.
         op_map_dma_buf al5_dmabuf_ops (Some a) dir (ex_d x) = Some (r, Some a', d') \<and>
         r \<in> {Inr base, Inl (- EIO)})) \<and>
      km_live (ex_k x) = km_live k + 3 + int (length (ex_attached x)) \<and>
      dma_live Sg_table (ex_d x) = dma_live Sg_table d + 1 + int (length (ex_attached x)) \<and>
      dma_live Sg_mapping (ex_d x) - dma_live Sg_mapping d \<in> {0..int (length (ex_attached x))} \<and>
      (ex_attached x = [] \<longrightarrow> (\<exists>k' d'. op_release al5_dmabuf_ops di (ex_k x) (ex_d x) = (k', d') \<and>
         km_live k' = km_live k \<and>
         (\<forall>R. dma_live R d' = dma_live R d + (if R = Buf_ref then 1 else 0)))))"
proof -
  from export_state [OF assms] obtain n t where
    l: "last (d_trace d2) = (Dma_buf_export n \<lparr>priv_buffer = b, sgt_base = Some t\<rparr>, h)"
    "km_live k2 = km_live k + 3"
    "\<And>R. dma_live R d2 = dma_live R d + (if R \<in> {Coherent, Device_ref, Sg_table, Buf_ref} then 1 else 0)"
    by blast
  let ?di = "\<lparr>priv_buffer = b, sgt_base = Some t\<rparr>" and ?x = "exported_as \<lparr>priv_buffer = b, sgt_base = Some t\<rparr> k2 d2"
  have run: "(\<exists>err a k' d'. al5_dmabuf_attach ?di (ex_k x) (ex_d x) = Some (err, a, k', d') \<and> err \<in> {0, - ENOMEM}) \<and>
      (\<forall>a \<in> set (ex_attached x). \<forall>dir. dir \<noteq> DMA_NONE \<longrightarrow> (\<exists>r a' d'.
         al5_dmabuf_map (Some a) dir (ex_d x) = Some (r, Some a', d') \<and> r \<in> {Inr t, Inl (- EIO)})) \<and>
      km_live (ex_k x) = km_live k + 3 + int (length (ex_attached x)) \<and>
      dma_live Sg_table (ex_d x) = dma_live Sg_table d + 1 + int (length (ex_attached x)) \<and>
      dma_live Sg_mapping (ex_d x) - dma_live Sg_mapping d \<in> {0..int (length (ex_attached x))} \<and>
      (ex_attached x = [] \<longrightarrow> (\<exists>k' d'. al5_dmabuf_release ?di (ex_k x) (ex_d x) = (k', d') \<and>
         km_live k' = km_live k \<and>
         (\<forall>R. dma_live R d' = dma_live R d + (if R = Buf_ref then 1 else 0))))"
    (is "?attach \<and> ?map \<and> ?k \<and> ?t \<and> ?m \<and> ?release") if r: "dmabuf_run al5_dmabuf_ops ?x x" for x
  proof (intro conjI)
    have "accounted ?x x" by (rule run_accounted [OF r]) (simp_all add: exported_as_def)
    then have a: "ex_priv x = ?di" "\<forall>a \<in> set (ex_attached x). att_sgt a = t"
      "km_live (ex_k x) = km_live k2 + int (length (ex_attached x))"
      "\<And>R. dma_live R (ex_d x) = dma_live R d2 + (if R = Sg_table then int (length (ex_attached x)) else 0) +
        (if R = Sg_mapping then all_mappings (ex_attached x) else 0)"
      by (auto simp: accounted_def exported_as_def)
    show ?attach using attach_result [of ?di t "ex_k x" "ex_d x"] by (auto split: if_splits)
    show ?map using al5_dmabuf_map_live a(2) by fastforce
    show ?k ?t ?m using a(3,4) l(2,3) all_mappings_le [of "ex_attached x"] by auto
    show ?release
    proof
      assume e: "ex_attached x = []"
      obtain k' d' where rl: "al5_dmabuf_release ?di (ex_k x) (ex_d x) = (k', d')"
        by (cases "al5_dmabuf_release ?di (ex_k x) (ex_d x)")
      note live = al5_dmabuf_release_live(1,2) [OF rl]
      have "dma_live R d' = dma_live R d + (if R = Buf_ref then 1 else 0)" for R
        using live(2) [of R] a(4) [of R] l(3) [of R] e by (auto simp: all_mappings_def)
      with rl live(1) a(3) l(2) e show "\<exists>k' d'. al5_dmabuf_release ?di (ex_k x) (ex_d x) = (k', d') \<and>
         km_live k' = km_live k \<and> (\<forall>R. dma_live R d' = dma_live R d + (if R = Buf_ref then 1 else 0))"
        by auto
    qed
  qed
  with l(1) show ?thesis unfolding al5_dmabuf_ops_sel by fastforce
qed

text \<open>The call of the attachment's table succeeds too; every other call answers 7.\<close>

definition dsys_attach :: dsys where
  "dsys_attach = dsys7\<lparr>d_answer := (\<lambda>i. if i = 4 then 0 else 7)\<rparr>"

definition priv7 :: al5_dmabuf_priv where
  "priv7 = \<lparr>priv_buffer = buffer7, sgt_base = Some [(1, 4096, 0)]\<rparr>"

lemma export7:
  "\<exists>k1 d1 k2 d2. al5_alloc_dma 64 kmem0 dsys_attach = (Some buffer7, k1, d1) \<and>
    al5_dmabuf_wrap buffer7 k1 d1 = (7, k2, d2) \<and> last (d_trace d2) = (Dma_buf_export 64 priv7, 7) \<and>
    km_oracle k2 = km_oracle kmem0 \<and> length (d_trace d2) = 4 \<and> d_answer d2 = d_answer dsys_attach"
  by (simp add: al5_alloc_dma_def kmalloc_def kmem0_def dcall_def dsys7_def Let_def buffer7_def
        last_value_def al5_dmabuf_wrap_def kzalloc_def dsys_attach_def last_table_def priv7_def
        al5_get_base_sgt_def al5_get_dmabuf_def define_export_info_def)

lemma attached7:
  assumes "km_oracle k = km_oracle kmem0" "length (d_trace d) = 4" "d_answer d = d_answer dsys_attach"
  shows "\<exists>x. dmabuf_run al5_dmabuf_ops (exported_as priv7 k d) x \<and>
    ex_attached x = [\<lparr>att_sgt = [(1, 4096, 0)], att_dir = DMA_NONE\<rparr>]"
proof -
  let ?x = "exported_as priv7 k d" and ?a = "\<lparr>att_sgt = [(1, 4096, 0)], att_dir = DMA_NONE\<rparr>"
  have "\<exists>k' d'. al5_dmabuf_attach priv7 k d = Some (0, Some ?a, k', d')"
    using assms by (simp add: al5_dmabuf_attach_def kzalloc_def kmalloc_def dcall_def priv7_def
        dsys_attach_def sg_copy_all Let_def kmem0_def)
  then obtain k' d' where "al5_dmabuf_attach priv7 k d = Some (0, Some ?a, k', d')" by blast
  then have "dmabuf_step al5_dmabuf_ops ?x (?x\<lparr>ex_attached := ex_attached ?x @ [?a], ex_k := k', ex_d := d'\<rparr>)"
    by (intro dmabuf_step.attached) (simp add: exported_as_def)
  from dmabuf_run.more [OF dmabuf_run.start this] show ?thesis by (auto simp: exported_as_def)
qed

text \<open>One buffer and one attachment: two tables and four blocks are held.\<close>

theorem dmabuf_runs_balanced_witness:
  "\<exists>k1 d1 k2 d2 x. al5_alloc_dma 64 kmem0 dsys_attach = (Some buffer7, k1, d1) \<and>
    al5_dmabuf_wrap buffer7 k1 d1 = (7, k2, d2) \<and>
    dmabuf_run al5_dmabuf_ops (exported_as priv7 k2 d2) x \<and> length (ex_attached x) = 1 \<and>
    km_live (ex_k x) = km_live kmem0 + 4 \<and>
    dma_live Sg_table (ex_d x) = dma_live Sg_table dsys_attach + 2"
proof -
  from export7 obtain k1 d1 k2 d2 where
    e: "al5_alloc_dma 64 kmem0 dsys_attach = (Some buffer7, k1, d1)"
      "al5_dmabuf_wrap buffer7 k1 d1 = (7, k2, d2)" "last (d_trace d2) = (Dma_buf_export 64 priv7, 7)"
    and d: "km_oracle k2 = km_oracle kmem0" "length (d_trace d2) = 4" "d_answer d2 = d_answer dsys_attach"
    by blast
  from attached7 [OF d] obtain x where
    x: "dmabuf_run al5_dmabuf_ops (exported_as priv7 k2 d2) x" "length (ex_attached x) = 1" by auto
  from dmabuf_runs_balanced [OF e(1,2)] e(3) x have
    "km_live (ex_k x) = km_live kmem0 + 3 + 1" "dma_live Sg_table (ex_d x) = dma_live Sg_table dsys_attach + 1 + 1"
    by fastforce+
  with e x show ?thesis by auto
qed

end
